(* ===== verification/Prelude.thy ===== *)
theory Prelude
  imports Main "HOL-Library.Char_ord" "HOL-Library.List_Lexorder"
begin

text \<open>
  What every component shares: Go's \<open>error\<close> values, the string functions of \<open>strings\<close>,
  \<open>strconv\<close> and \<open>fmt\<close> that the program calls (on byte strings: a \<open>char\<close> is a byte), and the
  generic lemmas about them.  A Go result \<open>(T, error)\<close> is \<open>err + 'a\<close>: \<open>Inl\<close> for a non-nil error.
\<close>

named_theorems sql_defs \<open>definitions of the SQL statements\<close>
named_theorems text_simps \<open>rendering and parsing of numbers and names\<close>

section \<open>Errors\<close>

text \<open>
  \<open>NoRows\<close> is \<open>sql.ErrNoRows\<close>, \<open>ErrNotFound\<close> is \<open>dblayer.ErrNotFound\<close>, \<open>DriverErr\<close> is any error of
  a server or of its driver, \<open>Errorf\<close> a message made by the program and \<open>Wrap p e\<close> is
  \<open>fmt.Errorf("p: %w", e)\<close>.
\<close>

datatype err = NoRows | ErrNotFound | DriverErr string | Errorf string | Wrap string err

fun err_text :: "err \<Rightarrow> string" where
  "err_text NoRows = ''sql: no rows in result set''"
| "err_text ErrNotFound = ''not found''"
| "err_text (DriverErr m) = m"
| "err_text (Errorf m) = m"
| "err_text (Wrap p e) = p @ '': '' @ err_text e"

section \<open>Bytes and strings\<close>

definition byte :: "char \<Rightarrow> nat" where
  "byte c = of_char c"

definition is_lower :: "char \<Rightarrow> bool" where
  "is_lower c \<longleftrightarrow> 97 \<le> byte c \<and> byte c \<le> 122"

definition is_upper :: "char \<Rightarrow> bool" where
  "is_upper c \<longleftrightarrow> 65 \<le> byte c \<and> byte c \<le> 90"

definition is_digit :: "char \<Rightarrow> bool" where
  "is_digit c \<longleftrightarrow> 48 \<le> byte c \<and> byte c \<le> 57"

definition lower_char :: "char \<Rightarrow> char" where
  "lower_char c = (if is_upper c then char_of (byte c + 32) else c)"

text \<open>\<open>strings.ToLower\<close> on ASCII text; \<open>strings.ReplaceAll\<close> of one byte by another.\<close>

definition to_lower :: "string \<Rightarrow> string" where
  "to_lower s = map lower_char s"

definition replace_byte :: "char \<Rightarrow> char \<Rightarrow> string \<Rightarrow> string" where
  "replace_byte a b s = map (\<lambda>c. if c = a then b else c) s"

definition has_prefix :: "string \<Rightarrow> string \<Rightarrow> bool" where
  "has_prefix p s \<longleftrightarrow> take (length p) s = p"

definition trim_prefix :: "string \<Rightarrow> string \<Rightarrow> string" where
  "trim_prefix p s = (if has_prefix p s then drop (length p) s else s)"

fun join :: "string \<Rightarrow> string list \<Rightarrow> string" where
  "join sep [] = []"
| "join sep [x] = x"
| "join sep (x # y # xs) = x @ sep @ join sep (y # xs)"

text \<open>Runes of a valid UTF-8 string: its bytes without the continuation bytes.\<close>

definition rune_count :: "string \<Rightarrow> nat" where
  "rune_count s = length (filter (\<lambda>c. \<not> (128 \<le> byte c \<and> byte c < 192)) s)"

lemma byte_char_of [simp]: "byte (char_of n) = n mod 256"
  by (simp add: byte_def)

lemma byte_less [simp]: "byte c < 256"
  by (simp add: byte_def)

lemma char_of_byte [simp]: "char_of (byte c) = c"
  by (simp add: byte_def)

lemma byte_inject: "byte a = byte b \<longleftrightarrow> a = b"
  by (metis char_of_byte)

lemma length_to_lower [simp]: "length (to_lower s) = length s"
  by (simp add: to_lower_def)

lemma length_replace_byte [simp]: "length (replace_byte a b s) = length s"
  by (simp add: replace_byte_def)

lemma has_prefix_append [simp]: "has_prefix p (p @ s)"
  by (simp add: has_prefix_def)

lemma has_prefixE:
  assumes "has_prefix p s" obtains t where "s = p @ t"
  using assms unfolding has_prefix_def by (metis append_take_drop_id)

lemma trim_prefix_append [simp]: "trim_prefix p (p @ s) = s"
  by (simp add: trim_prefix_def)

lemma lower_char_not_upper: "\<not> is_upper (lower_char c)"
  by (auto simp: lower_char_def is_upper_def)

lemma lower_char_idem [simp]: "lower_char (lower_char c) = lower_char c"
  using lower_char_not_upper [of c] by (simp add: lower_char_def [of "lower_char c"])

lemma lower_char_id: "\<not> is_upper c \<Longrightarrow> lower_char c = c"
  by (simp add: lower_char_def)

lemma is_lower_lower_char: "is_upper c \<Longrightarrow> is_lower (lower_char c)"
  by (auto simp: lower_char_def is_upper_def is_lower_def)

lemma digit_not_letter: "is_digit c \<Longrightarrow> \<not> is_upper c \<and> \<not> is_lower c"
  by (simp add: is_digit_def is_upper_def is_lower_def)

lemma lower_not_upper: "is_lower c \<Longrightarrow> \<not> is_upper c"
  by (simp add: is_lower_def is_upper_def)

section \<open>Decimal numbers\<close>

text \<open>\<open>%d\<close> on a non-negative number, and zero padding to a width (\<open>%0*d\<close>).\<close>

definition digit_char :: "nat \<Rightarrow> char" where
  "digit_char d = char_of (48 + d)"

fun dec :: "nat \<Rightarrow> string" where
  "dec n = (if 10 \<le> n then dec (n div 10) @ [digit_char (n mod 10)] else [digit_char n])"

declare dec.simps [simp del]

definition dec_int :: "int \<Rightarrow> string" where
  "dec_int i = (if i < 0 then CHR ''-'' # dec (nat (- i)) else dec (nat i))"

definition pad0 :: "nat \<Rightarrow> string \<Rightarrow> string" where
  "pad0 w s = replicate (w - length s) CHR ''0'' @ s"

text \<open>The value of a string of digits.\<close>

definition digits_value :: "string \<Rightarrow> nat" where
  "digits_value s = foldl (\<lambda>n c. 10 * n + (byte c - 48)) 0 s"

lemma byte_digit_char: "d < 10 \<Longrightarrow> byte (digit_char d) = 48 + d"
  by (simp add: digit_char_def)

lemma is_digit_digit_char [simp]: "d < 10 \<Longrightarrow> is_digit (digit_char d)"
  by (simp add: is_digit_def byte_digit_char)

lemma dec_digits: "c \<in> set (dec n) \<Longrightarrow> is_digit c"
proof (induction n rule: dec.induct)
  case (1 n)
  then show ?case by (subst (asm) (2) dec.simps) (auto split: if_splits)
qed

lemma dec_nonempty [simp]: "dec n \<noteq> []"
  by (subst dec.simps) simp

lemma digits_value_snoc [simp]:
  "digits_value (s @ [c]) = 10 * digits_value s + (byte c - 48)"
  by (simp add: digits_value_def)

lemma digits_value_Nil [simp]: "digits_value [] = 0"
  by (simp add: digits_value_def)

lemma digits_value_dec [simp, text_simps]: "digits_value (dec n) = n"
proof (induction n rule: dec.induct)
  case (1 n)
  show ?case
  proof (cases "10 \<le> n")
    case True
    with 1 have "digits_value (dec (n div 10)) = n div 10" by simp
    with True show ?thesis by (subst dec.simps) (simp add: byte_digit_char)
  next
    case False
    then show ?thesis
      by (subst dec.simps) (simp add: byte_digit_char digits_value_def)
  qed
qed

lemma dec_inject [simp]: "dec m = dec n \<longleftrightarrow> m = n"
  by (metis digits_value_dec)

lemma length_dec: "n < 10 ^ k \<Longrightarrow> 0 < k \<Longrightarrow> length (dec n) \<le> k"
proof (induction k arbitrary: n)
  case 0
  then show ?case by simp
next
  case (Suc k)
  show ?case
  proof (cases "10 \<le> n")
    case True
    with Suc.prems have k: "0 < k" by (cases k) auto
    from Suc.prems have "n div 10 < 10 ^ k"
      by (simp add: less_mult_imp_div_less mult.commute)
    from Suc.IH [OF this k] True show ?thesis by (subst dec.simps) simp
  next
    case False
    then show ?thesis by (subst dec.simps) simp
  qed
qed

lemma digits_value_zeros: "digits_value (replicate k CHR ''0'' @ s) = digits_value s"
proof -
  have "foldl (\<lambda>n c. 10 * n + (byte c - 48)) 0 (replicate k CHR ''0'') = 0"
    by (induction k) (auto simp: byte_def)
  then show ?thesis by (simp add: digits_value_def)
qed

lemma digits_value_pad0 [simp, text_simps]: "digits_value (pad0 w (dec n)) = n"
  by (simp add: pad0_def digits_value_zeros)

lemma length_pad0: "length s \<le> w \<Longrightarrow> length (pad0 w s) = w"
  by (simp add: pad0_def)

lemma pad0_digits: "c \<in> set (pad0 w (dec n)) \<Longrightarrow> is_digit c"
  by (auto simp: pad0_def is_digit_def byte_def dest!: dec_digits split: if_splits)

text \<open>\<open>strconv.Atoi\<close>: an optional sign, decimal digits, the range of a 64-bit \<open>int\<close>.\<close>

definition int64 :: "int \<Rightarrow> bool" where
  "int64 i \<longleftrightarrow> - 9223372036854775808 \<le> i \<and> i \<le> 9223372036854775807"

definition int4 :: "int \<Rightarrow> bool" where
  "int4 i \<longleftrightarrow> - 2147483648 \<le> i \<and> i \<le> 2147483647"

definition atoi_digits :: "string \<Rightarrow> int option" where
  "atoi_digits s = (if s \<noteq> [] \<and> list_all is_digit s then Some (int (digits_value s)) else None)"

definition atoi :: "string \<Rightarrow> int option" where
  "atoi s =
     (let r = (case s of
                 c # t \<Rightarrow> (if c = CHR ''-'' then map_option uminus (atoi_digits t)
                           else if c = CHR ''+'' then atoi_digits t
                           else atoi_digits s)
               | [] \<Rightarrow> None)
      in case r of None \<Rightarrow> None | Some i \<Rightarrow> (if int64 i then Some i else None))"

lemma atoi_dec: "int64 (int n) \<Longrightarrow> atoi (dec n) = Some (int n)"
proof -
  assume n: "int64 (int n)"
  obtain c t where d: "dec n = c # t" by (cases "dec n") auto
  have "is_digit c" using dec_digits [of c n] d by simp
  then have "c \<noteq> CHR ''-''" "c \<noteq> CHR ''+''" by (auto simp: is_digit_def byte_def)
  moreover have "atoi_digits (c # t) = Some (int n)"
    unfolding d [symmetric] atoi_digits_def by (auto simp: list_all_iff intro: dec_digits)
  ultimately show ?thesis using n by (simp add: atoi_def d)
qed

section \<open>Hexadecimal\<close>

definition hex_digit :: "nat \<Rightarrow> char" where
  "hex_digit d = (if d < 10 then char_of (48 + d) else char_of (87 + d))"

lemma byte_hex_digit:
  "d < 16 \<Longrightarrow> byte (hex_digit d) = (if d < 10 then 48 + d else 87 + d)"
  by (simp add: hex_digit_def)

lemma hex_digit_inject:
  assumes "c < 16" "d < 16" shows "hex_digit c = hex_digit d \<longleftrightarrow> c = d"
proof -
  have "hex_digit c = hex_digit d \<longleftrightarrow> byte (hex_digit c) = byte (hex_digit d)"
    by (simp add: byte_inject)
  with assms show ?thesis by (auto simp: byte_hex_digit split: if_splits)
qed

section \<open>Lists\<close>

lemma distinct_map_filter_one:
  "distinct (map f xs) \<Longrightarrow> x \<in> set xs \<Longrightarrow> filter (\<lambda>y. f y = f x) xs = [x]"
proof (induction xs)
  case Nil
  then show ?case by simp
next
  case (Cons a xs)
  show ?case
  proof (cases "x = a")
    case True
    with Cons.prems have "\<forall>y \<in> set xs. f y \<noteq> f x" by (auto simp: image_iff)
    then have "filter (\<lambda>y. f y = f x) xs = []" by (simp add: filter_empty_conv)
    with True show ?thesis by simp
  next
    case False
    with Cons show ?thesis by auto
  qed
qed

lemma takeWhile_before: "s \<notin> set b \<Longrightarrow> takeWhile (\<lambda>c. c \<noteq> s) (b @ s # a) = b"
  by (induction b) auto

lemma split_last_sep:
  assumes eq: "a @ s # b = a' @ s # b'" and "s \<notin> set b" and "s \<notin> set b'"
  shows "a = a' \<and> b = b'"
proof -
  have "takeWhile (\<lambda>c. c \<noteq> s) (rev b @ s # rev a) = rev b"
    using assms by (simp add: takeWhile_before)
  moreover have "takeWhile (\<lambda>c. c \<noteq> s) (rev b' @ s # rev a') = rev b'"
    using assms by (simp add: takeWhile_before)
  moreover have "rev b @ s # rev a = rev b' @ s # rev a'"
    using arg_cong [OF eq, of rev] by simp
  ultimately have "rev b = rev b'" by metis
  with eq show ?thesis by simp
qed

end
