(* ===== verification/Json.thy ===== *)
theory Json
  imports Prelude
begin

text \<open>
  Go's \<open>map[string]T\<close> values and the part of \<open>encoding/json\<close> the program uses.  A Go map is the
  association list sorted by key, so equal maps are equal lists and \<open>json.Marshal\<close>, which writes
  the keys in order, is the list itself.  JSON text is represented by the tree it denotes
  (\<open>json_text\<close>, \<open>None\<close> for text that is not JSON); \<open>Unmarshal\<close> works on the tree.
\<close>

section \<open>Maps with string keys\<close>

type_synonym 'v gomap = "(string \<times> 'v) list"

fun map_put :: "string \<Rightarrow> 'v \<Rightarrow> 'v gomap \<Rightarrow> 'v gomap" where
  "map_put k v [] = [(k, v)]"
| "map_put k v ((a, b) # m) =
     (if k < a then (k, v) # (a, b) # m
      else if k = a then (k, v) # m
      else (a, b) # map_put k v m)"

definition map_del :: "string \<Rightarrow> 'v gomap \<Rightarrow> 'v gomap" where
  "map_del k m = filter (\<lambda>p. fst p \<noteq> k) m"

definition map_ok :: "'v gomap \<Rightarrow> bool" where
  "map_ok m \<longleftrightarrow> sorted_wrt (<) (map fst m)"

text \<open>What a client of a map relies on.\<close>

locale string_map =
  fixes empty :: "'m"
    and put :: "string \<Rightarrow> 'v \<Rightarrow> 'm \<Rightarrow> 'm"
    and del :: "string \<Rightarrow> 'm \<Rightarrow> 'm"
    and get :: "'m \<Rightarrow> string \<Rightarrow> 'v option"
    and ok :: "'m \<Rightarrow> bool"
  assumes get_empty: "get empty = (\<lambda>_. None)"
    and get_put: "ok m \<Longrightarrow> get (put k v m) = (get m)(k := Some v)"
    and get_del: "ok m \<Longrightarrow> get (del k m) = (get m)(k := None)"
    and ok_empty: "ok empty"
    and ok_put: "ok m \<Longrightarrow> ok (put k v m)"
    and ok_del: "ok m \<Longrightarrow> ok (del k m)"
    and ext: "ok m \<Longrightarrow> ok m' \<Longrightarrow> get m = get m' \<Longrightarrow> m = m'"
begin

lemma put_twice: "ok m \<Longrightarrow> put k v (put k w m) = put k v m"
  by (rule ext) (simp_all add: ok_put get_put)

lemma put_comm: "ok m \<Longrightarrow> k \<noteq> l \<Longrightarrow> put k v (put l w m) = put l w (put k v m)"
  by (rule ext) (simp_all add: ok_put get_put fun_upd_twist)

lemma del_put_same: "ok m \<Longrightarrow> del k (put k v m) = del k m"
  by (rule ext) (simp_all add: ok_put ok_del get_put get_del)

lemma del_put_comm: "ok m \<Longrightarrow> k \<noteq> l \<Longrightarrow> del k (put l w m) = put l w (del k m)"
  by (rule ext) (simp_all add: ok_put ok_del get_put get_del fun_upd_twist)

lemma del_comm: "ok m \<Longrightarrow> del k (del l m) = del l (del k m)"
  by (rule ext) (auto simp: ok_del get_del)

end

lemma map_ok_Nil [simp]: "map_ok []"
  by (simp add: map_ok_def)

lemma map_put_keys: "fst ` set (map_put k v m) = insert k (fst ` set m)"
  by (induction k v m rule: map_put.induct) auto

lemma map_put_get: "map_ok m \<Longrightarrow> map_of (map_put k v m) = (map_of m)(k \<mapsto> v)"
proof (induction k v m rule: map_put.induct)
  case (1 k v)
  then show ?case by simp
next
  case (2 k v a b m)
  then have "map_ok m" by (simp add: map_ok_def)
  with 2 show ?case by (auto simp: fun_eq_iff map_ok_def)
qed

lemma map_put_ok: "map_ok m \<Longrightarrow> map_ok (map_put k v m)"
proof (induction k v m rule: map_put.induct)
  case (1 k v)
  then show ?case by (simp add: map_ok_def)
next
  case (2 k v a b m)
  consider "k < a" | "k = a" | "a < k" by (cases rule: linorder_cases [of k a]) auto
  then show ?case
  proof cases
    case 1
    with "2.prems" show ?thesis by (auto simp: map_ok_def)
  next
    case 2
    with "2.prems" show ?thesis by (simp add: map_ok_def)
  next
    case 3
    moreover have "map_ok (map_put k v m)"
      using "2.IH" "2.prems" 3 by (auto simp: map_ok_def)
    moreover have "\<forall>x \<in> set (map_put k v m). a < fst x"
    proof
      fix x assume "x \<in> set (map_put k v m)"
      then have "fst x \<in> insert k (fst ` set m)"
        using map_put_keys [of k v m] by blast
      with 3 "2.prems" show "a < fst x" by (auto simp: map_ok_def)
    qed
    ultimately show ?thesis by (auto simp: map_ok_def)
  qed
qed

lemma map_del_get: "map_of (map_del k m) = (map_of m)(k := None)"
  by (induction m) (auto simp: map_del_def fun_eq_iff)

lemma map_del_ok: "map_ok m \<Longrightarrow> map_ok (map_del k m)"
  unfolding map_ok_def map_del_def by (induction m) auto

lemma map_ok_tail: "map_ok (p # m) \<Longrightarrow> map_ok m \<and> map_of m (fst p) = None"
  by (auto simp: map_ok_def map_of_eq_None_iff)

lemma map_ok_head_min: "map_ok ((a, b) # m) \<Longrightarrow> map_of ((a, b) # m) k \<noteq> None \<Longrightarrow> a \<le> k"
  by (auto simp: map_ok_def dest!: map_of_SomeD split: if_splits)

lemma map_ok_ext: "map_ok m \<Longrightarrow> map_ok m' \<Longrightarrow> map_of m = map_of m' \<Longrightarrow> m = m'"
proof (induction m arbitrary: m')
  case Nil
  show ?case
  proof (cases m')
    case Nil
    then show ?thesis by simp
  next
    case (Cons p n)
    with Nil.prems(3) have "map_of [] (fst p) = map_of (p # n) (fst p)" by metis
    then show ?thesis by simp
  qed
next
  case (Cons p m)
  obtain a b where p: "p = (a, b)" by (cases p)
  from Cons.prems(3) p have "map_of m' a = Some b" by (metis map_of_Cons_code(2))
  then obtain a' b' n where m': "m' = (a', b') # n" by (cases m') auto
  have "map_of ((a, b) # m) a' = map_of ((a', b') # n) a'" using Cons.prems(3) p m' by metis
  then have "map_of ((a, b) # m) a' \<noteq> None" by auto
  with Cons.prems(1) p have "a \<le> a'" by (metis map_ok_head_min)
  moreover have "a' \<le> a"
    using map_ok_head_min [of a' b' n a] Cons.prems(2) m' \<open>map_of m' a = Some b\<close> by simp
  ultimately have a: "a' = a" by simp
  with m' \<open>map_of m' a = Some b\<close> have b: "b' = b" by simp
  have "map_of m = map_of n"
  proof
    fix k
    show "map_of m k = map_of n k"
    proof (cases "k = a")
      case True
      then show ?thesis
        using map_ok_tail [of p m] map_ok_tail [of "(a', b')" n] Cons.prems p m' a by simp
    next
      case False
      then show ?thesis using fun_cong [OF Cons.prems(3), of k] p m' a by simp
    qed
  qed
  then have "m = n"
    using Cons.IH [of n] map_ok_tail [of p m] map_ok_tail [of "(a', b')" n] Cons.prems m'
    by simp
  with p m' a b show ?case by simp
qed

interpretation gm: string_map "[]" map_put map_del map_of map_ok
proof
  show "map_ok []" by (rule map_ok_Nil)
qed (auto simp: map_put_get map_del_get map_put_ok map_del_ok intro: map_ok_ext)

section \<open>JSON values\<close>

text \<open>\<open>JNum\<close> is an integer literal, \<open>JFrac\<close> any other number literal.\<close>

datatype json =
    JNull
  | JBool bool
  | JNum int
  | JFrac string
  | JStr string
  | JArr "json list"
  | JObj "json gomap"

type_synonym json_text = "json option"

text \<open>Struct fields match an object's keys without regard to case (ASCII folding).\<close>

definition fold_eq :: "string \<Rightarrow> string \<Rightarrow> bool" where
  "fold_eq a b \<longleftrightarrow> to_lower a = to_lower b"

text \<open>
  A struct field read from an object's members, in their order: the last matching member wins,
  \<open>null\<close> leaves the field as it is, a value of another type is an error (\<open>None\<close>).
\<close>

fun field_str :: "string \<Rightarrow> json gomap \<Rightarrow> string \<Rightarrow> string option" where
  "field_str f [] v = Some v"
| "field_str f ((k, j) # ms) v =
     (if fold_eq k f
      then (case j of JStr s \<Rightarrow> field_str f ms s | JNull \<Rightarrow> field_str f ms v | _ \<Rightarrow> None)
      else field_str f ms v)"

fun field_int :: "string \<Rightarrow> json gomap \<Rightarrow> int \<Rightarrow> int option" where
  "field_int f [] v = Some v"
| "field_int f ((k, j) # ms) v =
     (if fold_eq k f
      then (case j of JNum i \<Rightarrow> (if int64 i then field_int f ms i else None)
            | JNull \<Rightarrow> field_int f ms v | _ \<Rightarrow> None)
      else field_int f ms v)"

fun field_bool :: "string \<Rightarrow> json gomap \<Rightarrow> bool \<Rightarrow> bool option" where
  "field_bool f [] v = Some v"
| "field_bool f ((k, j) # ms) v =
     (if fold_eq k f
      then (case j of JBool b \<Rightarrow> field_bool f ms b | JNull \<Rightarrow> field_bool f ms v | _ \<Rightarrow> None)
      else field_bool f ms v)"

text \<open>
  An element of a \<open>[]string\<close> or a \<open>map[string]string\<close>: \<open>null\<close> is the zero value; another type is
  an error that \<open>Unmarshal\<close> reports after storing the zero value.
\<close>

fun elem_str :: "json \<Rightarrow> string \<times> bool" where
  "elem_str (JStr s) = (s, True)"
| "elem_str JNull = ('''', True)"
| "elem_str _ = ('''', False)"

fun members_into :: "json gomap \<Rightarrow> string gomap \<Rightarrow> string gomap \<times> bool" where
  "members_into [] m = (m, True)"
| "members_into ((k, j) # ms) m =
     (let (s, b) = elem_str j; (m', b') = members_into ms (map_put k s m) in (m', b \<and> b'))"

definition or_empty :: "string gomap option \<Rightarrow> string gomap" where
  "or_empty m = (case m of None \<Rightarrow> [] | Some kvs \<Rightarrow> kvs)"

fun field_map :: "string \<Rightarrow> json gomap \<Rightarrow> string gomap option \<Rightarrow> string gomap option option" where
  "field_map f [] v = Some v"
| "field_map f ((k, j) # ms) v =
     (if fold_eq k f
      then (case j of JObj os \<Rightarrow> (case members_into os (or_empty v) of (v', b) \<Rightarrow>
                                   (if b then field_map f ms (Some v') else None))
            | JNull \<Rightarrow> field_map f ms None | _ \<Rightarrow> None)
      else field_map f ms v)"

text \<open>
  \<open>json.Unmarshal(text, &m)\<close> for \<open>m map[string]string\<close> and \<open>m []string\<close>, starting from nil: the
  value left in \<open>m\<close> (\<open>None\<close> for nil) and whether the error is nil.
\<close>

fun unmarshal_map :: "json_text \<Rightarrow> string gomap option \<times> bool" where
  "unmarshal_map (Some (JObj ms)) = (let (m, b) = members_into ms [] in (Some m, b))"
| "unmarshal_map (Some JNull) = (None, True)"
| "unmarshal_map _ = (None, False)"

fun unmarshal_list :: "json_text \<Rightarrow> string list option \<times> bool" where
  "unmarshal_list (Some (JArr js)) = (Some (map (fst \<circ> elem_str) js), list_all (snd \<circ> elem_str) js)"
| "unmarshal_list (Some JNull) = (None, True)"
| "unmarshal_list _ = (None, False)"

definition marshal_map :: "string gomap option \<Rightarrow> json" where
  "marshal_map m = (case m of None \<Rightarrow> JNull | Some kvs \<Rightarrow> JObj (map (\<lambda>(k, v). (k, JStr v)) kvs))"

definition marshal_list :: "string list option \<Rightarrow> json" where
  "marshal_list l = (case l of None \<Rightarrow> JNull | Some ss \<Rightarrow> JArr (map JStr ss))"

lemma members_into_strs:
  "members_into (map (\<lambda>(k, v). (k, JStr v)) kvs) m = (foldl (\<lambda>m (k, v). map_put k v m) m kvs, True)"
  by (induction kvs arbitrary: m) auto

lemma map_put_last: "\<forall>p \<in> set m. fst p < k \<Longrightarrow> map_put k v m = m @ [(k, v)]"
  by (induction k v m rule: map_put.induct) auto

lemma foldl_put_sorted:
  "map_ok (m @ kvs) \<Longrightarrow> foldl (\<lambda>m (k, v). map_put k v m) m kvs = m @ kvs"
proof (induction kvs arbitrary: m)
  case Nil
  then show ?case by simp
next
  case (Cons p kvs)
  obtain k v where p: "p = (k, v)" by (cases p)
  with Cons.prems have "\<forall>q \<in> set m. fst q < k"
    by (auto simp: map_ok_def sorted_wrt_append)
  then have "map_put k v m = m @ [(k, v)]" by (rule map_put_last)
  with Cons.IH [of "m @ [p]"] Cons.prems p show ?case by simp
qed

lemma unmarshal_marshal_map:
  "map_ok kvs \<Longrightarrow> unmarshal_map (Some (marshal_map (Some kvs))) = (Some kvs, True)"
  using foldl_put_sorted [of "[]" kvs] by (simp add: marshal_map_def members_into_strs)

lemma unmarshal_marshal_list [simp]: "unmarshal_list (Some (marshal_list l)) = (l, True)"
  by (cases l) (auto simp: marshal_list_def list_all_iff comp_def)

lemma members_into_ok: "map_ok m \<Longrightarrow> map_ok (fst (members_into ms m))"
  by (induction ms m rule: members_into.induct) (auto simp: map_put_ok Let_def split: prod.splits)

lemma unmarshal_map_ok: "fst (unmarshal_map t) = Some m \<Longrightarrow> map_ok m"
proof (cases t rule: unmarshal_map.cases)
  case (1 ms)
  assume "fst (unmarshal_map t) = Some m"
  with 1 have "m = fst (members_into ms [])" by (simp add: case_prod_beta Let_def)
  then show ?thesis by (simp add: members_into_ok)
qed auto

end
