(* ===== verification/Tables.thy ===== *)
theory Tables
  imports Json
begin

text \<open>
  The database: the structs of \<open>dblayer/models.go\<close> as records, the tables of
  \<open>scripts/init.sql\<close> as lists of rows in insertion order, and how a statement runs.  Times are
  nanoseconds (\<open>int\<close>).  \<open>db_faults\<close> scripts the server: the next statement fails with the given
  driver message and no effect (\<open>Some\<close>), or runs (\<open>None\<close>, and always after the script's end), so a
  theorem about every \<open>db\<close> is a theorem about every pattern of failing statements.
\<close>

section \<open>Rows\<close>

record user =
  usr_ID :: int
  usr_UID :: string
  usr_Email :: string
  usr_PasswordHash :: string
  usr_SecretKey :: string
  usr_CreatedAt :: int

record verification_code =
  vc_ID :: int
  vc_Email :: string
  vc_Code :: string
  vc_ExpiresAt :: int
  vc_Used :: bool

record custom_domain =
  cd_ID :: int
  cd_CDID :: string
  cd_UserUID :: string
  cd_Domain :: string
  cd_Target :: string
  cd_TXTName :: string
  cd_TXTValue :: string
  cd_Status :: string
  cd_CreatedAt :: int

record worker =
  w_ID :: int
  w_WID :: string
  w_UserUID :: string
  w_WorkerName :: string
  w_Status :: string
  w_ActiveVersionID :: "int option"
  w_EnvJSON :: json_text
  w_SecretsJSON :: json_text
  w_CreatedAt :: int

record worker_deploy_version =
  v_ID :: int
  v_WorkerID :: int
  v_Image :: string
  v_Port :: int
  v_Status :: string
  v_Msg :: string
  v_CreatedAt :: int

record combinator_resource =
  cr_ID :: int
  cr_UserUID :: string
  cr_ResourceType :: string
  cr_ResourceID :: string
  cr_Status :: string
  cr_Msg :: string
  cr_CreatedAt :: int

record combinator_resource_report =
  rp_ID :: string
  rp_UserID :: string
  rp_ResourceID :: string
  rp_ResourceType :: string
  rp_DataChange :: int
  rp_TimespanStart :: int
  rp_TimespanEnd :: int

text \<open>A row of \<open>combinator_resource_reports\<close>, whose \<open>resource_id\<close> is an \<open>INTEGER\<close>.\<close>

record report_row =
  rr_id :: int
  rr_user_uid :: string
  rr_resource_id :: int
  rr_datachange :: int
  rr_record_start :: int
  rr_record_end :: int

record console_task =
  ct_ID :: int
  ct_TaskType :: string
  ct_TaskStatus :: string
  ct_TaskDetailedStatus :: string
  ct_TaskInfo :: string
  ct_CreatedAt :: int

record tables =
  t_users :: "user list"
  t_codes :: "verification_code list"
  t_domains :: "custom_domain list"
  t_workers :: "worker list"
  t_versions :: "worker_deploy_version list"
  t_resources :: "combinator_resource list"
  t_reports :: "report_row list"
  t_tasks :: "console_task list"

datatype tbl = Users | Codes | Domains | Workers | Versions | Resources | Reports | Tasks

text \<open>\<open>db_seq\<close> holds the next value of each table's \<open>SERIAL\<close>; \<open>db_now\<close> is \<open>CURRENT_TIMESTAMP\<close>.\<close>

record db =
  tab :: tables
  db_seq :: "tbl \<Rightarrow> int"
  db_now :: int
  db_faults :: "string option list"

definition empty_tables :: tables where
  "empty_tables = \<lparr>t_users = [], t_codes = [], t_domains = [], t_workers = [], t_versions = [],
     t_resources = [], t_reports = [], t_tasks = []\<rparr>"

definition empty_db :: "int \<Rightarrow> string option list \<Rightarrow> db" where
  "empty_db now fs = \<lparr>tab = empty_tables, db_seq = (\<lambda>_. 1), db_now = now, db_faults = fs\<rparr>"

section \<open>Running a statement\<close>

type_synonym 'a dbop = "db \<Rightarrow> (err + 'a) \<times> db"

definition run_stmt :: "'a dbop \<Rightarrow> 'a dbop" where
  "run_stmt b d =
     (case db_faults d of
        [] \<Rightarrow> b d
      | None # fs \<Rightarrow> b (d\<lparr>db_faults := fs\<rparr>)
      | Some m # fs \<Rightarrow> (Inl (DriverErr m), d\<lparr>db_faults := fs\<rparr>))"

definition sql_query :: "(tables \<Rightarrow> err + 'a) \<Rightarrow> 'a dbop" where
  "sql_query q = run_stmt (\<lambda>d. (q (tab d), d))"

definition sql_exec :: "(tables \<Rightarrow> err + 'a \<times> tables) \<Rightarrow> 'a dbop" where
  "sql_exec f = run_stmt (\<lambda>d. case f (tab d) of
                                Inl e \<Rightarrow> (Inl e, d)
                              | Inr (x, t) \<Rightarrow> (Inr x, d\<lparr>tab := t\<rparr>))"

text \<open>An \<open>INSERT\<close> of \<open>n\<close> rows takes \<open>n\<close> values of the sequence even when a constraint refuses it.\<close>

definition sql_insert :: "tbl \<Rightarrow> nat \<Rightarrow> (int \<Rightarrow> int \<Rightarrow> tables \<Rightarrow> err + 'a \<times> tables) \<Rightarrow> 'a dbop" where
  "sql_insert tb n f = run_stmt (\<lambda>d.
     let i = db_seq d tb; d' = d\<lparr>db_seq := (db_seq d)(tb := i + int n)\<rparr>
     in case f i (db_now d) (tab d) of
          Inl e \<Rightarrow> (Inl e, d')
        | Inr (x, t) \<Rightarrow> (Inr x, d'\<lparr>tab := t\<rparr>))"

text \<open>A statement after another, with Go's early return of an error.\<close>

definition db_bind :: "'a dbop \<Rightarrow> ('a \<Rightarrow> 'b dbop) \<Rightarrow> 'b dbop" where
  "db_bind op k d = (case op d of (Inl e, d') \<Rightarrow> (Inl e, d') | (Inr x, d') \<Rightarrow> k x d')"

text \<open>
  A transaction: \<open>Begin\<close> and \<open>Commit\<close> are statements that may fail; the deferred \<open>Rollback\<close>
  puts back the tables as they were at \<open>Begin\<close> (sequences are not rolled back).
\<close>

definition tx_begin :: "unit dbop" where
  "tx_begin = run_stmt (\<lambda>d. (Inr (), d))"

definition tx_commit :: "unit dbop" where
  "tx_commit = run_stmt (\<lambda>d. (Inr (), d))"

definition tx_rollback :: "db \<Rightarrow> db \<Rightarrow> db" where
  "tx_rollback d0 d = d\<lparr>tab := tab d0\<rparr>"

definition in_tx :: "'a dbop \<Rightarrow> 'a dbop" where
  "in_tx body d =
     (case tx_begin d of
        (Inl e, d0) \<Rightarrow> (Inl e, d0)
      | (Inr _, d0) \<Rightarrow>
          (case body d0 of
             (Inl e, d1) \<Rightarrow> (Inl e, tx_rollback d0 d1)
           | (Inr x, d1) \<Rightarrow>
               (case tx_commit d1 of
                  (Inl e, d2) \<Rightarrow> (Inl e, tx_rollback d0 d2)
                | (Inr _, d2) \<Rightarrow> (Inr x, d2))))"

definition pq_unique :: "string \<Rightarrow> err" where
  "pq_unique c = DriverErr (''pq: duplicate key value violates unique constraint '' @ c)"

definition first_row :: "('r \<Rightarrow> bool) \<Rightarrow> 'r list \<Rightarrow> err + 'r" where
  "first_row p rs = (case find p rs of None \<Rightarrow> Inl NoRows | Some r \<Rightarrow> Inr r)"

definition update_where :: "('r \<Rightarrow> bool) \<Rightarrow> ('r \<Rightarrow> 'r) \<Rightarrow> 'r list \<Rightarrow> 'r list" where
  "update_where p f rs = map (\<lambda>r. if p r then f r else r) rs"

definition delete_where :: "('r \<Rightarrow> bool) \<Rightarrow> 'r list \<Rightarrow> 'r list" where
  "delete_where p rs = filter (\<lambda>r. \<not> p r) rs"

section \<open>Facts about statements\<close>

lemma sql_query_tab: "sql_query q d = (r, d') \<Longrightarrow> tab d' = tab d \<and> db_seq d' = db_seq d"
  by (auto simp: sql_query_def run_stmt_def split: list.splits option.splits)

lemma sql_query_ok: "sql_query q d = (Inr x, d') \<Longrightarrow> q (tab d) = Inr x"
  by (auto simp: sql_query_def run_stmt_def split: list.splits option.splits)

lemma sql_exec_ok: "sql_exec f d = (Inr x, d') \<Longrightarrow> f (tab d) = Inr (x, tab d')"
  by (auto simp: sql_exec_def run_stmt_def split: list.splits option.splits sum.splits)

lemma sql_exec_err: "sql_exec f d = (Inl e, d') \<Longrightarrow> tab d' = tab d"
  by (auto simp: sql_exec_def run_stmt_def split: list.splits option.splits sum.splits)

lemma sql_exec_seq: "sql_exec f d = (r, d') \<Longrightarrow> db_seq d' = db_seq d"
  by (auto simp: sql_exec_def run_stmt_def split: list.splits option.splits sum.splits)

lemma sql_insert_ok:
  "sql_insert tb n f d = (Inr x, d') \<Longrightarrow>
     f (db_seq d tb) (db_now d) (tab d) = Inr (x, tab d') \<and>
     db_seq d' = (db_seq d)(tb := db_seq d tb + int n)"
  by (auto simp: sql_insert_def run_stmt_def Let_def
      split: list.splits option.splits sum.splits)

lemma sql_insert_err:
  "sql_insert tb n f d = (Inl e, d') \<Longrightarrow> tab d' = tab d \<and>
     (db_seq d' = db_seq d \<or> db_seq d' = (db_seq d)(tb := db_seq d tb + int n))"
  by (auto simp: sql_insert_def run_stmt_def Let_def
      split: list.splits option.splits sum.splits)

lemma tx_begin_tab: "tx_begin d = (r, d') \<Longrightarrow> tab d' = tab d \<and> db_seq d' = db_seq d"
  by (auto simp: tx_begin_def run_stmt_def split: list.splits option.splits)

lemma tx_commit_tab: "tx_commit d = (r, d') \<Longrightarrow> tab d' = tab d \<and> db_seq d' = db_seq d"
  by (auto simp: tx_commit_def run_stmt_def split: list.splits option.splits)

lemma tx_rollback_sel [simp]:
  "tab (tx_rollback d0 d) = tab d0" "db_seq (tx_rollback d0 d) = db_seq d"
  by (simp_all add: tx_rollback_def)

lemma in_tx_err: "in_tx body d = (Inl e, d') \<Longrightarrow> tab d' = tab d"
  unfolding in_tx_def by (auto split: prod.splits sum.splits dest!: tx_begin_tab)

lemma in_tx_ok:
  assumes "in_tx body d = (Inr x, d')"
  obtains d0 d1 where "tab d0 = tab d" "db_seq d0 = db_seq d" "body d0 = (Inr x, d1)"
    "tab d' = tab d1"
  using assms unfolding in_tx_def
  by (fastforce split: prod.splits sum.splits dest!: tx_begin_tab tx_commit_tab)

lemma db_bind_ok:
  assumes "db_bind op k d = (Inr y, d')"
  obtains x d1 where "op d = (Inr x, d1)" "k x d1 = (Inr y, d')"
  using assms unfolding db_bind_def by (auto split: prod.splits sum.splits)

lemma first_row_ok: "first_row p rs = Inr r \<Longrightarrow> r \<in> set rs \<and> p r"
  by (auto simp: first_row_def find_Some_iff in_set_conv_nth split: option.splits)

lemma first_row_err: "first_row p rs = Inl e \<longleftrightarrow> e = NoRows \<and> (\<forall>r \<in> set rs. \<not> p r)"
  by (auto simp: first_row_def find_None_iff find_Some_iff split: option.splits
      intro!: bexI [OF _ nth_mem])

lemma first_row_unique:
  assumes "distinct (map k rs)" "r \<in> set rs" "p r" "\<And>x. p x \<Longrightarrow> k x = k r"
  shows "first_row p rs = Inr r"
proof (cases "first_row p rs")
  case (Inl e)
  with assms show ?thesis by (auto simp: first_row_err)
next
  case (Inr x)
  from first_row_ok [OF this] assms(4) have "x \<in> set rs" "k x = k r" by auto
  with assms(1,2) have "x = r" by (metis distinct_map inj_onD)
  with Inr show ?thesis by simp
qed

lemma update_where_map:
  "(\<And>r. k (f r) = k r) \<Longrightarrow> map k (update_where p f rs) = map k rs"
  by (auto simp: update_where_def)

lemma update_where_img:
  "(\<And>r. k (f r) = k r) \<Longrightarrow> k ` set (update_where p f rs) = k ` set rs"
  by (metis update_where_map set_map)

lemma set_update_where:
  "set (update_where p f rs) = f ` {r \<in> set rs. p r} \<union> {r \<in> set rs. \<not> p r}"
  by (auto simp: update_where_def)

lemma set_delete_where [simp]: "set (delete_where p rs) = {r \<in> set rs. \<not> p r}"
  by (auto simp: delete_where_def)

lemma distinct_delete_where: "distinct (map k rs) \<Longrightarrow> distinct (map k (delete_where p rs))"
  by (simp add: delete_where_def distinct_map_filter)

text \<open>Statements that no constraint can refuse.\<close>

lemma sql_exec_Inr:
  "sql_exec (\<lambda>t. Inr (h t, g t)) d = (Inr x, d') \<Longrightarrow>
     x = h (tab d) \<and> tab d' = g (tab d) \<and> db_seq d' = db_seq d"
  by (frule sql_exec_ok, frule sql_exec_seq) auto
lemma sql_insert_tab:
  "sql_insert tb n f d = (Inr x, d') \<Longrightarrow>
     \<exists>t. f (db_seq d tb) (db_now d) (tab d) = Inr (x, t) \<and> tab d' = t"
  by (simp add: sql_insert_ok)

section \<open>Integrity\<close>

text \<open>
  The constraints of \<open>init.sql\<close> on the rows (\<open>tables_ok\<close>) and the sequences being ahead of
  every id (\<open>seq_ok\<close>).  Every operation of the layer keeps both (\<open>keeps_ok\<close>).
\<close>

definition tables_ok :: "tables \<Rightarrow> bool" where
  "tables_ok t \<longleftrightarrow>
     distinct (map usr_UID (t_users t)) \<and> distinct (map usr_Email (t_users t)) \<and>
     distinct (map cd_CDID (t_domains t)) \<and> distinct (map cd_Domain (t_domains t)) \<and>
     distinct (map w_WID (t_workers t)) \<and>
     (\<forall>v \<in> set (t_versions t). v_WorkerID v \<in> w_ID ` set (t_workers t)) \<and>
     (\<forall>r \<in> set (t_reports t). rr_resource_id r \<in> cr_ID ` set (t_resources t))"

fun ids :: "tbl \<Rightarrow> tables \<Rightarrow> int list" where
  "ids Users t = map usr_ID (t_users t)"
| "ids Codes t = map vc_ID (t_codes t)"
| "ids Domains t = map cd_ID (t_domains t)"
| "ids Workers t = map w_ID (t_workers t)"
| "ids Versions t = map v_ID (t_versions t)"
| "ids Resources t = map cr_ID (t_resources t)"
| "ids Reports t = map rr_id (t_reports t)"
| "ids Tasks t = map ct_ID (t_tasks t)"

definition seq_ok :: "db \<Rightarrow> bool" where
  "seq_ok d \<longleftrightarrow> (\<forall>tb. distinct (ids tb (tab d)) \<and> (\<forall>i \<in> set (ids tb (tab d)). i < db_seq d tb))"

definition db_ok :: "db \<Rightarrow> bool" where
  "db_ok d \<longleftrightarrow> tables_ok (tab d) \<and> seq_ok d"

definition keeps_ok :: "'a dbop \<Rightarrow> bool" where
  "keeps_ok op \<longleftrightarrow> (\<forall>d. db_ok d \<longrightarrow>
     db_ok (snd (op d)) \<and> (\<forall>tb. db_seq d tb \<le> db_seq (snd (op d)) tb))"

lemma keeps_okD: "keeps_ok op \<Longrightarrow> op d = (r, d') \<Longrightarrow> db_ok d \<Longrightarrow> db_ok d'"
  unfolding keeps_ok_def by (metis snd_conv)

lemma keeps_seqD: "keeps_ok op \<Longrightarrow> op d = (r, d') \<Longrightarrow> db_ok d \<Longrightarrow> db_seq d tb \<le> db_seq d' tb"
  unfolding keeps_ok_def by (metis snd_conv)

lemma keeps_okI:
  "(\<And>d r d'. op d = (r, d') \<Longrightarrow> db_ok d \<Longrightarrow> db_ok d' \<and> (\<forall>tb. db_seq d tb \<le> db_seq d' tb)) \<Longrightarrow>
     keeps_ok op"
  unfolding keeps_ok_def by (metis prod.collapse)

lemma empty_db_ok: "db_ok (empty_db now fs)"
proof -
  have "ids tb empty_tables = []" for tb by (cases tb) (simp_all add: empty_tables_def)
  then show ?thesis
    by (simp add: db_ok_def tables_ok_def seq_ok_def empty_db_def empty_tables_def [symmetric])
      (simp add: empty_tables_def)
qed

lemma db_ok_same: "db_ok d \<Longrightarrow> tab d' = tab d \<Longrightarrow> (\<And>tb. db_seq d tb \<le> db_seq d' tb) \<Longrightarrow> db_ok d'"
  unfolding db_ok_def seq_ok_def by (metis order_less_le_trans)

lemma tx_rollback_ok:
  "db_ok d0 \<Longrightarrow> (\<And>tb. db_seq d0 tb \<le> db_seq d tb) \<Longrightarrow> db_ok (tx_rollback d0 d)"
  by (rule db_ok_same [of d0]) simp_all

lemma sql_insert_seq: "sql_insert tb n f d = (r, d') \<Longrightarrow> db_seq d u \<le> db_seq d' u"
  by (cases r) (auto dest!: sql_insert_ok sql_insert_err)

lemma sql_query_keeps: "keeps_ok (sql_query q)"
  by (rule keeps_okI) (auto dest!: sql_query_tab intro: db_ok_same)

lemma db_bind_keeps:
  assumes "keeps_ok op" and "\<And>x. keeps_ok (k x)"
  shows "keeps_ok (db_bind op k)"
proof (rule keeps_okI)
  fix d r d' assume run: "db_bind op k d = (r, d')" and ok: "db_ok d"
  obtain r1 d1 where op: "op d = (r1, d1)" by (cases "op d")
  with assms(1) ok have d1: "db_ok d1" "\<And>tb. db_seq d tb \<le> db_seq d1 tb"
    by (auto dest: keeps_okD keeps_seqD)
  show "db_ok d' \<and> (\<forall>tb. db_seq d tb \<le> db_seq d' tb)"
  proof (cases r1)
    case (Inl e)
    with run op d1 show ?thesis by (auto simp: db_bind_def)
  next
    case (Inr x)
    with run op have "k x d1 = (r, d')" by (simp add: db_bind_def)
    with assms(2) d1 show ?thesis by (meson keeps_okD keeps_seqD order_trans)
  qed
qed

lemma in_tx_keeps:
  assumes body: "keeps_ok body"
  shows "keeps_ok (in_tx body)"
proof (rule keeps_okI)
  fix d r d' assume run: "in_tx body d = (r, d')" and ok: "db_ok d"
  obtain r0 d0 where b: "tx_begin d = (r0, d0)" by (cases "tx_begin d")
  then have d0: "db_ok d0" and s0: "db_seq d0 = db_seq d"
    using db_ok_same [OF ok, of d0] tx_begin_tab [OF b] by auto
  obtain r1 d1 where op: "body d0 = (r1, d1)" by (cases "body d0")
  then have d1: "db_ok d1" and s1: "\<And>tb. db_seq d0 tb \<le> db_seq d1 tb"
    using body d0 by (auto dest: keeps_okD keeps_seqD)
  obtain r2 d2 where c: "tx_commit d1 = (r2, d2)" by (cases "tx_commit d1")
  then have d2: "db_ok d2" and s2: "db_seq d2 = db_seq d1"
    using db_ok_same [OF d1, of d2] tx_commit_tab [OF c] by auto
  have "db_ok (tx_rollback d0 d1)" "db_ok (tx_rollback d0 d2)"
    using d0 s1 s2 by (auto intro!: tx_rollback_ok)
  with run b op c d0 d1 d2 s0 s1 s2
  show "db_ok d' \<and> (\<forall>tb. db_seq d tb \<le> db_seq d' tb)"
    by (cases r0; cases r1; cases r2) (auto simp: in_tx_def)
qed

lemma sql_exec_keeps:
  assumes "\<And>t x t'. f t = Inr (x, t') \<Longrightarrow> tables_ok t \<Longrightarrow>
             tables_ok t' \<and> (\<forall>tb. distinct (ids tb t) \<longrightarrow> distinct (ids tb t')) \<and>
             (\<forall>tb. set (ids tb t') \<subseteq> set (ids tb t))"
  shows "keeps_ok (sql_exec f)"
proof (rule keeps_okI)
  fix d r d' assume run: "sql_exec f d = (r, d')" and ok: "db_ok d"
  show "db_ok d' \<and> (\<forall>tb. db_seq d tb \<le> db_seq d' tb)"
  proof (cases r)
    case (Inl e)
    with run sql_exec_err sql_exec_seq ok show ?thesis by (metis db_ok_same order_refl)
  next
    case (Inr x)
    with run have "f (tab d) = Inr (x, tab d')" by (simp add: sql_exec_ok)
    from assms [OF this] ok have "tables_ok (tab d') \<and>
      (\<forall>tb. distinct (ids tb (tab d)) \<longrightarrow> distinct (ids tb (tab d'))) \<and>
      (\<forall>tb. set (ids tb (tab d')) \<subseteq> set (ids tb (tab d)))" by (simp add: db_ok_def)
    moreover have "db_seq d' = db_seq d" using run by (rule sql_exec_seq)
    ultimately show ?thesis using ok unfolding db_ok_def seq_ok_def by (metis order_refl subsetD)
  qed
qed

lemma sql_insert_keeps:
  assumes f: "\<And>i now t x t'. f i now t = Inr (x, t') \<Longrightarrow> tables_ok t \<Longrightarrow>
             tables_ok t' \<and> ids tb t' = ids tb t @ map (\<lambda>k. i + int k) [0..<n] \<and>
             (\<forall>u. u \<noteq> tb \<longrightarrow> ids u t' = ids u t)"
  shows "keeps_ok (sql_insert tb n f)"
proof (rule keeps_okI)
  fix d r d' assume run: "sql_insert tb n f d = (r, d')" and ok: "db_ok d"
  show "db_ok d' \<and> (\<forall>tb. db_seq d tb \<le> db_seq d' tb)"
  proof (cases r)
    case (Inl e)
    with run have "tab d' = tab d"
      "db_seq d' = db_seq d \<or> db_seq d' = (db_seq d)(tb := db_seq d tb + int n)"
      by (auto dest: sql_insert_err)
    then show ?thesis by (intro conjI db_ok_same [OF ok]) auto
  next
    case (Inr x)
    let ?i = "db_seq d tb"
    from Inr run have run': "f ?i (db_now d) (tab d) = Inr (x, tab d')"
      and seq: "db_seq d' = (db_seq d)(tb := ?i + int n)" by (auto dest: sql_insert_ok)
    from f [OF run'] ok have t': "tables_ok (tab d')"
      and here: "ids tb (tab d') = ids tb (tab d) @ map (\<lambda>k. ?i + int k) [0..<n]"
      and there: "\<And>u. u \<noteq> tb \<Longrightarrow> ids u (tab d') = ids u (tab d)" by (auto simp: db_ok_def)
    have "distinct (ids u (tab d')) \<and> (\<forall>i \<in> set (ids u (tab d')). i < db_seq d' u)" for u
    proof (cases "u = tb")
      case True
      have "distinct (map (\<lambda>k. ?i + int k) [0..<n])" by (simp add: distinct_map inj_on_def)
      with True ok here seq show ?thesis by (fastforce simp: db_ok_def seq_ok_def)
    next
      case False
      with ok there seq show ?thesis by (simp add: db_ok_def seq_ok_def)
    qed
    with t' seq show ?thesis by (simp add: db_ok_def seq_ok_def)
  qed
qed

lemma all_tbl: "(\<forall>tb. P tb) \<longleftrightarrow> P Users \<and> P Codes \<and> P Domains \<and> P Workers \<and> P Versions \<and>
    P Resources \<and> P Reports \<and> P Tasks"
  by (metis tbl.exhaust)

section \<open>How an operation may move the tables\<close>

definition tab_moves :: "(tables \<Rightarrow> tables \<Rightarrow> bool) \<Rightarrow> 'a dbop \<Rightarrow> bool" where
  "tab_moves P op \<longleftrightarrow> (\<forall>d. P (tab d) (tab (snd (op d))))"

named_theorems tab_moves_intros

lemma tab_moves_query [tab_moves_intros]: "reflp P \<Longrightarrow> tab_moves P (sql_query q)"
  by (auto simp: tab_moves_def reflp_def sql_query_def run_stmt_def split: list.split option.split)

lemma tab_moves_exec [tab_moves_intros]:
  "reflp P \<Longrightarrow> (\<And>t x t'. f t = Inr (x, t') \<Longrightarrow> P t t') \<Longrightarrow> tab_moves P (sql_exec f)"
  by (auto simp: tab_moves_def reflp_def sql_exec_def run_stmt_def split: list.split option.split sum.split)

lemma tab_moves_insert [tab_moves_intros]:
  "reflp P \<Longrightarrow> (\<And>i now t x t'. f i now t = Inr (x, t') \<Longrightarrow> P t t') \<Longrightarrow> tab_moves P (sql_insert tb n f)"
  by (auto simp: tab_moves_def reflp_def sql_insert_def run_stmt_def Let_def split: list.split option.split sum.split)

lemma tab_moves_bind [tab_moves_intros]:
  assumes "transp P" and "tab_moves P op" and "\<And>x. tab_moves P (k x)"
  shows "tab_moves P (db_bind op k)"
  using assms(2,3) transpD [OF assms(1)]
  by (auto simp: tab_moves_def db_bind_def split: prod.split sum.split) (metis snd_conv)+

lemma tab_moves_tx [tab_moves_intros]:
  assumes "reflp P" and "tab_moves P op"
  shows "tab_moves P (in_tx op)"
  unfolding tab_moves_def
proof
  fix d
  obtain r d' where run: "in_tx op d = (r, d')" by (cases "in_tx op d")
  show "P (tab d) (tab (snd (in_tx op d)))"
  proof (cases r)
    case (Inl e)
    with run in_tx_err [of op d e d'] assms(1) show ?thesis by (simp add: reflp_def)
  next
    case (Inr x)
    with run obtain d0 d1 where "tab d0 = tab d" "op d0 = (Inr x, d1)" "tab d' = tab d1" by (auto elim: in_tx_ok)
    with run assms(2) [unfolded tab_moves_def, rule_format, of d0] show ?thesis by simp
  qed
qed

end
