(* ===== verification/DbUsers.thy ===== *)
theory DbUsers
  imports Tables
begin

text \<open>
  \<open>dblayer/actions.go\<close>, the user part: users and verification codes.  The interface
  \<open>paged_listing\<close> is what the audit's page loop needs of \<open>ListUserUIDsPaged\<close>.
\<close>

section \<open>Verification codes\<close>

definition GetVerificationCode :: "string \<Rightarrow> string \<Rightarrow> (int \<times> int) dbop" where
  "GetVerificationCode email code = sql_query (\<lambda>t.
     case first_row (\<lambda>c. vc_Email c = email \<and> vc_Code c = code \<and> \<not> vc_Used c) (t_codes t) of
       Inl e \<Rightarrow> Inl e
     | Inr c \<Rightarrow> Inr (vc_ID c, vc_ExpiresAt c))"

definition MarkCodeUsed :: "int \<Rightarrow> unit dbop" where
  "MarkCodeUsed codeID = sql_exec (\<lambda>t.
     Inr ((), t\<lparr>t_codes := update_where (\<lambda>c. vc_ID c = codeID) (vc_Used_update (\<lambda>_. True))
                (t_codes t)\<rparr>))"

definition SaveVerificationCode :: "string \<Rightarrow> string \<Rightarrow> int \<Rightarrow> unit dbop" where
  "SaveVerificationCode email code expiresAt = sql_insert Codes 1 (\<lambda>i now t.
     Inr ((), t\<lparr>t_codes := t_codes t @
       [\<lparr>vc_ID = i, vc_Email = email, vc_Code = code, vc_ExpiresAt = expiresAt, vc_Used = False\<rparr>]\<rparr>))"

section \<open>Users\<close>

definition new_user :: "int \<Rightarrow> string \<Rightarrow> string \<Rightarrow> string \<Rightarrow> string \<Rightarrow> int \<Rightarrow> user" where
  "new_user i uid email passwordHash secretKey now =
     \<lparr>usr_ID = i, usr_UID = uid, usr_Email = email, usr_PasswordHash = passwordHash,
      usr_SecretKey = secretKey, usr_CreatedAt = now\<rparr>"

definition CreateUser :: "string \<Rightarrow> string \<Rightarrow> string \<Rightarrow> string \<Rightarrow> string dbop" where
  "CreateUser uid email passwordHash secretKey = sql_insert Users 1 (\<lambda>i now t.
     if list_ex (\<lambda>u. usr_UID u = uid) (t_users t) then Inl (pq_unique ''users_uid_key'')
     else if list_ex (\<lambda>u. usr_Email u = email) (t_users t) then Inl (pq_unique ''users_email_key'')
     else Inr (uid, t\<lparr>t_users := t_users t @ [new_user i uid email passwordHash secretKey now]\<rparr>))"

text \<open>The struct it returns holds the four selected columns; the others keep Go's zero values.\<close>

definition GetUserByEmail :: "string \<Rightarrow> user dbop" where
  "GetUserByEmail email = sql_query (\<lambda>t.
     case first_row (\<lambda>u. usr_Email u = email) (t_users t) of
       Inl e \<Rightarrow> Inl e
     | Inr u \<Rightarrow> Inr \<lparr>usr_ID = 0, usr_UID = usr_UID u, usr_Email = usr_Email u,
                      usr_PasswordHash = usr_PasswordHash u, usr_SecretKey = usr_SecretKey u,
                      usr_CreatedAt = 0\<rparr>)"

definition UpdateUserPassword :: "string \<Rightarrow> string \<Rightarrow> unit dbop" where
  "UpdateUserPassword email passwordHash = sql_exec (\<lambda>t.
     Inr ((), t\<lparr>t_users := update_where (\<lambda>u. usr_Email u = email)
                (usr_PasswordHash_update (\<lambda>_. passwordHash)) (t_users t)\<rparr>))"

definition GetUserSecretKey :: "string \<Rightarrow> string dbop" where
  "GetUserSecretKey uid = sql_query (\<lambda>t.
     case first_row (\<lambda>u. usr_UID u = uid) (t_users t) of
       Inl e \<Rightarrow> Inl e | Inr u \<Rightarrow> Inr (usr_SecretKey u))"

definition ListUserUIDsPaged :: "nat \<Rightarrow> nat \<Rightarrow> string list dbop" where
  "ListUserUIDsPaged limit offset = sql_query (\<lambda>t.
     Inr (take limit (drop offset (sort (map usr_UID (t_users t))))))"

section \<open>Integrity\<close>

lemma code_ops_keep:
  "keeps_ok (GetVerificationCode email code)"
  "keeps_ok (MarkCodeUsed i)"
  "keeps_ok (SaveVerificationCode email code ex)"
proof -
  show "keeps_ok (GetVerificationCode email code)"
    unfolding GetVerificationCode_def by (rule sql_query_keeps)
  show "keeps_ok (MarkCodeUsed i)"
    unfolding MarkCodeUsed_def
    by (rule sql_exec_keeps) (auto simp: tables_ok_def all_tbl update_where_map set_update_where)
  show "keeps_ok (SaveVerificationCode email code ex)"
    unfolding SaveVerificationCode_def
    by (rule sql_insert_keeps) (auto simp: tables_ok_def all_tbl)
qed

lemma user_ops_keep:
  "keeps_ok (CreateUser uid email ph sk)"
  "keeps_ok (GetUserByEmail email)"
  "keeps_ok (UpdateUserPassword email ph)"
  "keeps_ok (GetUserSecretKey uid)"
  "keeps_ok (ListUserUIDsPaged l n)"
proof -
  show "keeps_ok (CreateUser uid email ph sk)"
    unfolding CreateUser_def
    by (rule sql_insert_keeps)
      (auto simp: tables_ok_def all_tbl list_ex_iff new_user_def split: if_splits)
  show "keeps_ok (UpdateUserPassword email ph)"
    unfolding UpdateUserPassword_def
    by (rule sql_exec_keeps) (auto simp: tables_ok_def all_tbl update_where_map set_update_where)
qed (simp_all add: GetUserByEmail_def GetUserSecretKey_def ListUserUIDsPaged_def sql_query_keeps)

section \<open>What the operations do\<close>

lemma GetVerificationCode_ok:
  assumes "GetVerificationCode email code d = (Inr (i, ex), d')"
  shows "tab d' = tab d \<and>
    (\<exists>c \<in> set (t_codes (tab d)). vc_ID c = i \<and> vc_ExpiresAt c = ex \<and> vc_Email c = email \<and>
       vc_Code c = code \<and> \<not> vc_Used c)"
  using sql_query_ok [OF assms [unfolded GetVerificationCode_def]]
    sql_query_tab [OF assms [unfolded GetVerificationCode_def]]
  by (auto dest!: first_row_ok split: sum.splits)

lemma GetVerificationCode_tab: "GetVerificationCode email code d = (r, d') \<Longrightarrow> tab d' = tab d"
  unfolding GetVerificationCode_def by (simp add: sql_query_tab)

lemma MarkCodeUsed_ok:
  "MarkCodeUsed i d = (Inr (), d') \<Longrightarrow>
     tab d' = (tab d)\<lparr>t_codes := update_where (\<lambda>c. vc_ID c = i) (vc_Used_update (\<lambda>_. True))
                                 (t_codes (tab d))\<rparr>"
  unfolding MarkCodeUsed_def by (drule sql_exec_ok) simp

lemma MarkCodeUsed_err: "MarkCodeUsed i d = (Inl e, d') \<Longrightarrow> tab d' = tab d"
  unfolding MarkCodeUsed_def by (rule sql_exec_err)

lemma MarkCodeUsed_users: "MarkCodeUsed i d = (r, d') \<Longrightarrow> t_users (tab d') = t_users (tab d)"
  by (cases r) (auto dest: MarkCodeUsed_ok MarkCodeUsed_err)

lemma CreateUser_ok:
  assumes "CreateUser uid email ph sk d = (Inr x, d')"
  shows "x = uid \<and> (\<forall>u \<in> set (t_users (tab d)). usr_UID u \<noteq> uid \<and> usr_Email u \<noteq> email) \<and>
    (\<exists>now. tab d' = (tab d)\<lparr>t_users := t_users (tab d) @
                               [new_user (db_seq d Users) uid email ph sk now]\<rparr>)"
  using sql_insert_tab [OF assms [unfolded CreateUser_def]]
  by (auto simp: list_ex_iff split: if_splits intro!: exI [of _ "db_now d"])

lemma CreateUser_err: "CreateUser uid email ph sk d = (Inl e, d') \<Longrightarrow> tab d' = tab d"
  unfolding CreateUser_def by (simp add: sql_insert_err)

lemma UpdateUserPassword_ok:
  "UpdateUserPassword email ph d = (Inr x, d') \<Longrightarrow>
     tab d' = (tab d)\<lparr>t_users := update_where (\<lambda>u. usr_Email u = email)
                                 (usr_PasswordHash_update (\<lambda>_. ph)) (t_users (tab d))\<rparr>"
  unfolding UpdateUserPassword_def by (drule sql_exec_ok) simp

lemma UpdateUserPassword_err: "UpdateUserPassword email ph d = (Inl e, d') \<Longrightarrow> tab d' = tab d"
  unfolding UpdateUserPassword_def by (rule sql_exec_err)

lemma GetUserByEmail_ok:
  assumes "GetUserByEmail email d = (Inr u, d')"
  shows "tab d' = tab d \<and> (\<exists>r \<in> set (t_users (tab d)). usr_Email r = email \<and>
    usr_UID u = usr_UID r \<and> usr_Email u = email \<and> usr_PasswordHash u = usr_PasswordHash r)"
  using sql_query_ok [OF assms [unfolded GetUserByEmail_def]]
    sql_query_tab [OF assms [unfolded GetUserByEmail_def]]
  by (auto dest!: first_row_ok split: sum.splits)

lemma GetUserByEmail_tab: "GetUserByEmail email d = (r, d') \<Longrightarrow> tab d' = tab d"
  unfolding GetUserByEmail_def by (simp add: sql_query_tab)

lemma GetUserSecretKey_ok:
  assumes "GetUserSecretKey uid d = (Inr k, d')"
  shows "tab d' = tab d \<and> (\<exists>u \<in> set (t_users (tab d)). usr_UID u = uid \<and> usr_SecretKey u = k)"
  using sql_query_ok [OF assms [unfolded GetUserSecretKey_def]]
    sql_query_tab [OF assms [unfolded GetUserSecretKey_def]]
  by (auto dest!: first_row_ok split: sum.splits)

lemma GetUserSecretKey_tab: "GetUserSecretKey uid d = (r, d') \<Longrightarrow> tab d' = tab d"
  unfolding GetUserSecretKey_def by (simp add: sql_query_tab)

section \<open>Pages\<close>

text \<open>
  A listing served in pages over a state that reading does not change: a page is a segment of
  one fixed list.  \<open>pages\<close> is the loop that reads page after page until a short one, with the
  pages read so far as accumulator.
\<close>

locale paged_listing =
  fixes page :: "nat \<Rightarrow> nat \<Rightarrow> 's \<Rightarrow> ('e + 'a list) \<times> 's"
    and content :: "'s \<Rightarrow> 'a list"
  assumes page_ok: "page limit off s = (Inr xs, s') \<Longrightarrow>
      xs = take limit (drop off (content s)) \<and> content s' = content s"
begin

lemma full_page_progress:
  "page limit off s = (Inr xs, s') \<Longrightarrow> limit \<le> length xs \<Longrightarrow> 0 < limit \<Longrightarrow>
     length (content s') - (off + limit) < length (content s) - off"
  by (frule page_ok) (auto simp: min_def split: if_splits)

lemma short_page_last:
  "page limit off s = (Inr xs, s') \<Longrightarrow> length xs < limit \<Longrightarrow>
     set (take off (content s)) \<union> set xs = set (content s)"
proof -
  assume p: "page limit off s = (Inr xs, s')" and short: "length xs < limit"
  from page_ok [OF p] short have "xs = drop off (content s)" by (auto simp: min_def split: if_splits)
  then show ?thesis by (metis append_take_drop_id set_append)
qed

lemma full_page_prefix:
  "page limit off s = (Inr xs, s') \<Longrightarrow>
     set (take off (content s)) \<union> set xs = set (take (off + limit) (content s'))"
  by (frule page_ok) (simp add: take_add)

end

interpretation uids: paged_listing ListUserUIDsPaged "\<lambda>d. sort (map usr_UID (t_users (tab d)))"
  by unfold_locales
    (auto simp: ListUserUIDsPaged_def dest: sql_query_ok sql_query_tab)

end
