(* ===== verification/DbWorkers.thy ===== *)
theory DbWorkers
  imports Tables
begin

text \<open>
  \<open>dblayer/worker.actions.go\<close>: workers, their deploy versions and the two transactions.  The
  interface \<open>owned_column\<close> is what the handlers need of a JSON column that is read and written by
  (worker id, owner): \<open>env_json\<close> and \<open>secrets_json\<close> provide it.
\<close>

definition owned :: "string \<Rightarrow> string \<Rightarrow> worker \<Rightarrow> bool" where
  "owned wid userUID w \<longleftrightarrow> w_WID w = wid \<and> w_UserUID w = userUID"

section \<open>Workers\<close>

definition CreateWorker :: "string \<Rightarrow> string \<Rightarrow> string \<Rightarrow> unit dbop" where
  "CreateWorker wid userUID workerName = sql_insert Workers 1 (\<lambda>i now t.
     if list_ex (\<lambda>w. w_WID w = wid) (t_workers t) then Inl (pq_unique ''workers_wid_key'')
     else Inr ((), t\<lparr>t_workers := t_workers t @
       [\<lparr>w_ID = i, w_WID = wid, w_UserUID = userUID, w_WorkerName = workerName,
         w_Status = ''unloaded'', w_ActiveVersionID = None, w_EnvJSON = Some (JObj []),
         w_SecretsJSON = Some (JArr []), w_CreatedAt = now\<rparr>]\<rparr>))"

definition ListWorkersByUser :: "string \<Rightarrow> worker list dbop" where
  "ListWorkersByUser userUID = sql_query (\<lambda>t.
     Inr (sort_key (\<lambda>w. - w_CreatedAt w) (filter (\<lambda>w. w_UserUID w = userUID) (t_workers t))))"

definition GetWorkerByOwner :: "string \<Rightarrow> string \<Rightarrow> worker dbop" where
  "GetWorkerByOwner wid userUID = sql_query (\<lambda>t. first_row (owned wid userUID) (t_workers t))"

text \<open>\<open>UPDATE ... SET column, status = 'loading' WHERE wid AND user_uid\<close>, then the row count.\<close>

definition found_rows :: "nat \<Rightarrow> unit dbop" where
  "found_rows n d = (if n = 0 then (Inl ErrNotFound, d) else (Inr (), d))"

definition set_by_owner :: "(worker \<Rightarrow> worker) \<Rightarrow> string \<Rightarrow> string \<Rightarrow> unit dbop" where
  "set_by_owner f wid userUID =
     db_bind (sql_exec (\<lambda>t.
         Inr (length (filter (owned wid userUID) (t_workers t)),
              t\<lparr>t_workers := update_where (owned wid userUID) f (t_workers t)\<rparr>)))
       found_rows"

definition GetWorkerEnvByOwner :: "string \<Rightarrow> string \<Rightarrow> json_text dbop" where
  "GetWorkerEnvByOwner wid userUID = sql_query (\<lambda>t.
     case first_row (owned wid userUID) (t_workers t) of
       Inl e \<Rightarrow> Inl e | Inr w \<Rightarrow> Inr (w_EnvJSON w))"

definition SetWorkerEnvByOwner :: "string \<Rightarrow> string \<Rightarrow> json_text \<Rightarrow> unit dbop" where
  "SetWorkerEnvByOwner wid userUID envJSON =
     set_by_owner (\<lambda>w. w\<lparr>w_EnvJSON := envJSON, w_Status := ''loading''\<rparr>) wid userUID"

definition GetWorkerSecretsByOwner :: "string \<Rightarrow> string \<Rightarrow> json_text dbop" where
  "GetWorkerSecretsByOwner wid userUID = sql_query (\<lambda>t.
     case first_row (owned wid userUID) (t_workers t) of
       Inl e \<Rightarrow> Inl e | Inr w \<Rightarrow> Inr (w_SecretsJSON w))"

definition SetWorkerSecretsByOwner :: "string \<Rightarrow> string \<Rightarrow> json_text \<Rightarrow> unit dbop" where
  "SetWorkerSecretsByOwner wid userUID secretsJSON =
     set_by_owner (\<lambda>w. w\<lparr>w_SecretsJSON := secretsJSON, w_Status := ''loading''\<rparr>) wid userUID"

text \<open>Deleting a worker deletes its versions (\<open>ON DELETE CASCADE\<close>).\<close>

definition delete_cascade :: "string \<Rightarrow> string \<Rightarrow> tables \<Rightarrow> tables" where
  "delete_cascade wid userUID t =
     t\<lparr>t_workers := delete_where (owned wid userUID) (t_workers t),
       t_versions := delete_where
         (\<lambda>v. v_WorkerID v \<in> set (map w_ID (filter (owned wid userUID) (t_workers t))))
         (t_versions t)\<rparr>"

definition DeleteWorkerByOwner :: "string \<Rightarrow> string \<Rightarrow> unit dbop" where
  "DeleteWorkerByOwner wid userUID =
     db_bind (sql_exec (\<lambda>t. Inr (length (filter (owned wid userUID) (t_workers t)),
                                delete_cascade wid userUID t)))
       found_rows"

definition UpdateWorkerStatus :: "string \<Rightarrow> string \<Rightarrow> unit dbop" where
  "UpdateWorkerStatus wid status = sql_exec (\<lambda>t.
     Inr ((), t\<lparr>t_workers := update_where (\<lambda>w. w_WID w = wid) (w_Status_update (\<lambda>_. status))
                 (t_workers t)\<rparr>))"

section \<open>Deploy versions\<close>

definition UpdateDeployVersionStatus :: "int \<Rightarrow> string \<Rightarrow> string \<Rightarrow> unit dbop" where
  "UpdateDeployVersionStatus versionID status msg = sql_exec (\<lambda>t.
     Inr ((), t\<lparr>t_versions := update_where (\<lambda>v. v_ID v = versionID)
                 (\<lambda>v. v\<lparr>v_Status := status, v_Msg := msg\<rparr>) (t_versions t)\<rparr>))"

definition ListDeployVersions :: "int \<Rightarrow> nat \<Rightarrow> nat \<Rightarrow> worker_deploy_version list dbop" where
  "ListDeployVersions workerID limit offset = sql_query (\<lambda>t.
     Inr (take limit (drop offset (sort_key (\<lambda>v. - v_CreatedAt v)
            (filter (\<lambda>v. v_WorkerID v = workerID) (t_versions t))))))"

definition update_loading :: "string \<Rightarrow> string \<Rightarrow> int dbop" where
  "update_loading wid userUID = sql_exec (\<lambda>t.
     case first_row (owned wid userUID) (t_workers t) of
       Inl e \<Rightarrow> Inl e
     | Inr w \<Rightarrow> Inr (w_ID w, t\<lparr>t_workers := update_where (owned wid userUID)
                                  (w_Status_update (\<lambda>_. ''loading'')) (t_workers t)\<rparr>))"

definition loading_version :: "int \<Rightarrow> int \<Rightarrow> string \<Rightarrow> int \<Rightarrow> int \<Rightarrow> worker_deploy_version" where
  "loading_version i workerID img port now =
     \<lparr>v_ID = i, v_WorkerID = workerID, v_Image = img, v_Port = port,
      v_Status = ''loading'', v_Msg = '''', v_CreatedAt = now\<rparr>"

definition insert_version :: "int \<Rightarrow> string \<Rightarrow> int \<Rightarrow> int dbop" where
  "insert_version workerID img port =
     (if \<not> int4 port
      then sql_exec (\<lambda>_. Inl (DriverErr ''pq: value out of range for type integer''))
      else sql_insert Versions 1 (\<lambda>i now t.
        if workerID \<notin> set (map w_ID (t_workers t))
        then Inl (DriverErr ''pq: insert violates foreign key constraint'')
        else Inr (i, t\<lparr>t_versions := t_versions t @ [loading_version i workerID img port now]\<rparr>)))"

definition CreateDeployVersionForOwner :: "string \<Rightarrow> string \<Rightarrow> string \<Rightarrow> int \<Rightarrow> int dbop" where
  "CreateDeployVersionForOwner wid userUID img port =
     in_tx (db_bind (update_loading wid userUID) (\<lambda>workerID. insert_version workerID img port))"

text \<open>The three-table \<open>JOIN\<close>.\<close>

definition GetDeployVersionWithWorker :: "int \<Rightarrow> (worker_deploy_version \<times> worker \<times> string) dbop" where
  "GetDeployVersionWithWorker versionID = sql_query (\<lambda>t.
     case [(v, w, usr_SecretKey u). v \<leftarrow> t_versions t, w \<leftarrow> t_workers t, u \<leftarrow> t_users t,
             v_ID v = versionID \<and> w_ID w = v_WorkerID v \<and> usr_UID u = w_UserUID w] of
       [] \<Rightarrow> Inl NoRows | r # _ \<Rightarrow> Inr r)"

definition DeployVersionSuccess :: "int \<Rightarrow> int \<Rightarrow> unit dbop" where
  "DeployVersionSuccess versionID workerID =
     in_tx (db_bind
       (sql_exec (\<lambda>t. Inr ((), t\<lparr>t_versions := update_where (\<lambda>v. v_ID v = versionID)
            (\<lambda>v. v\<lparr>v_Status := ''success'', v_Msg := ''''\<rparr>) (t_versions t)\<rparr>)))
       (\<lambda>_. sql_exec (\<lambda>t. Inr ((), t\<lparr>t_workers := update_where (\<lambda>w. w_ID w = workerID)
            (\<lambda>w. w\<lparr>w_ActiveVersionID := Some versionID, w_Status := ''active''\<rparr>)
            (t_workers t)\<rparr>))))"

section \<open>Facts about one row set\<close>

lemma find_update_where:
  assumes "\<And>r. q (f r) = q r"
  shows "find q (update_where p f rs) =
    map_option (\<lambda>r. if p r then f r else r) (find q rs)"
  using assms by (induction rs) (auto simp: update_where_def)

lemma update_where_none: "\<forall>r \<in> set rs. \<not> p r \<Longrightarrow> update_where p f rs = rs"
  by (auto simp: update_where_def map_idI)

lemma update_where_Cons [simp]:
  "update_where p f (r # rs) = (if p r then f r else r) # update_where p f rs"
  by (simp add: update_where_def)

lemma found_rows_res: "found_rows n d = (r, d') \<Longrightarrow> d' = d \<and> (r = Inr () \<longleftrightarrow> n \<noteq> 0)"
  by (auto simp: found_rows_def split: if_splits)

lemma found_rows_keeps: "keeps_ok (found_rows n)"
  by (rule keeps_okI) (auto dest: found_rows_res)

lemma set_by_owner_ok:
  assumes "set_by_owner f wid uid d = (Inr x, d')"
  shows "tab d' = (tab d)\<lparr>t_workers := update_where (owned wid uid) f (t_workers (tab d))\<rparr> \<and>
    (\<exists>w \<in> set (t_workers (tab d)). owned wid uid w)"
  using assms unfolding set_by_owner_def
  by (elim db_bind_ok)
    (auto dest!: sql_exec_Inr simp: found_rows_def filter_empty_conv split: if_splits)

lemma set_by_owner_err:
  assumes "set_by_owner f wid uid d = (Inl e, d')"
  shows "tab d' = tab d"
proof -
  have "update_where (owned wid uid) f (t_workers (tab d)) = t_workers (tab d)"
    if "filter (owned wid uid) (t_workers (tab d)) = []"
    using that by (simp add: update_where_none filter_empty_conv)
  then show ?thesis using assms unfolding set_by_owner_def db_bind_def
    by (auto split: prod.splits sum.splits if_splits simp: found_rows_def
        dest!: sql_exec_Inr sql_exec_err)
qed

lemma sql_exec_keeps_workers:
  assumes "\<And>w. w_ID (f w) = w_ID w" and "\<And>w. w_WID (f w) = w_WID w"
  shows "keeps_ok (sql_exec (\<lambda>t. Inr (g t, t\<lparr>t_workers := update_where p f (t_workers t)\<rparr>)))"
  by (rule sql_exec_keeps)
    (auto simp: tables_ok_def all_tbl update_where_map assms update_where_img)

lemma sql_exec_keeps_versions:
  assumes "\<And>v. v_ID (f v) = v_ID v" and "\<And>v. v_WorkerID (f v) = v_WorkerID v"
  shows "keeps_ok (sql_exec (\<lambda>t. Inr (g t, t\<lparr>t_versions := update_where p f (t_versions t)\<rparr>)))"
  by (rule sql_exec_keeps)
    (auto simp: tables_ok_def all_tbl update_where_map assms set_update_where)

section \<open>Integrity\<close>

lemma set_by_owner_keeps:
  assumes "\<And>w. w_ID (f w) = w_ID w" and "\<And>w. w_WID (f w) = w_WID w"
  shows "keeps_ok (set_by_owner f wid uid)"
  unfolding set_by_owner_def
  by (intro db_bind_keeps sql_exec_keeps_workers assms found_rows_keeps)

lemma worker_ops_keep:
  "keeps_ok (CreateWorker wid uid nm)"
  "keeps_ok (ListWorkersByUser uid)"
  "keeps_ok (GetWorkerByOwner wid uid)"
  "keeps_ok (GetWorkerEnvByOwner wid uid)"
  "keeps_ok (SetWorkerEnvByOwner wid uid j)"
  "keeps_ok (GetWorkerSecretsByOwner wid uid)"
  "keeps_ok (SetWorkerSecretsByOwner wid uid j)"
  "keeps_ok (UpdateWorkerStatus wid st)"
proof -
  show "keeps_ok (CreateWorker wid uid nm)"
    unfolding CreateWorker_def
    by (rule sql_insert_keeps) (auto simp: tables_ok_def all_tbl list_ex_iff split: if_splits)
  show "keeps_ok (SetWorkerEnvByOwner wid uid j)" "keeps_ok (SetWorkerSecretsByOwner wid uid j)"
    unfolding SetWorkerEnvByOwner_def SetWorkerSecretsByOwner_def
    by (simp_all add: set_by_owner_keeps)
  show "keeps_ok (UpdateWorkerStatus wid st)"
    unfolding UpdateWorkerStatus_def by (rule sql_exec_keeps_workers) simp_all
qed (simp_all add: ListWorkersByUser_def GetWorkerByOwner_def GetWorkerEnvByOwner_def
      GetWorkerSecretsByOwner_def sql_query_keeps)

lemma DeleteWorkerByOwner_keeps: "keeps_ok (DeleteWorkerByOwner wid uid)"
  unfolding DeleteWorkerByOwner_def
proof (intro db_bind_keeps found_rows_keeps sql_exec_keeps)
  fix t t' :: tables and x
  assume "Inr (length (filter (owned wid uid) (t_workers t)), delete_cascade wid uid t) =
    (Inr (x, t') :: err + nat \<times> tables)" and ok: "tables_ok t"
  then have t': "t' = delete_cascade wid uid t" by simp
  have "v_WorkerID v \<in> w_ID ` set (t_workers t')" if "v \<in> set (t_versions t')" for v
    using that ok unfolding t' delete_cascade_def tables_ok_def by (auto simp: image_iff) blast
  with ok show "tables_ok t' \<and> (\<forall>tb. distinct (ids tb t) \<longrightarrow> distinct (ids tb t')) \<and>
      (\<forall>tb. set (ids tb t') \<subseteq> set (ids tb t))"
    unfolding t' delete_cascade_def by (auto simp: tables_ok_def all_tbl distinct_delete_where)
qed

lemma version_ops_keep:
  "keeps_ok (UpdateDeployVersionStatus i st m)"
  "keeps_ok (ListDeployVersions i l n)"
  "keeps_ok (GetDeployVersionWithWorker i)"
  "keeps_ok (update_loading wid uid)"
  "keeps_ok (insert_version i img port)"
proof -
  show "keeps_ok (UpdateDeployVersionStatus i st m)"
    unfolding UpdateDeployVersionStatus_def by (rule sql_exec_keeps_versions) simp_all
  show "keeps_ok (update_loading wid uid)"
    unfolding update_loading_def
    by (rule sql_exec_keeps)
      (auto simp: tables_ok_def all_tbl update_where_map update_where_img split: sum.splits)
  show "keeps_ok (insert_version i img port)"
  proof (cases "int4 port")
    case True
    moreover have "keeps_ok (sql_insert Versions 1 (\<lambda>i' now t.
        if i \<notin> set (map w_ID (t_workers t))
        then Inl (DriverErr ''pq: insert violates foreign key constraint'')
        else Inr (i', t\<lparr>t_versions := t_versions t @ [loading_version i' i img port now]\<rparr>)))"
      by (rule sql_insert_keeps)
        (auto simp: tables_ok_def all_tbl loading_version_def split: if_splits)
    ultimately show ?thesis by (simp add: insert_version_def)
  next
    case False
    then show ?thesis by (auto simp: insert_version_def intro!: sql_exec_keeps)
  qed
qed (simp_all add: ListDeployVersions_def GetDeployVersionWithWorker_def sql_query_keeps)

section \<open>The transactions\<close>

lemma update_loading_ok:
  assumes "update_loading wid uid d = (Inr i, d')"
  shows "tab d' = (tab d)\<lparr>t_workers := update_where (owned wid uid)
           (w_Status_update (\<lambda>_. ''loading'')) (t_workers (tab d))\<rparr> \<and>
    (\<exists>w \<in> set (t_workers (tab d)). owned wid uid w \<and> w_ID w = i) \<and> db_seq d' = db_seq d"
  using sql_exec_ok [OF assms [unfolded update_loading_def]]
    sql_exec_seq [OF assms [unfolded update_loading_def]]
  by (auto split: sum.splits dest!: first_row_ok)

lemma insert_version_ok:
  assumes "insert_version i img port d = (Inr v, d')"
  shows "v = db_seq d Versions \<and>
    (\<exists>now. tab d' = (tab d)\<lparr>t_versions := t_versions (tab d) @
                               [loading_version v i img port now]\<rparr>)"
proof (cases "int4 port")
  case False
  with assms show ?thesis by (auto simp: insert_version_def dest: sql_exec_ok)
next
  case True
  then show ?thesis using assms unfolding insert_version_def
    by (auto dest!: sql_insert_tab split: if_splits intro!: exI [of _ "db_now d"])
qed

lemma create_version_err:
  "CreateDeployVersionForOwner wid uid img port d = (Inl e, d') \<Longrightarrow> tab d' = tab d"
  unfolding CreateDeployVersionForOwner_def by (rule in_tx_err)

lemma create_version_ok:
  assumes "CreateDeployVersionForOwner wid uid img port d = (Inr v, d')"
  shows "v = db_seq d Versions \<and>
    (\<exists>w \<in> set (t_workers (tab d)). \<exists>now. owned wid uid w \<and>
       tab d' = (tab d)\<lparr>t_workers := update_where (owned wid uid)
                           (w_Status_update (\<lambda>_. ''loading'')) (t_workers (tab d)),
                         t_versions := t_versions (tab d) @
                           [loading_version v (w_ID w) img port now]\<rparr>)"
proof -
  from assms obtain d0 d1 i d2 where "tab d0 = tab d" "db_seq d0 = db_seq d"
    "update_loading wid uid d0 = (Inr i, d1)" "insert_version i img port d1 = (Inr v, d2)"
    "tab d' = tab d2"
    unfolding CreateDeployVersionForOwner_def by (elim in_tx_ok db_bind_ok)
  then show ?thesis by (fastforce dest!: update_loading_ok insert_version_ok)
qed

lemma success_err: "DeployVersionSuccess v i d = (Inl e, d') \<Longrightarrow> tab d' = tab d"
  unfolding DeployVersionSuccess_def by (rule in_tx_err)

lemma success_ok:
  assumes "DeployVersionSuccess v i d = (Inr u, d')"
  shows "tab d' = (tab d)\<lparr>
    t_versions := update_where (\<lambda>x. v_ID x = v) (\<lambda>x. x\<lparr>v_Status := ''success'', v_Msg := ''''\<rparr>)
                    (t_versions (tab d)),
    t_workers := update_where (\<lambda>w. w_ID w = i)
                   (\<lambda>w. w\<lparr>w_ActiveVersionID := Some v, w_Status := ''active''\<rparr>)
                   (t_workers (tab d))\<rparr>"
proof -
  from assms obtain d0 d1 d2 y where "tab d0 = tab d"
    "sql_exec (\<lambda>t. Inr ((), t\<lparr>t_versions := update_where (\<lambda>x. v_ID x = v)
            (\<lambda>x. x\<lparr>v_Status := ''success'', v_Msg := ''''\<rparr>) (t_versions t)\<rparr>)) d0 = (Inr y, d1)"
    "sql_exec (\<lambda>t. Inr ((), t\<lparr>t_workers := update_where (\<lambda>w. w_ID w = i)
            (\<lambda>w. w\<lparr>w_ActiveVersionID := Some v, w_Status := ''active''\<rparr>)
            (t_workers t)\<rparr>)) d1 = (Inr u, d2)"
    "tab d' = tab d2"
    unfolding DeployVersionSuccess_def by (elim in_tx_ok db_bind_ok)
  then show ?thesis by (auto dest!: sql_exec_Inr)
qed

lemma tx_ops_keep:
  "keeps_ok (CreateDeployVersionForOwner wid uid img port)"
  "keeps_ok (DeployVersionSuccess v i)"
proof -
  show "keeps_ok (CreateDeployVersionForOwner wid uid img port)"
    unfolding CreateDeployVersionForOwner_def
    by (intro in_tx_keeps db_bind_keeps version_ops_keep)
  show "keeps_ok (DeployVersionSuccess v i)"
    unfolding DeployVersionSuccess_def
    by (intro in_tx_keeps db_bind_keeps sql_exec_keeps_versions sql_exec_keeps_workers) simp_all
qed

section \<open>Columns read and written by owner\<close>

locale owned_column =
  fixes getc :: "string \<Rightarrow> string \<Rightarrow> json_text dbop"
    and putc :: "string \<Rightarrow> string \<Rightarrow> json_text \<Rightarrow> unit dbop"
    and cell :: "tables \<Rightarrow> string \<Rightarrow> string \<Rightarrow> json_text option"
  assumes get_ok: "getc wid uid d = (Inr v, d') \<Longrightarrow> cell (tab d) wid uid = Some v"
    and get_tab: "getc wid uid d = (r, d') \<Longrightarrow> tab d' = tab d"
    and put_ok: "putc wid uid v d = (Inr x, d') \<Longrightarrow> cell (tab d) wid uid \<noteq> None \<and>
      cell (tab d') wid' uid' = (if wid' = wid \<and> uid' = uid then Some v else cell (tab d) wid' uid')"
    and put_err: "putc wid uid v d = (Inl e, d') \<Longrightarrow> tab d' = tab d"
begin

lemma read_your_write:
  "putc wid uid v d = (Inr x, d') \<Longrightarrow> getc wid uid d' = (Inr y, d'') \<Longrightarrow> y = v"
  using get_ok put_ok by fastforce

lemma put_frame:
  "putc wid uid v d = (r, d') \<Longrightarrow> (wid', uid') \<noteq> (wid, uid) \<Longrightarrow>
     cell (tab d') wid' uid' = cell (tab d) wid' uid'"
  by (cases r) (auto simp: put_ok put_err)

lemma modify:
  "getc wid uid d = (Inr v, d1) \<Longrightarrow> putc wid uid (f v) d1 = (Inr x, d2) \<Longrightarrow>
     cell (tab d2) wid uid = map_option f (cell (tab d) wid uid)"
  by (frule get_ok, drule put_ok [where wid' = wid and uid' = uid]) simp

text \<open>
  Two clients that both read before either writes: the second write replaces the first one's,
  whatever the first one had changed.
\<close>

lemma lost_update:
  assumes "getc wid uid d = (Inr v, d1)" and "getc wid uid d1 = (Inr w, d2)"
    and "putc wid uid (f v) d2 = (Inr x, d3)" and "putc wid uid (g w) d3 = (Inr y, d4)"
  shows "cell (tab d4) wid uid = Some (g v)"
proof -
  have "w = v" using assms(1,2) get_ok get_tab by (metis option.inject)
  then show ?thesis using put_ok [OF assms(4), of wid uid] by simp
qed

end

definition env_of :: "tables \<Rightarrow> string \<Rightarrow> string \<Rightarrow> json_text option" where
  "env_of t wid uid = map_option w_EnvJSON (find (owned wid uid) (t_workers t))"

definition secrets_of :: "tables \<Rightarrow> string \<Rightarrow> string \<Rightarrow> json_text option" where
  "secrets_of t wid uid = map_option w_SecretsJSON (find (owned wid uid) (t_workers t))"

lemma find_ex: "\<exists>w \<in> set ws. p w \<Longrightarrow> find p ws \<noteq> None"
  by (auto simp: find_None_iff)

lemma first_row_find: "first_row p rs = Inr r \<longleftrightarrow> find p rs = Some r"
  by (auto simp: first_row_def split: option.splits)

lemma find_owned: "find (owned wid uid) ws = Some w \<Longrightarrow> owned wid uid w"
  by (auto simp: find_Some_iff)

lemma owned_two: "owned wid uid w \<Longrightarrow> owned wid' uid' w \<longleftrightarrow> wid' = wid \<and> uid' = uid"
  by (auto simp: owned_def)

lemma find_owned_update:
  assumes "\<And>w. w_WID (f w) = w_WID w" "\<And>w. w_UserUID (f w) = w_UserUID w"
  shows "find (owned wid' uid') (update_where (owned wid uid) f ws) =
    map_option (if wid' = wid \<and> uid' = uid then f else (\<lambda>w. w)) (find (owned wid' uid') ws)"
proof -
  have "find (owned wid' uid') (update_where (owned wid uid) f ws) =
      map_option (\<lambda>r. if owned wid uid r then f r else r) (find (owned wid' uid') ws)"
    by (rule find_update_where) (simp add: owned_def assms)
  also have "\<dots> = map_option (if wid' = wid \<and> uid' = uid then f else (\<lambda>w. w)) (find (owned wid' uid') ws)"
    by (rule map_option_cong [OF refl]) (auto dest!: find_owned simp: owned_two)
  finally show ?thesis .
qed

interpretation env: owned_column GetWorkerEnvByOwner SetWorkerEnvByOwner env_of
proof
  fix wid uid d v d' assume "GetWorkerEnvByOwner wid uid d = (Inr v, d')"
  then show "env_of (tab d) wid uid = Some v"
    by (auto simp: GetWorkerEnvByOwner_def env_of_def first_row_find
        dest!: sql_query_ok split: sum.splits)
next
  fix wid uid v d x d' wid' uid' assume "SetWorkerEnvByOwner wid uid v d = (Inr x, d')"
  then show "env_of (tab d) wid uid \<noteq> None \<and>
      env_of (tab d') wid' uid' = (if wid' = wid \<and> uid' = uid then Some v else env_of (tab d) wid' uid')"
    unfolding SetWorkerEnvByOwner_def
    by (auto simp: env_of_def find_owned_update option.map_comp comp_def option.map_ident dest!: set_by_owner_ok find_ex)
qed (auto simp: GetWorkerEnvByOwner_def SetWorkerEnvByOwner_def
      dest: sql_query_tab set_by_owner_err)

interpretation secrets: owned_column GetWorkerSecretsByOwner SetWorkerSecretsByOwner secrets_of
proof
  fix wid uid d v d' assume "GetWorkerSecretsByOwner wid uid d = (Inr v, d')"
  then show "secrets_of (tab d) wid uid = Some v"
    by (auto simp: GetWorkerSecretsByOwner_def secrets_of_def first_row_find
        dest!: sql_query_ok split: sum.splits)
next
  fix wid uid v d x d' wid' uid' assume "SetWorkerSecretsByOwner wid uid v d = (Inr x, d')"
  then show "secrets_of (tab d) wid uid \<noteq> None \<and>
      secrets_of (tab d') wid' uid' =
        (if wid' = wid \<and> uid' = uid then Some v else secrets_of (tab d) wid' uid')"
    unfolding SetWorkerSecretsByOwner_def
    by (auto simp: secrets_of_def find_owned_update option.map_comp comp_def option.map_ident dest!: set_by_owner_ok find_ex)
qed (auto simp: GetWorkerSecretsByOwner_def SetWorkerSecretsByOwner_def
      dest: sql_query_tab set_by_owner_err)

end
