(* ===== verification/DbResources.thy ===== *)
theory DbResources
  imports Tables
begin

text \<open>
  \<open>dblayer/actions.go\<close> from the custom domains on, and \<open>dblayer/task.actions.go\<close>: custom domains,
  combinator resources with their usage reports, console tasks.  The batch insert of reports is
  modelled with its numbered placeholders and its flat parameter list.
\<close>

section \<open>Custom domains\<close>

definition new_domain :: "int \<Rightarrow> string \<Rightarrow> string \<Rightarrow> string \<Rightarrow> string \<Rightarrow> string \<Rightarrow> string \<Rightarrow> string \<Rightarrow> int \<Rightarrow>
    custom_domain" where
  "new_domain i cdid userUID domain target txtName txtValue status now =
     \<lparr>cd_ID = i, cd_CDID = cdid, cd_UserUID = userUID, cd_Domain = domain, cd_Target = target,
      cd_TXTName = txtName, cd_TXTValue = txtValue, cd_Status = status, cd_CreatedAt = now\<rparr>"

definition CreateCustomDomain :: "string \<Rightarrow> string \<Rightarrow> string \<Rightarrow> string \<Rightarrow> string \<Rightarrow> string \<Rightarrow> string \<Rightarrow>
    unit dbop" where
  "CreateCustomDomain cdid userUID domain target txtName txtValue status =
     sql_insert Domains 1 (\<lambda>i now t.
       if list_ex (\<lambda>c. cd_CDID c = cdid) (t_domains t) then Inl (pq_unique ''custom_domains_cdid_key'')
       else if list_ex (\<lambda>c. cd_Domain c = domain) (t_domains t)
       then Inl (pq_unique ''custom_domains_domain_key'')
       else Inr ((), t\<lparr>t_domains := t_domains t @
              [new_domain i cdid userUID domain target txtName txtValue status now]\<rparr>))"

definition GetCustomDomain :: "string \<Rightarrow> custom_domain dbop" where
  "GetCustomDomain cdid = sql_query (\<lambda>t. first_row (\<lambda>c. cd_CDID c = cdid) (t_domains t))"

definition ListCustomDomains :: "string \<Rightarrow> custom_domain list dbop" where
  "ListCustomDomains userUID = sql_query (\<lambda>t.
     Inr (filter (\<lambda>c. cd_UserUID c = userUID) (t_domains t)))"

definition UpdateCustomDomainStatus :: "string \<Rightarrow> string \<Rightarrow> unit dbop" where
  "UpdateCustomDomainStatus cdid status = sql_exec (\<lambda>t.
     Inr ((), t\<lparr>t_domains := update_where (\<lambda>c. cd_CDID c = cdid)
                 (cd_Status_update (\<lambda>_. status)) (t_domains t)\<rparr>))"

definition DeleteCustomDomain :: "string \<Rightarrow> unit dbop" where
  "DeleteCustomDomain cdid = sql_exec (\<lambda>t.
     Inr ((), t\<lparr>t_domains := delete_where (\<lambda>c. cd_CDID c = cdid) (t_domains t)\<rparr>))"

definition ListAllSuccessDomains :: "custom_domain list dbop" where
  "ListAllSuccessDomains = sql_query (\<lambda>t.
     Inr (filter (\<lambda>c. cd_Status c = ''success'') (t_domains t)))"

section \<open>Combinator resources\<close>

definition is_resource :: "string \<Rightarrow> string \<Rightarrow> string \<Rightarrow> combinator_resource \<Rightarrow> bool" where
  "is_resource userUID resourceType resourceID r \<longleftrightarrow>
     cr_UserUID r = userUID \<and> cr_ResourceType r = resourceType \<and> cr_ResourceID r = resourceID"

definition new_resource :: "int \<Rightarrow> string \<Rightarrow> string \<Rightarrow> string \<Rightarrow> int \<Rightarrow> combinator_resource" where
  "new_resource i userUID resourceType resourceID now =
     \<lparr>cr_ID = i, cr_UserUID = userUID, cr_ResourceType = resourceType, cr_ResourceID = resourceID,
      cr_Status = ''loading'', cr_Msg = '''', cr_CreatedAt = now\<rparr>"

definition CreateCombinatorResource :: "string \<Rightarrow> string \<Rightarrow> string \<Rightarrow> unit dbop" where
  "CreateCombinatorResource userUID resourceType resourceID = sql_insert Resources 1 (\<lambda>i now t.
     Inr ((), t\<lparr>t_resources := t_resources t @
                [new_resource i userUID resourceType resourceID now]\<rparr>))"

definition GetCombinatorResource :: "string \<Rightarrow> string \<Rightarrow> string \<Rightarrow> combinator_resource dbop" where
  "GetCombinatorResource userUID resourceType resourceID = sql_query (\<lambda>t.
     first_row (is_resource userUID resourceType resourceID) (t_resources t))"

definition ListCombinatorResources :: "string \<Rightarrow> string \<Rightarrow> combinator_resource list dbop" where
  "ListCombinatorResources userUID resourceType = sql_query (\<lambda>t.
     Inr (filter (\<lambda>r. cr_UserUID r = userUID \<and> cr_ResourceType r = resourceType) (t_resources t)))"

definition ListActiveCombinatorResources :: "string \<Rightarrow> combinator_resource list dbop" where
  "ListActiveCombinatorResources userUID = sql_query (\<lambda>t.
     Inr (filter (\<lambda>r. cr_UserUID r = userUID \<and> cr_Status r = ''active'') (t_resources t)))"

definition UpdateCombinatorResourceStatus :: "string \<Rightarrow> string \<Rightarrow> string \<Rightarrow> string \<Rightarrow> string \<Rightarrow>
    unit dbop" where
  "UpdateCombinatorResourceStatus userUID resourceType resourceID status msg = sql_exec (\<lambda>t.
     Inr ((), t\<lparr>t_resources := update_where (is_resource userUID resourceType resourceID)
                 (\<lambda>r. r\<lparr>cr_Status := status, cr_Msg := msg\<rparr>) (t_resources t)\<rparr>))"

text \<open>Deleting a resource deletes its reports (\<open>ON DELETE CASCADE\<close>).\<close>

definition DeleteCombinatorResource :: "string \<Rightarrow> string \<Rightarrow> string \<Rightarrow> unit dbop" where
  "DeleteCombinatorResource userUID resourceType resourceID = sql_exec (\<lambda>t.
     let p = is_resource userUID resourceType resourceID in
     Inr ((), t\<lparr>t_resources := delete_where p (t_resources t),
                t_reports := delete_where
                  (\<lambda>r. rr_resource_id r \<in> set (map cr_ID (filter p (t_resources t))))
                  (t_reports t)\<rparr>))"

section \<open>Usage reports\<close>

text \<open>
  A parameter of a statement, bound to a column of the given type.  \<open>resource_id\<close> is an \<open>INTEGER\<close>
  column and a string on the Go side: the server parses it.
\<close>

datatype param = PStr string | PInt int | PTime int

definition pg_integer :: "param \<Rightarrow> int option" where
  "pg_integer p =
     (case p of
        PStr s \<Rightarrow> (case atoi s of Some i \<Rightarrow> (if int4 i then Some i else None) | None \<Rightarrow> None)
      | PInt i \<Rightarrow> (if int4 i then Some i else None)
      | PTime _ \<Rightarrow> None)"

fun pg_text :: "param \<Rightarrow> string option" where
  "pg_text (PStr s) = Some s"
| "pg_text _ = None"

fun pg_timestamp :: "param \<Rightarrow> int option" where
  "pg_timestamp (PTime i) = Some i"
| "pg_timestamp _ = None"

text \<open>One tuple of the \<open>VALUES\<close> list: the five placeholder numbers.\<close>

type_synonym placeholders = "nat \<times> nat \<times> nat \<times> nat \<times> nat"

definition arg :: "param list \<Rightarrow> nat \<Rightarrow> param option" where
  "arg ps k = (if 0 < k \<and> k \<le> length ps then Some (ps ! (k - 1)) else None)"

definition bind_tuple :: "param list \<Rightarrow> placeholders \<Rightarrow> (int \<Rightarrow> report_row) option" where
  "bind_tuple ps q = (case q of (a, b, c, s, e) \<Rightarrow>
     Option.bind (Option.bind (arg ps a) pg_text) (\<lambda>uid.
     Option.bind (Option.bind (arg ps b) pg_integer) (\<lambda>rid.
     Option.bind (Option.bind (arg ps c) pg_integer) (\<lambda>chg.
     Option.bind (Option.bind (arg ps s) pg_timestamp) (\<lambda>st.
     Option.bind (Option.bind (arg ps e) pg_timestamp) (\<lambda>en.
       Some (\<lambda>i. \<lparr>rr_id = i, rr_user_uid = uid, rr_resource_id = rid, rr_datachange = chg,
                  rr_record_start = st, rr_record_end = en\<rparr>)))))))"

fun bind_tuples :: "param list \<Rightarrow> placeholders list \<Rightarrow> (int \<Rightarrow> report_row) list option" where
  "bind_tuples ps [] = Some []"
| "bind_tuples ps (q # qs) =
     (case bind_tuple ps q of None \<Rightarrow> None
      | Some f \<Rightarrow> (case bind_tuples ps qs of None \<Rightarrow> None | Some fs \<Rightarrow> Some (f # fs)))"

fun number_rows :: "(int \<Rightarrow> report_row) list \<Rightarrow> int \<Rightarrow> report_row list" where
  "number_rows [] i = []"
| "number_rows (f # fs) i = f i # number_rows fs (i + 1)"

text \<open>
  \<open>INSERT INTO combinator_resource_reports (...) VALUES qs\<close> with parameters \<open>ps\<close>.  The protocol
  counts parameters in 16 bits and the driver refuses more.
\<close>

definition insert_reports :: "placeholders list \<Rightarrow> param list \<Rightarrow> unit dbop" where
  "insert_reports qs ps =
     (if length ps > 65535
      then sql_exec (\<lambda>_. Inl (DriverErr ''pq: got too many parameters but PostgreSQL only supports 65535 parameters''))
      else case bind_tuples ps qs of
        None \<Rightarrow> sql_exec (\<lambda>_. Inl (DriverErr ''pq: invalid input syntax for type integer''))
      | Some fs \<Rightarrow> sql_insert Reports (length fs) (\<lambda>i now t.
          let rows = number_rows fs i in
          if list_ex (\<lambda>r. rr_resource_id r \<notin> set (map cr_ID (t_resources t))) rows
          then Inl (DriverErr ''pq: insert violates foreign key constraint'')
          else Inr ((), t\<lparr>t_reports := t_reports t @ rows\<rparr>)))"

definition report_params :: "combinator_resource_report \<Rightarrow> param list" where
  "report_params r = [PStr (rp_UserID r), PStr (rp_ResourceID r), PInt (rp_DataChange r),
     PTime (rp_TimespanStart r), PTime (rp_TimespanEnd r)]"

definition SaveCombinatorResourceReport :: "combinator_resource_report \<Rightarrow> unit dbop" where
  "SaveCombinatorResourceReport r = insert_reports [(1, 2, 3, 4, 5)] (report_params r)"

text \<open>The loop over the reports: its state is the index, the tuples written and the values.\<close>

fun batch_build :: "combinator_resource_report list \<Rightarrow> nat \<Rightarrow> placeholders list \<Rightarrow> param list \<Rightarrow>
    placeholders list \<times> param list" where
  "batch_build [] i qs ps = (qs, ps)"
| "batch_build (r # rs) i qs ps =
     (let off = i * 5
      in batch_build rs (i + 1) (qs @ [(off + 1, off + 2, off + 3, off + 4, off + 5)])
           (ps @ report_params r))"

definition BatchSaveCombinatorResourceReports :: "combinator_resource_report list \<Rightarrow> unit dbop" where
  "BatchSaveCombinatorResourceReports reports =
     (if reports = [] then (\<lambda>d. (Inr (), d))
      else (case batch_build reports 0 [] [] of (qs, ps) \<Rightarrow> insert_reports qs ps))"

text \<open>The query names columns that \<open>init.sql\<close> does not give the table: the server refuses it.\<close>

definition CalculateDataChangeSum :: "string \<Rightarrow> string \<Rightarrow> string \<Rightarrow> int dbop" where
  "CalculateDataChangeSum userID resourceType resourceID =
     sql_query (\<lambda>_. Inl (DriverErr ''pq: column \"user_id\" does not exist''))"

section \<open>Console tasks\<close>

definition TaskStatusProcessing :: string where "TaskStatusProcessing = ''processing''"
definition TaskStatusFinished :: string where "TaskStatusFinished = ''finished''"

definition CreateTask :: "string \<Rightarrow> string \<Rightarrow> string \<Rightarrow> string \<Rightarrow> console_task dbop" where
  "CreateTask taskType detailedStatus taskInfo status = sql_insert Tasks 1 (\<lambda>i now t.
     let k = \<lparr>ct_ID = i, ct_TaskType = taskType, ct_TaskStatus = status,
              ct_TaskDetailedStatus = detailedStatus, ct_TaskInfo = taskInfo, ct_CreatedAt = now\<rparr>
     in Inr (k, t\<lparr>t_tasks := t_tasks t @ [k]\<rparr>))"

definition UpdateTaskStatus :: "int \<Rightarrow> string \<Rightarrow> string \<Rightarrow> unit dbop" where
  "UpdateTaskStatus taskID status detailedStatus = sql_exec (\<lambda>t.
     Inr ((), t\<lparr>t_tasks := update_where (\<lambda>k. ct_ID k = taskID)
       (\<lambda>k. k\<lparr>ct_TaskStatus := status, ct_TaskDetailedStatus := detailedStatus\<rparr>) (t_tasks t)\<rparr>))"

definition GetAllPendingTasks :: "console_task list dbop" where
  "GetAllPendingTasks = sql_query (\<lambda>t.
     Inr (sort_key ct_CreatedAt (filter (\<lambda>k. ct_TaskStatus k = ''pending'') (t_tasks t))))"

section \<open>Integrity\<close>

lemma domain_ops_keep:
  "keeps_ok (CreateCustomDomain cdid uid domain target tn tv st)"
  "keeps_ok (GetCustomDomain cdid)"
  "keeps_ok (ListCustomDomains uid)"
  "keeps_ok (UpdateCustomDomainStatus cdid st)"
  "keeps_ok (DeleteCustomDomain cdid)"
  "keeps_ok ListAllSuccessDomains"
proof -
  show "keeps_ok (CreateCustomDomain cdid uid domain target tn tv st)"
    unfolding CreateCustomDomain_def
    by (rule sql_insert_keeps)
      (auto simp: tables_ok_def all_tbl list_ex_iff new_domain_def split: if_splits)
  show "keeps_ok (UpdateCustomDomainStatus cdid st)"
    unfolding UpdateCustomDomainStatus_def
    by (rule sql_exec_keeps) (auto simp: tables_ok_def all_tbl update_where_map set_update_where)
  show "keeps_ok (DeleteCustomDomain cdid)"
    unfolding DeleteCustomDomain_def
    by (rule sql_exec_keeps) (auto simp: tables_ok_def all_tbl distinct_delete_where)
qed (simp_all add: GetCustomDomain_def ListCustomDomains_def ListAllSuccessDomains_def sql_query_keeps)

lemma number_rows_ids: "map rr_id (number_rows fs i) = map (\<lambda>k. i + int k) [0..<length fs]"
  if "\<And>f j. f \<in> set fs \<Longrightarrow> rr_id (f j) = j"
  using that
proof (induction fs arbitrary: i)
  case Nil
  then show ?case by simp
next
  case (Cons f fs)
  have "map (\<lambda>k. i + int k) [0..<Suc (length fs)] = i # map (\<lambda>k. (i + 1) + int k) [0..<length fs]"
    by (simp add: map_Suc_upt [symmetric] upt_conv_Cons comp_def add.assoc del: upt_Suc)
  with Cons show ?case by (simp del: upt_Suc)
qed

lemma bind_tuple_id: "bind_tuple ps q = Some f \<Longrightarrow> rr_id (f j) = j"
  by (auto simp: bind_tuple_def bind_eq_Some_conv split: prod.splits)

lemma bind_tuples_id: "bind_tuples ps qs = Some fs \<Longrightarrow> f \<in> set fs \<Longrightarrow> rr_id (f j) = j"
  by (induction qs arbitrary: fs) (auto split: option.splits dest: bind_tuple_id)

lemma insert_reports_keeps: "keeps_ok (insert_reports qs ps)"
proof -
  have ins: "keeps_ok (sql_insert Reports (length fs) (\<lambda>i now t.
          let rows = number_rows fs i in
          if list_ex (\<lambda>r. rr_resource_id r \<notin> set (map cr_ID (t_resources t))) rows
          then Inl (DriverErr e)
          else Inr ((), t\<lparr>t_reports := t_reports t @ rows\<rparr>)))"
    if "bind_tuples ps qs = Some fs" for fs e
    using number_rows_ids [of fs] bind_tuples_id [OF that]
    by (intro sql_insert_keeps)
      (auto simp: tables_ok_def all_tbl list_ex_iff Let_def split: if_splits)
  show ?thesis
    unfolding insert_reports_def
    by (auto intro: sql_exec_keeps ins split: option.splits simp del: set_map)
qed

lemma resource_ops_keep:
  "keeps_ok (CreateCombinatorResource uid ty rid)"
  "keeps_ok (GetCombinatorResource uid ty rid)"
  "keeps_ok (ListCombinatorResources uid ty)"
  "keeps_ok (ListActiveCombinatorResources uid)"
  "keeps_ok (UpdateCombinatorResourceStatus uid ty rid st m)"
  "keeps_ok (DeleteCombinatorResource uid ty rid)"
  "keeps_ok (SaveCombinatorResourceReport r)"
  "keeps_ok (BatchSaveCombinatorResourceReports rs)"
  "keeps_ok (CalculateDataChangeSum uid ty rid)"
proof -
  show "keeps_ok (CreateCombinatorResource uid ty rid)"
    unfolding CreateCombinatorResource_def
    by (rule sql_insert_keeps) (auto simp: tables_ok_def all_tbl new_resource_def)
  show "keeps_ok (UpdateCombinatorResourceStatus uid ty rid st m)"
    unfolding UpdateCombinatorResourceStatus_def
    by (rule sql_exec_keeps)
      (auto simp: tables_ok_def all_tbl update_where_map update_where_img)
  show "keeps_ok (DeleteCombinatorResource uid ty rid)"
    unfolding DeleteCombinatorResource_def
  proof (rule sql_exec_keeps)
    fix t t' :: tables and x
    let ?p = "is_resource uid ty rid"
    assume run: "(let p = ?p in
     Inr ((), t\<lparr>t_resources := delete_where p (t_resources t),
                t_reports := delete_where
                  (\<lambda>r. rr_resource_id r \<in> set (map cr_ID (filter p (t_resources t))))
                  (t_reports t)\<rparr>)) = (Inr (x, t') :: err + unit \<times> tables)" and ok: "tables_ok t"
    have "rr_resource_id r \<in> cr_ID ` set (t_resources t')" if "r \<in> set (t_reports t')" for r
      using that ok run unfolding tables_ok_def by (auto simp: image_iff Let_def) blast
    with ok run show "tables_ok t' \<and> (\<forall>tb. distinct (ids tb t) \<longrightarrow> distinct (ids tb t')) \<and>
        (\<forall>tb. set (ids tb t') \<subseteq> set (ids tb t))"
      by (auto simp: tables_ok_def all_tbl distinct_delete_where Let_def)
  qed
  show "keeps_ok (SaveCombinatorResourceReport r)"
    unfolding SaveCombinatorResourceReport_def by (rule insert_reports_keeps)
  show "keeps_ok (BatchSaveCombinatorResourceReports rs)"
    unfolding BatchSaveCombinatorResourceReports_def
    by (auto intro: keeps_okI insert_reports_keeps split: prod.splits)
qed (simp_all add: GetCombinatorResource_def ListCombinatorResources_def
      ListActiveCombinatorResources_def CalculateDataChangeSum_def sql_query_keeps)

lemma task_ops_keep:
  "keeps_ok (CreateTask ty ds info st)"
  "keeps_ok (UpdateTaskStatus i st ds)"
  "keeps_ok GetAllPendingTasks"
proof -
  show "keeps_ok (CreateTask ty ds info st)"
    unfolding CreateTask_def by (rule sql_insert_keeps) (auto simp: tables_ok_def all_tbl Let_def)
  show "keeps_ok (UpdateTaskStatus i st ds)"
    unfolding UpdateTaskStatus_def
    by (rule sql_exec_keeps) (auto simp: tables_ok_def all_tbl update_where_map set_update_where)
qed (simp add: GetAllPendingTasks_def sql_query_keeps)

section \<open>The batch\<close>

text \<open>What the server makes of one report, on its own.\<close>

definition report_fields :: "combinator_resource_report \<Rightarrow> (int \<Rightarrow> report_row) option" where
  "report_fields r = bind_tuple (report_params r) (1, 2, 3, 4, 5)"

lemma report_params_length [simp]: "length (report_params r) = 5"
  by (simp add: report_params_def)

lemma arg_shift:
  "0 < k \<Longrightarrow> k \<le> length mid \<Longrightarrow> arg (pre @ mid @ post) (length pre + k) = arg mid k"
  by (auto simp: arg_def nth_append)

lemma bind_tuple_shift:
  "bind_tuple (pre @ report_params r @ post)
     (length pre + 1, length pre + 2, length pre + 3, length pre + 4, length pre + 5) =
   report_fields r"
  unfolding bind_tuple_def report_fields_def prod.case
  by (simp add: arg_shift del: add_Suc_right One_nat_def add_2_eq_Suc')

fun all_fields :: "combinator_resource_report list \<Rightarrow> (int \<Rightarrow> report_row) list option" where
  "all_fields [] = Some []"
| "all_fields (r # rs) =
     (case report_fields r of None \<Rightarrow> None
      | Some f \<Rightarrow> (case all_fields rs of None \<Rightarrow> None | Some fs \<Rightarrow> Some (f # fs)))"

definition tuples_from :: "nat \<Rightarrow> nat \<Rightarrow> placeholders list" where
  "tuples_from i n = map (\<lambda>k. (k * 5 + 1, k * 5 + 2, k * 5 + 3, k * 5 + 4, k * 5 + 5)) [i..<i + n]"

lemma batch_build_eq:
  "batch_build rs i qs ps = (qs @ tuples_from i (length rs), ps @ concat (map report_params rs))"
  by (induction rs arbitrary: i qs ps) (simp_all add: tuples_from_def upt_conv_Cons Let_def del: upt_Suc)

lemma bind_batch:
  "length pre = i * 5 \<Longrightarrow>
     bind_tuples (pre @ concat (map report_params rs)) (tuples_from i (length rs)) = all_fields rs"
proof (induction rs arbitrary: i pre)
  case Nil
  then show ?case by (simp add: tuples_from_def)
next
  case (Cons r rs)
  have step: "tuples_from i (length (r # rs)) =
      (i * 5 + 1, i * 5 + 2, i * 5 + 3, i * 5 + 4, i * 5 + 5) # tuples_from (i + 1) (length rs)"
    by (simp add: tuples_from_def upt_conv_Cons del: upt_Suc)
  have "bind_tuples ((pre @ report_params r) @ concat (map report_params rs))
      (tuples_from (i + 1) (length rs)) = all_fields rs"
    using Cons.prems by (intro Cons.IH) simp
  with bind_tuple_shift [of pre r "concat (map report_params rs)"] Cons.prems
  show ?case unfolding step by (simp cong: option.case_cong)
qed

lemma batch_fields:
  "case batch_build rs 0 [] [] of (qs, ps) \<Rightarrow>
     length ps = 5 * length rs \<and> bind_tuples ps qs = all_fields rs"
proof -
  have "length (concat (map report_params rs)) = 5 * length rs" by (induction rs) simp_all
  then show ?thesis using bind_batch [of "[]" 0 rs] by (simp add: batch_build_eq)
qed

lemma number_rows_nth: "k < length fs \<Longrightarrow> number_rows fs i ! k = (fs ! k) (i + int k)"
proof (induction fs arbitrary: i k)
  case (Cons f fs)
  then show ?case by (cases k) (simp_all add: add.assoc)
qed simp

lemma length_number_rows [simp]: "length (number_rows fs i) = length fs"
  by (induction fs arbitrary: i) simp_all

lemma all_fields_nth:
  "all_fields rs = Some fs \<Longrightarrow> length fs = length rs \<and>
     (\<forall>k < length rs. report_fields (rs ! k) = Some (fs ! k))"
proof (induction rs arbitrary: fs)
  case (Cons r rs)
  then show ?case by (auto simp: nth_Cons split: option.splits nat.splits)
qed simp

lemma report_fields_row:
  assumes "report_fields r = Some f"
  shows "\<exists>rid. pg_integer (PStr (rp_ResourceID r)) = Some rid \<and> int4 (rp_DataChange r) \<and>
    f i = \<lparr>rr_id = i, rr_user_uid = rp_UserID r, rr_resource_id = rid,
           rr_datachange = rp_DataChange r, rr_record_start = rp_TimespanStart r,
           rr_record_end = rp_TimespanEnd r\<rparr>"
  using assms
  by (auto simp: report_fields_def bind_tuple_def report_params_def arg_def bind_eq_Some_conv
      pg_integer_def split: option.splits if_splits)

text \<open>A successful batch appends one row per report, in the order of the reports.\<close>

lemma batch_ok:
  assumes run: "BatchSaveCombinatorResourceReports rs d = (Inr u, d')"
  shows "\<exists>rows. tab d' = (tab d)\<lparr>t_reports := t_reports (tab d) @ rows\<rparr> \<and>
    length rows = length rs \<and> length rs \<le> 13107 \<and>
    (\<forall>k < length rs. rr_user_uid (rows ! k) = rp_UserID (rs ! k) \<and>
       rr_datachange (rows ! k) = rp_DataChange (rs ! k) \<and>
       pg_integer (PStr (rp_ResourceID (rs ! k))) = Some (rr_resource_id (rows ! k)))"
proof (cases "rs = []")
  case True
  with run show ?thesis by (auto simp: BatchSaveCombinatorResourceReports_def)
next
  case False
  obtain qs ps where b: "batch_build rs 0 [] [] = (qs, ps)" by (cases "batch_build rs 0 [] []")
  with batch_fields [of rs] have ps: "length ps = 5 * length rs"
    and bt: "bind_tuples ps qs = all_fields rs" by auto
  from run False b have ins: "insert_reports qs ps d = (Inr u, d')"
    by (simp add: BatchSaveCombinatorResourceReports_def)
  then have few: "length ps \<le> 65535" by (auto simp: insert_reports_def dest: sql_exec_ok split: if_splits)
  with ins bt obtain fs where fs: "all_fields rs = Some fs"
    by (cases "all_fields rs") (auto simp: insert_reports_def dest: sql_exec_ok)
  let ?rows = "number_rows fs (db_seq d Reports)"
  from ins few bt fs have t': "tab d' = (tab d)\<lparr>t_reports := t_reports (tab d) @ ?rows\<rparr>"
    by (auto simp: insert_reports_def Let_def dest!: sql_insert_tab split: if_splits)
  have row: "rr_user_uid (?rows ! k) = rp_UserID (rs ! k) \<and>
       rr_datachange (?rows ! k) = rp_DataChange (rs ! k) \<and>
       pg_integer (PStr (rp_ResourceID (rs ! k))) = Some (rr_resource_id (?rows ! k))"
    if "k < length rs" for k
    using report_fields_row [of "rs ! k" "fs ! k" "db_seq d Reports + int k"]
      all_fields_nth [OF fs] that by (auto simp: number_rows_nth)
  have "length rs \<le> 13107" using few ps by simp
  with t' row all_fields_nth [OF fs] show ?thesis by (intro exI [of _ ?rows]) auto
qed

lemma insert_reports_err: "insert_reports qs ps d = (Inl e, d') \<Longrightarrow> tab d' = tab d"
  by (auto simp: insert_reports_def dest: sql_exec_err sql_insert_err split: if_splits option.splits)

lemma batch_err: "BatchSaveCombinatorResourceReports rs d = (Inl e, d') \<Longrightarrow> tab d' = tab d"
  by (auto simp: BatchSaveCombinatorResourceReports_def dest: insert_reports_err
      split: if_splits prod.splits)

end
