(* ===== verification/DbLayer.thy ===== *)
theory DbLayer
  imports DbUsers DbWorkers DbResources
begin

text \<open>
  The whole of \<open>dblayer\<close> as one step relation: from the empty database of \<open>init.sql\<close>, any
  sequence of its operations, with any pattern of failing statements and any clock, stays within
  the constraints.  Then what the operations on one owner's rows leave alone.
\<close>

section \<open>Every operation as a step\<close>

definition ran :: "'a dbop \<Rightarrow> db \<Rightarrow> db \<Rightarrow> bool" where
  "ran op d d' \<longleftrightarrow> snd (op d) = d'"

inductive db_step :: "db \<Rightarrow> db \<Rightarrow> bool" where
  "ran (GetVerificationCode email code) d d' \<Longrightarrow> db_step d d'"
| "ran (MarkCodeUsed codeID) d d' \<Longrightarrow> db_step d d'"
| "ran (SaveVerificationCode email code expiresAt) d d' \<Longrightarrow> db_step d d'"
| "ran (CreateUser uid email passwordHash secretKey) d d' \<Longrightarrow> db_step d d'"
| "ran (GetUserByEmail email) d d' \<Longrightarrow> db_step d d'"
| "ran (UpdateUserPassword email passwordHash) d d' \<Longrightarrow> db_step d d'"
| "ran (GetUserSecretKey uid) d d' \<Longrightarrow> db_step d d'"
| "ran (ListUserUIDsPaged limit off) d d' \<Longrightarrow> db_step d d'"
| "ran (CreateWorker wid uid name) d d' \<Longrightarrow> db_step d d'"
| "ran (ListWorkersByUser uid) d d' \<Longrightarrow> db_step d d'"
| "ran (GetWorkerByOwner wid uid) d d' \<Longrightarrow> db_step d d'"
| "ran (GetWorkerEnvByOwner wid uid) d d' \<Longrightarrow> db_step d d'"
| "ran (SetWorkerEnvByOwner wid uid j) d d' \<Longrightarrow> db_step d d'"
| "ran (GetWorkerSecretsByOwner wid uid) d d' \<Longrightarrow> db_step d d'"
| "ran (SetWorkerSecretsByOwner wid uid j) d d' \<Longrightarrow> db_step d d'"
| "ran (DeleteWorkerByOwner wid uid) d d' \<Longrightarrow> db_step d d'"
| "ran (UpdateWorkerStatus wid status) d d' \<Longrightarrow> db_step d d'"
| "ran (UpdateDeployVersionStatus versionID status msg) d d' \<Longrightarrow> db_step d d'"
| "ran (ListDeployVersions workerID limit off) d d' \<Longrightarrow> db_step d d'"
| "ran (CreateDeployVersionForOwner wid uid img port) d d' \<Longrightarrow> db_step d d'"
| "ran (GetDeployVersionWithWorker versionID) d d' \<Longrightarrow> db_step d d'"
| "ran (DeployVersionSuccess versionID workerID) d d' \<Longrightarrow> db_step d d'"
| "ran (CreateCustomDomain cdid uid domain target txtName txtValue status) d d' \<Longrightarrow> db_step d d'"
| "ran (GetCustomDomain cdid) d d' \<Longrightarrow> db_step d d'"
| "ran (ListCustomDomains uid) d d' \<Longrightarrow> db_step d d'"
| "ran (UpdateCustomDomainStatus cdid status) d d' \<Longrightarrow> db_step d d'"
| "ran (DeleteCustomDomain cdid) d d' \<Longrightarrow> db_step d d'"
| "ran ListAllSuccessDomains d d' \<Longrightarrow> db_step d d'"
| "ran (CreateCombinatorResource uid resourceType resourceID) d d' \<Longrightarrow> db_step d d'"
| "ran (GetCombinatorResource uid resourceType resourceID) d d' \<Longrightarrow> db_step d d'"
| "ran (ListCombinatorResources uid resourceType) d d' \<Longrightarrow> db_step d d'"
| "ran (ListActiveCombinatorResources uid) d d' \<Longrightarrow> db_step d d'"
| "ran (UpdateCombinatorResourceStatus uid resourceType resourceID status msg) d d' \<Longrightarrow> db_step d d'"
| "ran (DeleteCombinatorResource uid resourceType resourceID) d d' \<Longrightarrow> db_step d d'"
| "ran (SaveCombinatorResourceReport report) d d' \<Longrightarrow> db_step d d'"
| "ran (BatchSaveCombinatorResourceReports reports) d d' \<Longrightarrow> db_step d d'"
| "ran (CalculateDataChangeSum uid resourceType resourceID) d d' \<Longrightarrow> db_step d d'"
| "ran (CreateTask taskType detailedStatus taskInfo status) d d' \<Longrightarrow> db_step d d'"
| "ran (UpdateTaskStatus taskID status detailedStatus) d d' \<Longrightarrow> db_step d d'"
| "ran GetAllPendingTasks d d' \<Longrightarrow> db_step d d'"
| clock: "d' = d\<lparr>db_now := now, db_faults := fs\<rparr> \<Longrightarrow> db_step d d'"

lemmas every_op_keeps = code_ops_keep user_ops_keep worker_ops_keep DeleteWorkerByOwner_keeps
  version_ops_keep tx_ops_keep domain_ops_keep resource_ops_keep task_ops_keep

lemma ran_keeps: "ran op d d' \<Longrightarrow> keeps_ok op \<Longrightarrow> db_ok d \<Longrightarrow> db_ok d'"
  by (auto simp: ran_def keeps_ok_def)

lemma db_step_ok: "db_step d d' \<Longrightarrow> db_ok d \<Longrightarrow> db_ok d'"
proof (induction rule: db_step.induct)
  case (clock d' d now fs)
  then show ?case by (auto intro: db_ok_same)
qed (erule ran_keeps, rule every_op_keeps, assumption)+



section \<open>The transactions\<close>

text \<open>
  Creating a deploy version is all or nothing: on an error (of any statement, the begin or the
  commit included) no table changed; otherwise the worker is the caller's own, its status is
  loading and exactly one version, with a fresh id, was added for it.
\<close>

theorem create_version_atomic:
  "case CreateDeployVersionForOwner wid uid img port d of
     (Inl e, d') \<Rightarrow> tab d' = tab d
   | (Inr v, d') \<Rightarrow> v = db_seq d Versions \<and>
       (\<exists>w now. w \<in> set (t_workers (tab d)) \<and> w_WID w = wid \<and> w_UserUID w = uid \<and>
          tab d' = (tab d)\<lparr>
            t_workers := update_where (owned wid uid) (w_Status_update (\<lambda>_. ''loading''))
              (t_workers (tab d)),
            t_versions := t_versions (tab d) @ [loading_version v (w_ID w) img port now]\<rparr>)"
  by (fastforce split: prod.splits sum.splits simp: owned_def
      dest: create_version_err create_version_ok)

text \<open>
  Recording a successful deployment is all or nothing: on an error no table changed, otherwise
  the version is successful with an empty message and the worker is active with it.
\<close>

theorem deploy_success_atomic:
  "case DeployVersionSuccess v i d of
     (Inl e, d') \<Rightarrow> tab d' = tab d
   | (Inr _, d') \<Rightarrow> tab d' = (tab d)\<lparr>
       t_versions := update_where (\<lambda>x. v_ID x = v) (\<lambda>x. x\<lparr>v_Status := ''success'', v_Msg := ''''\<rparr>)
         (t_versions (tab d)),
       t_workers := update_where (\<lambda>w. w_ID w = i)
         (\<lambda>w. w\<lparr>w_ActiveVersionID := Some v, w_Status := ''active''\<rparr>) (t_workers (tab d))\<rparr>"
  by (auto split: prod.splits sum.splits dest: success_err success_ok)

section \<open>Owners\<close>

definition others :: "string \<Rightarrow> string \<Rightarrow> db \<Rightarrow> worker list" where
  "others wid uid d = filter (\<lambda>w. \<not> owned wid uid w) (t_workers (tab d))"

lemma others_update:
  assumes "\<And>w. w_WID (f w) = w_WID w" "\<And>w. w_UserUID (f w) = w_UserUID w"
  shows "filter (\<lambda>w. \<not> owned wid uid w) (update_where (owned wid uid) f ws) =
    filter (\<lambda>w. \<not> owned wid uid w) ws"
  by (induction ws) (auto simp: owned_def assms update_where_def)

lemma others_set_by_owner:
  assumes "\<And>w. w_WID (f w) = w_WID w" "\<And>w. w_UserUID (f w) = w_UserUID w"
  shows "others wid uid (snd (set_by_owner f wid uid d)) = others wid uid d"
proof (cases "set_by_owner f wid uid d")
  case (Pair r d')
  then show ?thesis
    using set_by_owner_ok [of f wid uid d _ d'] set_by_owner_err [of f wid uid d _ d']
    by (cases r) (auto simp: others_def others_update assms)
qed

lemma others_delete: "others wid uid (snd (DeleteWorkerByOwner wid uid d)) = others wid uid d"
  unfolding DeleteWorkerByOwner_def db_bind_def
  by (auto simp: others_def delete_cascade_def delete_where_def found_rows_def
      split: prod.splits sum.splits dest!: sql_exec_Inr sql_exec_err)

lemma others_version: "others wid uid (snd (CreateDeployVersionForOwner wid uid img port d)) = others wid uid d"
proof (cases "CreateDeployVersionForOwner wid uid img port d")
  case (Pair r d')
  then show ?thesis
    using create_version_ok [of wid uid img port d _ d'] create_version_err [of wid uid img port d _ d']
    by (cases r) (auto simp: others_def others_update)
qed

text \<open>
  An operation on a worker that names an owner leaves every other worker, of that owner or of
  another one, exactly as it was, whatever its outcome.
\<close>

theorem owner_isolation:
  "others wid uid (snd (SetWorkerEnvByOwner wid uid j d)) = others wid uid d \<and>
   others wid uid (snd (SetWorkerSecretsByOwner wid uid j d)) = others wid uid d \<and>
   others wid uid (snd (DeleteWorkerByOwner wid uid d)) = others wid uid d \<and>
   others wid uid (snd (CreateDeployVersionForOwner wid uid img port d)) = others wid uid d"
  by (simp add: SetWorkerEnvByOwner_def SetWorkerSecretsByOwner_def others_set_by_owner
      others_delete others_version)

text \<open>
  A worker id with an owner that does not own it is as good as absent: the updates report
  not found (or the driver's error) and the reads never answer.
\<close>

theorem foreign_worker_refused:
  assumes "\<forall>w \<in> set (t_workers (tab d)). \<not> (w_WID w = wid \<and> w_UserUID w = uid)"
  shows "(\<exists>e. fst (SetWorkerEnvByOwner wid uid j d) = Inl e) \<and>
    (\<exists>e. fst (SetWorkerSecretsByOwner wid uid j d) = Inl e) \<and>
    (\<exists>e. fst (DeleteWorkerByOwner wid uid d) = Inl e) \<and>
    (\<exists>e. fst (CreateDeployVersionForOwner wid uid img port d) = Inl e) \<and>
    (\<exists>e. fst (GetWorkerByOwner wid uid d) = Inl e) \<and>
    (\<exists>e. fst (GetWorkerEnvByOwner wid uid d) = Inl e)"
proof -
  have no: "\<not> (\<exists>w \<in> set (t_workers (tab d)). owned wid uid w)" using assms by (simp add: owned_def)
  have set_no: "\<exists>e. fst (set_by_owner f wid uid d) = Inl e" for f
    using set_by_owner_ok [of f wid uid d _ "snd (set_by_owner f wid uid d)"] no
    by (cases "fst (set_by_owner f wid uid d)") (auto simp: prod_eq_iff)
  have frow: "first_row (owned wid uid) (t_workers (tab d)) = Inl NoRows"
    using no by (simp add: first_row_err)
  have "\<exists>e. fst (DeleteWorkerByOwner wid uid d) = Inl e"
  proof (cases "DeleteWorkerByOwner wid uid d")
    case (Pair r d')
    show ?thesis
    proof (cases r)
      case (Inr u)
      with Pair obtain n d1 where "n = length (filter (owned wid uid) (t_workers (tab d)))" "n \<noteq> 0"
        unfolding DeleteWorkerByOwner_def
        by (auto elim!: db_bind_ok dest!: sql_exec_Inr simp: found_rows_def split: if_splits)
      with no show ?thesis by (auto simp: filter_empty_conv)
    qed (simp add: Pair)
  qed
  moreover have "\<exists>e. fst (CreateDeployVersionForOwner wid uid img port d) = Inl e"
    using create_version_ok [of wid uid img port d _ "snd (CreateDeployVersionForOwner wid uid img port d)"] no
    by (cases "fst (CreateDeployVersionForOwner wid uid img port d)") (auto simp: prod_eq_iff)
  moreover have "\<exists>e. fst (GetWorkerByOwner wid uid d) = Inl e"
    "\<exists>e. fst (GetWorkerEnvByOwner wid uid d) = Inl e"
    unfolding GetWorkerByOwner_def GetWorkerEnvByOwner_def sql_query_def run_stmt_def
    using frow by (auto split: list.splits option.splits)
  ultimately show ?thesis
    using set_no by (simp add: SetWorkerEnvByOwner_def SetWorkerSecretsByOwner_def)
qed

theorem foreign_worker_refused_witness:
  "\<exists>e. fst (SetWorkerEnvByOwner ''w1'' ''u2'' None
     (snd (CreateWorker ''w1'' ''u1'' ''n'' (empty_db 5 [])))) = Inl e"
proof -
  have "\<forall>w \<in> set (t_workers (tab (snd (CreateWorker ''w1'' ''u1'' ''n'' (empty_db 5 []))))).
      \<not> (w_WID w = ''w1'' \<and> w_UserUID w = ''u2'')"
    by (simp add: CreateWorker_def sql_insert_def run_stmt_def empty_db_def empty_tables_def Let_def)
  from foreign_worker_refused [OF this] show ?thesis by blast
qed

text \<open>
  What is written to a worker's environment is what the next read by the same owner returns,
  and no read by another owner or of another worker changes.
\<close>

theorem env_read_your_write:
  assumes "SetWorkerEnvByOwner wid uid j d = (Inr u, d')"
    and "GetWorkerEnvByOwner wid uid d' = (Inr k, d'')"
  shows "k = j \<and> ((wid', uid') \<noteq> (wid, uid) \<longrightarrow> env_of (tab d') wid' uid' = env_of (tab d) wid' uid')"
  using env.read_your_write [OF assms] env.put_frame [OF assms(1)] by blast

text \<open>A database with one worker, for the examples.\<close>

definition one_worker_db :: db where
  "one_worker_db = snd (CreateWorker ''w1'' ''u1'' ''n'' (empty_db 5 []))"

lemmas one_worker_simps = one_worker_db_def CreateWorker_def sql_insert_def run_stmt_def empty_db_def
  empty_tables_def Let_def SetWorkerEnvByOwner_def set_by_owner_def db_bind_def sql_exec_def
  owned_def found_rows_def GetWorkerEnvByOwner_def sql_query_def first_row_def env_of_def

theorem env_read_your_write_witness:
  "env_of (tab (snd (SetWorkerEnvByOwner ''w1'' ''u1'' (Some JNull) one_worker_db))) ''w2'' ''u1'' =
   env_of (tab one_worker_db) ''w2'' ''u1''"
proof -
  have "SetWorkerEnvByOwner ''w1'' ''u1'' (Some JNull) one_worker_db =
      (Inr (), snd (SetWorkerEnvByOwner ''w1'' ''u1'' (Some JNull) one_worker_db))"
    by (simp add: one_worker_simps)
  moreover have "GetWorkerEnvByOwner ''w1'' ''u1''
      (snd (SetWorkerEnvByOwner ''w1'' ''u1'' (Some JNull) one_worker_db)) =
      (Inr (Some JNull), snd (SetWorkerEnvByOwner ''w1'' ''u1'' (Some JNull) one_worker_db))"
    by (simp add: one_worker_simps)
  ultimately show ?thesis using env_read_your_write [where wid' = "''w2''" and uid' = "''u1''"] by force
qed

text \<open>
  The read and the write of a worker's environment are two statements: when two clients both
  read before either writes, the second write keeps nothing of what the first one changed.
\<close>

theorem lost_env_update:
  assumes "GetWorkerEnvByOwner wid uid d = (Inr v, d1)"
    and "GetWorkerEnvByOwner wid uid d1 = (Inr w, d2)"
    and "SetWorkerEnvByOwner wid uid (f v) d2 = (Inr x, d3)"
    and "SetWorkerEnvByOwner wid uid (g w) d3 = (Inr y, d4)"
  shows "env_of (tab d4) wid uid = Some (g v)"
  using assms by (rule env.lost_update)

theorem lost_env_update_witness:
  "env_of (tab (snd (SetWorkerEnvByOwner ''w1'' ''u1'' (Some (JArr []))
     (snd (SetWorkerEnvByOwner ''w1'' ''u1'' (Some JNull) one_worker_db))))) ''w1'' ''u1'' = Some (Some (JArr []))"
proof -
  let ?d3 = "snd (SetWorkerEnvByOwner ''w1'' ''u1'' (Some JNull) one_worker_db)"
  let ?d4 = "snd (SetWorkerEnvByOwner ''w1'' ''u1'' (Some (JArr [])) ?d3)"
  have "GetWorkerEnvByOwner ''w1'' ''u1'' one_worker_db = (Inr (Some (JObj [])), one_worker_db)"
    "SetWorkerEnvByOwner ''w1'' ''u1'' ((\<lambda>_. Some JNull) (Some (JObj []))) one_worker_db = (Inr (), ?d3)"
    "SetWorkerEnvByOwner ''w1'' ''u1'' ((\<lambda>_. Some (JArr [])) (Some (JObj []))) ?d3 = (Inr (), ?d4)"
    by (simp_all add: one_worker_simps)
  from lost_env_update [OF this(1) this(1) this(2) this(3)] show ?thesis by simp
qed

text \<open>
  C36: A batch of usage reports is all or nothing, and a batch that succeeds adds one row for each
  report in the order of the reports, with its own user, change and parsed resource id; it never
  succeeds with more than 13107 reports (65535 parameters).
\<close>

theorem batch_reports:
  "case BatchSaveCombinatorResourceReports rs d of
     (Inl e, d') \<Rightarrow> tab d' = tab d
   | (Inr _, d') \<Rightarrow> length rs \<le> 13107 \<and>
       (\<exists>rows. tab d' = (tab d)\<lparr>t_reports := t_reports (tab d) @ rows\<rparr> \<and>
          map (\<lambda>w. (rr_user_uid w, Some (rr_resource_id w), rr_datachange w)) rows =
          map (\<lambda>r. (rp_UserID r, pg_integer (PStr (rp_ResourceID r)), rp_DataChange r)) rs)"
proof (cases "BatchSaveCombinatorResourceReports rs d")
  case (Pair r d')
  show ?thesis
  proof (cases r)
    case (Inl e)
    with Pair show ?thesis by (simp add: batch_err)
  next
    case (Inr u)
    from batch_ok [OF Pair [unfolded Inr]] obtain rows where
      rows: "tab d' = (tab d)\<lparr>t_reports := t_reports (tab d) @ rows\<rparr>" "length rows = length rs"
        "length rs \<le> 13107"
      and row: "\<forall>k < length rs. rr_user_uid (rows ! k) = rp_UserID (rs ! k) \<and>
         rr_datachange (rows ! k) = rp_DataChange (rs ! k) \<and>
         pg_integer (PStr (rp_ResourceID (rs ! k))) = Some (rr_resource_id (rows ! k))" by blast
    have "map (\<lambda>w. (rr_user_uid w, Some (rr_resource_id w), rr_datachange w)) rows =
          map (\<lambda>r. (rp_UserID r, pg_integer (PStr (rp_ResourceID r)), rp_DataChange r)) rs"
      using rows(2) row by (intro nth_equalityI) simp_all
    with rows Pair Inr show ?thesis by auto
  qed
qed

section \<open>Users are only added\<close>

definition grows :: "tables \<Rightarrow> tables \<Rightarrow> bool" where
  "grows t t' \<longleftrightarrow> (\<exists>us. map usr_UID (t_users t') = map usr_UID (t_users t) @ us)"

lemma grows_refl: "reflp grows" and grows_trans: "transp grows"
  by (auto simp: grows_def intro!: reflpI transpI)

lemma grows_same: "t_users t' = t_users t \<Longrightarrow> grows t t'"
  by (simp add: grows_def)

lemma uids_updated: "(\<And>u. usr_UID (f u) = usr_UID u) \<Longrightarrow> map usr_UID (update_where p f us) = map usr_UID us"
  by (simp add: update_where_def)

lemma tab_moves_found [tab_moves_intros]: "reflp P \<Longrightarrow> tab_moves P (found_rows n)"
  by (simp add: found_rows_def tab_moves_def reflp_def)

lemma tab_moves_reports [tab_moves_intros]:
  assumes "reflp P" and "\<And>t rs. P t (t\<lparr>t_reports := t_reports t @ rs\<rparr>)"
  shows "tab_moves P (insert_reports qs ps)" "tab_moves P (BatchSaveCombinatorResourceReports rs)"
proof -
  show "tab_moves P (insert_reports qs ps)" for qs ps
    unfolding insert_reports_def using assms
    by (auto intro!: tab_moves_intros simp: Let_def split: option.split if_splits)
  then show "tab_moves P (BatchSaveCombinatorResourceReports rs)"
    using assms(1) by (auto simp: BatchSaveCombinatorResourceReports_def tab_moves_def reflp_def split: prod.split)
qed

lemma ran_grows: "ran op d d' \<Longrightarrow> tab_moves grows op \<Longrightarrow> grows (tab d) (tab d')"
  by (auto simp: ran_def tab_moves_def)

lemmas every_op_def = GetVerificationCode_def MarkCodeUsed_def SaveVerificationCode_def CreateUser_def
  GetUserByEmail_def UpdateUserPassword_def GetUserSecretKey_def ListUserUIDsPaged_def CreateWorker_def
  ListWorkersByUser_def GetWorkerByOwner_def GetWorkerEnvByOwner_def SetWorkerEnvByOwner_def
  GetWorkerSecretsByOwner_def SetWorkerSecretsByOwner_def DeleteWorkerByOwner_def UpdateWorkerStatus_def
  UpdateDeployVersionStatus_def ListDeployVersions_def CreateDeployVersionForOwner_def update_loading_def
  insert_version_def GetDeployVersionWithWorker_def DeployVersionSuccess_def CreateCustomDomain_def
  GetCustomDomain_def ListCustomDomains_def UpdateCustomDomainStatus_def DeleteCustomDomain_def
  ListAllSuccessDomains_def CreateCombinatorResource_def GetCombinatorResource_def ListCombinatorResources_def
  ListActiveCombinatorResources_def UpdateCombinatorResourceStatus_def DeleteCombinatorResource_def
  SaveCombinatorResourceReport_def CalculateDataChangeSum_def CreateTask_def UpdateTaskStatus_def
  GetAllPendingTasks_def

lemma grows_users [simp]:
  "grows t (t\<lparr>t_users := update_where p (\<lambda>u. u\<lparr>usr_PasswordHash := h\<rparr>) (t_users t)\<rparr>)"
  "grows t (t\<lparr>t_users := t_users t @ us\<rparr>)"
  by (simp_all add: grows_def uids_updated)

lemma db_step_grows: "db_step d d' \<Longrightarrow> grows (tab d) (tab d')"
proof (induction rule: db_step.induct)
  case (clock d' d now fs)
  then show ?case by (simp add: grows_same)
qed (erule ran_grows; auto simp: every_op_def delete_cascade_def Let_def set_by_owner_def grows_same
      intro!: tab_moves_intros grows_refl grows_trans split: if_splits sum.splits option.splits prod.splits)+

end
