(* ===== verification/Sha256.thy ===== *)
theory Sha256
  imports Prelude "HOL-Library.Word"
begin

text \<open>
  The parts of Go's standard library behind the signatures and keys of \<open>handlers/auth.utils.go\<close>:
  \<open>crypto/sha256\<close>, \<open>crypto/hmac\<close> and \<open>base64.RawURLEncoding\<close>, on lists of bytes, with the
  lengths of their results and the injectivity of the encoding.
\<close>

unbundle bit_operations_syntax

type_synonym bytes = "8 word list"

definition bytes_of :: "string \<Rightarrow> bytes" where
  "bytes_of s = map (\<lambda>c. word_of_nat (byte c)) s"

lemma length_bytes_of [simp]: "length (bytes_of s) = length s"
  by (simp add: bytes_of_def)

lemma bytes_of_inject: "bytes_of s = bytes_of t \<longleftrightarrow> s = t"
proof -
  have "inj (\<lambda>c. word_of_nat (byte c) :: 8 word)"
  proof (rule injI)
    fix a b assume "(word_of_nat (byte a) :: 8 word) = word_of_nat (byte b)"
    then have "unat (word_of_nat (byte a) :: 8 word) = unat (word_of_nat (byte b) :: 8 word)" by simp
    then have "byte a mod 256 = byte b mod 256" by (simp add: unat_of_nat)
    then show "a = b" by (simp add: byte_inject)
  qed
  then show ?thesis by (simp add: bytes_of_def inj_map_eq_map)
qed

section \<open>SHA-256\<close>

definition sha_k :: "32 word list" where
  "sha_k = [
    1116352408, 1899447441, 3049323471, 3921009573, 961987163, 1508970993, 2453635748, 2870763221,
    3624381080, 310598401, 607225278, 1426881987, 1925078388, 2162078206, 2614888103, 3248222580,
    3835390401, 4022224774, 264347078, 604807628, 770255983, 1249150122, 1555081692, 1996064986,
    2554220882, 2821834349, 2952996808, 3210313671, 3336571891, 3584528711, 113926993, 338241895,
    666307205, 773529912, 1294757372, 1396182291, 1695183700, 1986661051, 2177026350, 2456956037,
    2730485921, 2820302411, 3259730800, 3345764771, 3516065817, 3600352804, 4094571909, 275423344,
    430227734, 506948616, 659060556, 883997877, 958139571, 1322822218, 1537002063, 1747873779,
    1955562222, 2024104815, 2227730452, 2361852424, 2428436474, 2756734187, 3204031479, 3329325298]"

type_synonym sha_state =
  "32 word \<times> 32 word \<times> 32 word \<times> 32 word \<times> 32 word \<times> 32 word \<times> 32 word \<times> 32 word"

definition sha_init :: sha_state where
  "sha_init = (1779033703, 3144134277, 1013904242, 2773480762,
               1359893119, 2600822924, 528734635, 1541459225)"

definition sha_round :: "32 word \<times> 32 word \<Rightarrow> sha_state \<Rightarrow> sha_state" where
  "sha_round kw st = (case kw of (k, w) \<Rightarrow> case st of (a, b, c, d, e, f, g, h) \<Rightarrow>
     (let s1 = word_rotr 6 e XOR word_rotr 11 e XOR word_rotr 25 e;
          ch = (e AND f) XOR ((NOT e) AND g);
          t1 = h + s1 + ch + k + w;
          s0 = word_rotr 2 a XOR word_rotr 13 a XOR word_rotr 22 a;
          maj = (a AND b) XOR (a AND c) XOR (b AND c);
          t2 = s0 + maj
      in (t1 + t2, a, b, c, d + t1, e, f, g)))"

fun sha_schedule :: "nat \<Rightarrow> 32 word list \<Rightarrow> 32 word list" where
  "sha_schedule 0 w = w"
| "sha_schedule (Suc n) w =
     (let i = length w; x = w ! (i - 15); y = w ! (i - 2);
          s0 = word_rotr 7 x XOR word_rotr 18 x XOR drop_bit 3 x;
          s1 = word_rotr 17 y XOR word_rotr 19 y XOR drop_bit 10 y
      in sha_schedule n (w @ [w ! (i - 16) + s0 + w ! (i - 7) + s1]))"

fun be_words :: "bytes \<Rightarrow> 32 word list" where
  "be_words (a # b # c # d # r) =
     (push_bit 24 (ucast a) OR push_bit 16 (ucast b) OR push_bit 8 (ucast c) OR ucast d) # be_words r"
| "be_words _ = []"

definition sha_block :: "bytes \<Rightarrow> sha_state \<Rightarrow> sha_state" where
  "sha_block blk st =
     (case (fold sha_round (zip sha_k (sha_schedule 48 (be_words blk))) st, st) of
        ((a, b, c, d, e, f, g, h), (a', b', c', d', e', f', g', h')) \<Rightarrow>
          (a + a', b + b', c + c', d + d', e + e', f + f', g + g', h + h'))"

definition sha_pad :: "bytes \<Rightarrow> bytes" where
  "sha_pad m =
     (let n = length m; z = (119 - n mod 64) mod 64
      in m @ [0x80] @ replicate z 0 @
         map (\<lambda>k. word_of_nat ((8 * n) div 256 ^ k)) (rev [0..<8]))"

fun sha_blocks :: "nat \<Rightarrow> bytes \<Rightarrow> sha_state \<Rightarrow> sha_state" where
  "sha_blocks 0 m st = st"
| "sha_blocks (Suc n) m st = sha_blocks n (drop 64 m) (sha_block (take 64 m) st)"

definition word_bytes :: "32 word \<Rightarrow> bytes" where
  "word_bytes w = [ucast (drop_bit 24 w), ucast (drop_bit 16 w), ucast (drop_bit 8 w), ucast w]"

definition sha256 :: "bytes \<Rightarrow> bytes" where
  "sha256 m =
     (let p = sha_pad m
      in case sha_blocks (length p div 64) p sha_init of (a, b, c, d, e, f, g, h) \<Rightarrow>
        concat (map word_bytes [a, b, c, d, e, f, g, h]))"

lemma length_sha256 [simp]: "length (sha256 m) = 32"
  by (simp add: sha256_def Let_def word_bytes_def split: prod.splits)

text \<open>The padding fills whole blocks of 64 bytes.\<close>

lemma sha_pad_blocks: "length (sha_pad m) mod 64 = 0"
proof -
  define q r where "q = length m div 64" and "r = length m mod 64"
  then have n: "length m = 64 * q + r" and r: "r < 64" by simp_all
  have "(119 - r) mod 64 = (if r \<le> 55 then 55 - r else 119 - r)"
    using r mod_add_self2 [of "55 - r" "64 :: nat"] by (auto simp del: mod_add_self2)
  then have "length (sha_pad m) = 64 * q + (if r \<le> 55 then 64 else 128)"
    using n r by (auto simp: sha_pad_def Let_def)
  then show ?thesis by (simp add: mod_mult_self4 split: if_splits)
qed

section \<open>HMAC\<close>

definition hmac_key :: "bytes \<Rightarrow> bytes" where
  "hmac_key k = (let k' = (if 64 < length k then sha256 k else k)
                 in k' @ replicate (64 - length k') 0)"

definition hmac_sha256 :: "bytes \<Rightarrow> bytes \<Rightarrow> bytes" where
  "hmac_sha256 k m =
     (let key = hmac_key k
      in sha256 (map (\<lambda>b. b XOR 0x5c) key @ sha256 (map (\<lambda>b. b XOR 0x36) key @ m)))"

lemma length_hmac [simp]: "length (hmac_sha256 k m) = 32"
  by (simp add: hmac_sha256_def Let_def)

lemma length_hmac_key: "length (hmac_key k) = 64"
  by (simp add: hmac_key_def Let_def)

section \<open>Base64, URL alphabet, no padding\<close>

definition b64_char :: "nat \<Rightarrow> char" where
  "b64_char d = (if d < 26 then char_of (65 + d)
                 else if d < 52 then char_of (71 + d)
                 else if d < 62 then char_of (d - 4)
                 else if d = 62 then CHR ''-'' else CHR ''_'')"

fun base64_url :: "bytes \<Rightarrow> string" where
  "base64_url [] = []"
| "base64_url [a] = [b64_char (unat a div 4), b64_char (unat a mod 4 * 16)]"
| "base64_url [a, b] =
     [b64_char (unat a div 4), b64_char (unat a mod 4 * 16 + unat b div 16),
      b64_char (unat b mod 16 * 4)]"
| "base64_url (a # b # c # r) =
     b64_char (unat a div 4) # b64_char (unat a mod 4 * 16 + unat b div 16) #
     b64_char (unat b mod 16 * 4 + unat c div 64) # b64_char (unat c mod 64) # base64_url r"

definition is_b64 :: "char \<Rightarrow> bool" where
  "is_b64 c \<longleftrightarrow> is_upper c \<or> is_lower c \<or> is_digit c \<or> c = CHR ''-'' \<or> c = CHR ''_''"

lemma is_b64_char: "is_b64 (b64_char d)"
  by (auto simp: is_b64_def b64_char_def is_upper_def is_lower_def is_digit_def)

lemma base64_alphabet: "c \<in> set (base64_url bs) \<Longrightarrow> is_b64 c"
  by (induction bs rule: base64_url.induct) (auto simp: is_b64_char)

lemma length_base64: "length (base64_url bs) = (4 * length bs + 2) div 3"
  by (induction bs rule: base64_url.induct) simp_all

lemma byte_b64_char:
  "d < 64 \<Longrightarrow> byte (b64_char d) =
     (if d < 26 then 65 + d else if d < 52 then 71 + d else if d < 62 then d - 4
      else if d = 62 then 45 else 95)"
  by (simp add: b64_char_def) (simp add: byte_def)

lemma b64_char_inject: "c < 64 \<Longrightarrow> d < 64 \<Longrightarrow> b64_char c = b64_char d \<longleftrightarrow> c = d"
proof -
  assume "c < 64" "d < 64"
  moreover have "b64_char c = b64_char d \<longleftrightarrow> byte (b64_char c) = byte (b64_char d)"
    by (simp add: byte_inject)
  ultimately show ?thesis by (auto simp: byte_b64_char split: if_splits)
qed

lemma unat_byte: "unat (a :: 8 word) < 256"
  using unsigned_less [of a] by simp

lemma sextets [simp]:
  "unat (a :: 8 word) div 4 < 64" "unat (a :: 8 word) mod 4 * 16 + unat (b :: 8 word) div 16 < 64"
  "unat (b :: 8 word) mod 16 * 4 + unat (c :: 8 word) div 64 < 64" "unat (c :: 8 word) mod 64 < 64"
  "unat (a :: 8 word) mod 4 * 16 < 64" "unat (b :: 8 word) mod 16 * 4 < 64"
  using unat_byte [of a] unat_byte [of b] unat_byte [of c] by linarith+

lemma mult_add_inject:
  fixes x y x' y' k :: nat
  assumes "x * k + y = x' * k + y'" and "y < k" and "y' < k"
  shows "x = x' \<and> y = y'"
proof -
  have "(x * k + y) div k = x" using assms(2) by simp
  moreover have "(x' * k + y') div k = x'" using assms(3) by simp
  ultimately have "x = x'" using assms(1) by metis
  with assms(1) show ?thesis by simp
qed

lemma triple_inject:
  fixes a b c a' b' c' :: nat
  assumes "a < 256" "b < 256" "c < 256" "a' < 256" "b' < 256" "c' < 256"
    and "a div 4 = a' div 4" and "a mod 4 * 16 + b div 16 = a' mod 4 * 16 + b' div 16"
    and "b mod 16 * 4 + c div 64 = b' mod 16 * 4 + c' div 64" and "c mod 64 = c' mod 64"
  shows "a = a' \<and> b = b' \<and> c = c'"
proof -
  have b: "b div 16 < 16" "b' div 16 < 16" and c: "c div 64 < 4" "c' div 64 < 4"
    using assms(2,3,5,6) by linarith+
  have ab: "a mod 4 = a' mod 4 \<and> b div 16 = b' div 16"
    using assms(8) b by (rule mult_add_inject)
  have bc: "b mod 16 = b' mod 16 \<and> c div 64 = c' div 64"
    using assms(9) c by (rule mult_add_inject)
  have "a = a'" using assms(7) ab div_mult_mod_eq [of a 4] div_mult_mod_eq [of a' 4] by metis
  moreover have "b = b'" using ab bc div_mult_mod_eq [of b 16] div_mult_mod_eq [of b' 16] by metis
  moreover have "c = c'" using assms(10) bc div_mult_mod_eq [of c 64] div_mult_mod_eq [of c' 64]
    by metis
  ultimately show ?thesis by simp
qed

lemma base64_inject: "length xs = length ys \<Longrightarrow> base64_url xs = base64_url ys \<Longrightarrow> xs = ys"
proof (induction xs arbitrary: ys rule: base64_url.induct)
  case 1
  then show ?case by simp
next
  case (2 a)
  then obtain a' where ys: "ys = [a']" by (cases ys) auto
  with 2 have "unat a div 4 = unat a' div 4" "unat a mod 4 * 16 = unat a' mod 4 * 16"
    by (simp_all add: b64_char_inject)
  with triple_inject [of "unat a" 0 0 "unat a'" 0 0] ys show ?case
    by (simp add: unat_byte word_unat_eq_iff)
next
  case (3 a b)
  from "3.prems"(1) obtain a' b' where ys: "ys = [a', b']"
    by (auto simp: length_Suc_conv eq_commute [of "Suc (Suc 0)"])
  with 3 triple_inject [of "unat a" "unat b" 0 "unat a'" "unat b'" 0] show ?case
    by (simp add: unat_byte word_unat_eq_iff b64_char_inject)
next
  case (4 a b c r)
  from "4.prems"(1) obtain a' b' c' r' where ys: "ys = a' # b' # c' # r'" and "length r' = length r"
    by (auto simp: length_Suc_conv Suc_length_conv)
  with 4 triple_inject [of "unat a" "unat b" "unat c" "unat a'" "unat b'" "unat c'"]
  show ?case by (simp add: unat_byte word_unat_eq_iff b64_char_inject)
qed

end
