(* ===== verification/Identity.thy ===== *)
theory Identity
  imports Sha256
begin

text \<open>
  \<open>handlers/auth.utils.go\<close>: the identifiers, codes, keys and signatures the program makes.  The
  random source is an argument: the bytes that \<open>rand.Read\<close> fills in.  \<open>bcrypt\<close> and the JWT
  library are parameters of the operations that call them.
\<close>

unbundle bit_operations_syntax

section \<open>User ids\<close>

definition wordList :: "string list" where
  "wordList = [
    ''apple'', ''banana'', ''cherry'', ''dragon'', ''eagle'',
    ''falcon'', ''grape'', ''honey'', ''ivory'', ''jungle'',
    ''koala'', ''lemon'', ''mango'', ''noble'', ''ocean'',
    ''panda'', ''queen'', ''river'', ''storm'', ''tiger'',
    ''ultra'', ''vivid'', ''whale'', ''xenon'', ''yacht'',
    ''zebra'', ''alpha'', ''brave'', ''coral'', ''delta'',
    ''ember'', ''frost'', ''ghost'', ''haven'', ''index'',
    ''joker'', ''karma'', ''lunar'', ''maple'', ''nexus'',
    ''orbit'', ''pixel'', ''quest'', ''radar'', ''solar'',
    ''terra'', ''unity'', ''venom'', ''wired'', ''zesty'']"

text \<open>The loop for the position of the first \<open>@\<close>, 0 when there is none.\<close>

fun at_index :: "string \<Rightarrow> nat \<Rightarrow> nat" where
  "at_index [] i = 0"
| "at_index (c # cs) i = (if c = CHR ''@'' then i else at_index cs (i + 1))"

definition email_letters :: "string \<Rightarrow> string" where
  "email_letters email =
     (let i = at_index email 0
      in if 0 < i then map lower_char (filter (\<lambda>c. is_lower c \<or> is_upper c) (take i email)) else [])"

definition uid_prefix :: "string \<Rightarrow> 8 word \<Rightarrow> string" where
  "uid_prefix email r =
     (let letters = email_letters email
      in if 4 \<le> length letters
         then take (if length letters < 6 then length letters else 6) letters
         else wordList ! (unat r mod length wordList))"

text \<open>The 64-bit \<open>int\<close> made of four random bytes; \<open>mod\<close> is \<open>10 ^ digitCount\<close>, made by the loop.\<close>

definition random_num :: "8 word \<Rightarrow> 8 word \<Rightarrow> 8 word \<Rightarrow> 8 word \<Rightarrow> int" where
  "random_num b0 b1 b2 b3 =
     (let n = push_bit 24 (ucast b0) OR push_bit 16 (ucast b1) OR push_bit 8 (ucast b2)
                OR (ucast b3 :: 64 word)
      in sint (if n <s 0 then - n else n))"

fun mod_loop :: "nat \<Rightarrow> int \<Rightarrow> int" where
  "mod_loop 0 m = m"
| "mod_loop (Suc n) m = mod_loop n (m * 10)"

text \<open>\<open>r\<close> is the byte that picks a word; it is read only when the email has too few letters.\<close>

definition GenerateUID :: "string \<Rightarrow> 8 word \<Rightarrow> 8 word \<times> 8 word \<times> 8 word \<times> 8 word \<Rightarrow> string" where
  "GenerateUID email r bs =
     (case bs of (b0, b1, b2, b3) \<Rightarrow>
       let prefix = uid_prefix email r;
           digitCount = 12 - length prefix;
           randomNum = random_num b0 b1 b2 b3 mod mod_loop digitCount 1
       in prefix @ pad0 digitCount (dec_int randomNum))"

section \<open>Resource ids\<close>

definition hex_byte :: "8 word \<Rightarrow> string" where
  "hex_byte b = [hex_digit (unat b div 16), hex_digit (unat b mod 16)]"

text \<open>\<open>%x\<close> of the eight random bytes.\<close>

definition GenerateResourceUID :: "bytes \<Rightarrow> string" where
  "GenerateResourceUID bs = concat (map hex_byte (take 8 bs))"

section \<open>Codes, keys, signatures\<close>

definition GenerateCode :: "int \<Rightarrow> string" where
  "GenerateCode unixNano = pad0 6 (dec_int (unixNano mod 1000000))"

definition GenerateSecretKey :: "bytes \<Rightarrow> string" where
  "GenerateSecretKey bs = ''sk_'' @ base64_url (take 24 bs)"

definition GenerateHMACSignature :: "string \<Rightarrow> string \<Rightarrow> string" where
  "GenerateHMACSignature secretKey data = base64_url (hmac_sha256 (bytes_of secretKey) (bytes_of data))"

definition VerifyHMACSignature :: "string \<Rightarrow> string \<Rightarrow> string \<Rightarrow> err option" where
  "VerifyHMACSignature secretKey data signature =
     (if GenerateHMACSignature secretKey data \<noteq> signature then Some (Errorf ''invalid signature'')
      else None)"

section \<open>Passwords and tokens\<close>

text \<open>\<open>bcrypt.GenerateFromPassword\<close> (with its salt) and \<open>CompareHashAndPassword\<close>.\<close>

record bcrypt =
  bc_generate :: "string \<Rightarrow> int \<Rightarrow> bytes \<Rightarrow> err + string"
  bc_compare :: "string \<Rightarrow> string \<Rightarrow> bool"

definition HashPassword :: "bcrypt \<Rightarrow> string \<Rightarrow> bytes \<Rightarrow> err + string" where
  "HashPassword bc password salt = bc_generate bc password 12 salt"

definition CheckPassword :: "bcrypt \<Rightarrow> string \<Rightarrow> string \<Rightarrow> bool" where
  "CheckPassword bc password hash = bc_compare bc hash password"

text \<open>
  The JWT library: signing claims under a key, and parsing a token under a key at a time (the
  claims and whether it is valid).  Claims are JSON members.
\<close>

record 'c jwt =
  jwt_sign :: "string \<Rightarrow> 'c \<Rightarrow> err + string"
  jwt_parse :: "string \<Rightarrow> int \<Rightarrow> string \<Rightarrow> err + 'c \<times> bool"

text \<open>\<open>JWTSecret\<close> is declared and never assigned: the key is the empty byte slice.\<close>

definition JWTSecret :: string where
  "JWTSecret = []"

text \<open>The claim \<open>exp\<close> counts seconds; times here are nanoseconds.\<close>

record claims =
  cl_user_id :: "string option"
  cl_email :: string
  cl_exp :: int

definition GenerateToken :: "claims jwt \<Rightarrow> string \<Rightarrow> string \<Rightarrow> int \<Rightarrow> err + string" where
  "GenerateToken j userID email now =
     jwt_sign j JWTSecret
       \<lparr>cl_user_id = Some userID, cl_email = email,
        cl_exp = (now + 24 * 3600 * 1000000000) div 1000000000\<rparr>"

definition ValidateToken :: "claims jwt \<Rightarrow> int \<Rightarrow> string \<Rightarrow> err + string" where
  "ValidateToken j now tokenString =
     (case jwt_parse j JWTSecret now tokenString of
        Inl e \<Rightarrow> Inl e
      | Inr (claims, valid) \<Rightarrow>
          if valid
          then (case cl_user_id claims of
                  None \<Rightarrow> Inl (Errorf ''invalid token claims'')
                | Some userID \<Rightarrow> Inr userID)
          else Inl (Errorf ''invalid token''))"

section \<open>The random number and the words\<close>

lemma shifted_byte_small:
  assumes "k \<le> 24"
  shows "take_bit 32 (push_bit k (ucast (b :: 8 word)) :: 64 word) = push_bit k (ucast b)"
proof (rule bit_word_eqI)
  fix n
  show "bit (take_bit 32 (push_bit k (ucast b)) :: 64 word) n = bit (push_bit k (ucast b) :: 64 word) n"
    using assms bit_imp_le_length [of b "n - k"] by (auto simp: bit_simps)
qed

lemma random_word_small:
  "take_bit 32 (push_bit 24 (ucast (b0 :: 8 word)) OR push_bit 16 (ucast (b1 :: 8 word)) OR
     push_bit 8 (ucast (b2 :: 8 word)) OR (ucast (b3 :: 8 word) :: 64 word)) =
   push_bit 24 (ucast b0) OR push_bit 16 (ucast b1) OR push_bit 8 (ucast b2) OR (ucast b3 :: 64 word)"
  using shifted_byte_small [of 24 b0] shifted_byte_small [of 16 b1] shifted_byte_small [of 8 b2]
    shifted_byte_small [of 0 b3] by (simp only: take_bit_or) simp

lemma sint_small: "take_bit 32 (n :: 64 word) = n \<Longrightarrow> 0 \<le> sint n \<and> sint n < 2 ^ 32"
proof -
  assume n: "take_bit 32 n = n"
  have "uint n = take_bit 32 (uint n)" by (metis n unsigned_take_bit_eq)
  then have u: "uint n < 2 ^ 32" by (metis take_bit_int_less_exp)
  moreover have "- 9223372036854775808 \<le> uint n" using uint_nonnegative [of n] by linarith
  ultimately have "sint n = uint n" by (simp add: sint_uint signed_take_bit_int_eq_self_iff)
  with u show ?thesis by simp
qed

lemma random_num_range: "0 \<le> random_num b0 b1 b2 b3 \<and> random_num b0 b1 b2 b3 < 2 ^ 32"
  using sint_small [OF random_word_small [of b0 b1 b2 b3]]
  by (simp add: random_num_def Let_def word_sless_alt)

lemma mod_loop_pow: "mod_loop n m = m * 10 ^ n"
  by (induction n arbitrary: m) simp_all

lemma wordList_ok: "list_all (\<lambda>w. 4 \<le> length w \<and> length w \<le> 6 \<and> list_all is_lower w) wordList"
  by (simp add: wordList_def is_lower_def byte_def)

lemma length_wordList: "length wordList = 50"
  by (simp add: wordList_def)

section \<open>Shape of the identifiers\<close>

lemma email_letters_lower: "c \<in> set (email_letters email) \<Longrightarrow> is_lower c"
  by (auto simp: email_letters_def Let_def is_lower_lower_char lower_char_id lower_not_upper
      split: if_splits)

lemma uid_prefix_ok:
  "4 \<le> length (uid_prefix email r) \<and> length (uid_prefix email r) \<le> 6 \<and>
   (\<forall>c \<in> set (uid_prefix email r). is_lower c)"
proof (cases "4 \<le> length (email_letters email)")
  case True
  then show ?thesis
    by (auto simp: uid_prefix_def Let_def dest: in_set_takeD email_letters_lower)
next
  case False
  have "unat r mod length wordList < length wordList" by (simp add: length_wordList)
  with wordList_ok have "(\<lambda>w. 4 \<le> length w \<and> length w \<le> 6 \<and> list_all is_lower w)
      (wordList ! (unat r mod length wordList))" by (simp add: list_all_length)
  with False show ?thesis by (simp add: uid_prefix_def Let_def list_all_iff)
qed

definition uid_digits :: "string \<Rightarrow> 8 word \<Rightarrow> 8 word \<times> 8 word \<times> 8 word \<times> 8 word \<Rightarrow> string" where
  "uid_digits email r bs = drop (length (uid_prefix email r)) (GenerateUID email r bs)"

lemma uid_split:
  "GenerateUID email r bs = uid_prefix email r @ uid_digits email r bs \<and>
   length (uid_digits email r bs) = 12 - length (uid_prefix email r) \<and>
   (\<forall>c \<in> set (uid_digits email r bs). is_digit c)"
proof -
  obtain b0 b1 b2 b3 where bs: "bs = (b0, b1, b2, b3)" by (cases bs)
  define k where "k = 12 - length (uid_prefix email r)"
  have k: "0 < k" using uid_prefix_ok [of email r] by (simp add: k_def)
  define n where "n = nat (random_num b0 b1 b2 b3 mod 10 ^ k)"
  have m: "mod_loop k 1 = 10 ^ k" by (simp add: mod_loop_pow)
  have nn: "0 \<le> random_num b0 b1 b2 b3 mod 10 ^ k" by simp
  have uid: "GenerateUID email r bs = uid_prefix email r @ pad0 k (dec n)"
    by (simp add: GenerateUID_def bs Let_def k_def [symmetric] m dec_int_def n_def leD [OF nn])
  have "random_num b0 b1 b2 b3 mod 10 ^ k < 10 ^ k" by simp
  with nn have "n < 10 ^ k" unfolding n_def by (simp add: nat_less_iff)
  then have "length (dec n) \<le> k" using k by (rule length_dec)
  then have "length (pad0 k (dec n)) = k" by (rule length_pad0)
  with uid show ?thesis by (auto simp: uid_digits_def k_def dest: pad0_digits)
qed

lemma hex_byte_inject: "hex_byte a = hex_byte b \<longleftrightarrow> a = b"
proof
  assume "hex_byte a = hex_byte b"
  then have "unat a div 16 = unat b div 16" "unat a mod 16 = unat b mod 16"
    using unat_byte [of a] unat_byte [of b]
    by (auto simp: hex_byte_def hex_digit_inject less_mult_imp_div_less)
  then show "a = b" by (metis div_mult_mod_eq word_unat_eq_iff)
qed simp

lemma concat_hex_inject:
  "concat (map hex_byte xs) = concat (map hex_byte ys) \<longleftrightarrow> xs = ys"
proof (induction xs arbitrary: ys)
  case Nil
  then show ?case by (cases ys) (simp_all add: hex_byte_def)
next
  case (Cons a xs)
  show ?case
  proof (cases ys)
    case Nil
    then show ?thesis by (simp add: hex_byte_def)
  next
    case ys: (Cons b zs)
    have "length (hex_byte a) = length (hex_byte b)" by (simp add: hex_byte_def)
    with ys Cons.IH [of zs] hex_byte_inject [of a b] show ?thesis by simp
  qed
qed

lemma resource_uid_ok:
  "length bs = 8 \<Longrightarrow> length (GenerateResourceUID bs) = 16 \<and>
     (\<forall>c \<in> set (GenerateResourceUID bs). is_digit c \<or> is_lower c)"
proof -
  assume l: "length bs = 8"
  have "length (concat (map hex_byte xs)) = 2 * length xs" for xs
    by (induction xs) (simp_all add: hex_byte_def)
  moreover have "is_digit c \<or> is_lower c" if "c \<in> set (hex_byte b)" for b c
  proof -
    have "unat b div 16 < 16" "unat b mod 16 < 16"
      using unat_byte [of b] by (simp_all add: less_mult_imp_div_less)
    with that show ?thesis
      by (auto simp: hex_byte_def is_digit_def is_lower_def byte_hex_digit split: if_splits)
  qed
  ultimately show ?thesis using l by (auto simp: GenerateResourceUID_def)
qed

lemma secret_key_length: "length bs = 24 \<Longrightarrow> length (GenerateSecretKey bs) = 35"
  by (simp add: GenerateSecretKey_def length_base64)

lemma verify_iff:
  "VerifyHMACSignature sk data sig = None \<longleftrightarrow> sig = GenerateHMACSignature sk data"
  by (auto simp: VerifyHMACSignature_def)

lemma signature_length: "length (GenerateHMACSignature sk data) = 43"
  by (simp add: GenerateHMACSignature_def length_base64)

section \<open>Properties\<close>

text \<open>
  A user id is 12 characters: four to six lower-case letters followed by digits, whatever the
  email and the random bytes.
\<close>

theorem uid_shape:
  "\<exists>p ds. GenerateUID email r bs = p @ ds \<and> 4 \<le> length p \<and> length p \<le> 6 \<and>
     length (p @ ds) = 12 \<and> list_all is_lower p \<and> list_all is_digit ds"
  using uid_split [of email r bs] uid_prefix_ok [of email r]
  by (intro exI [of _ "uid_prefix email r"] exI [of _ "uid_digits email r bs"]) (auto simp: list_all_iff)

text \<open>
  A resource id is 16 lower-case hexadecimal digits, and different random bytes give different
  resource ids.
\<close>

theorem resource_uid_injective:
  assumes "length bs = 8" and "length bs' = 8"
  shows "length (GenerateResourceUID bs) = 16 \<and>
    (GenerateResourceUID bs = GenerateResourceUID bs' \<longleftrightarrow> bs = bs')"
  using assms resource_uid_ok [of bs] by (simp add: GenerateResourceUID_def concat_hex_inject)

theorem resource_uid_injective_witness:
  "GenerateResourceUID [1,2,3,4,5,6,7,8] \<noteq> GenerateResourceUID [1,2,3,4,5,6,7,9]"
  using resource_uid_injective [of "[1,2,3,4,5,6,7,8]" "[1,2,3,4,5,6,7,9]"] by simp

text \<open>
  A secret key is 35 characters and loses none of its 24 random bytes; a signature is 43
  characters, and only the signature of the same key and data is accepted.
\<close>

theorem secret_key_and_signature:
  assumes "length bs = 24" and "length bs' = 24"
  shows "length (GenerateSecretKey bs) = 35 \<and>
    (GenerateSecretKey bs = GenerateSecretKey bs' \<longleftrightarrow> bs = bs') \<and>
    length (GenerateHMACSignature sk data) = 43 \<and>
    (VerifyHMACSignature sk data sig = None \<longleftrightarrow> sig = GenerateHMACSignature sk data)"
  using assms secret_key_length base64_inject [of bs bs'] signature_length verify_iff
  by (auto simp: GenerateSecretKey_def)

theorem secret_key_and_signature_witness:
  "GenerateSecretKey (replicate 24 1) \<noteq> GenerateSecretKey (replicate 24 2)"
  using secret_key_and_signature [of "replicate 24 1" "replicate 24 2"] by simp

text \<open>
  The JWT library's contract: a token signed under a key and parsed under the same key before its
  expiry yields its claims as valid.
\<close>

definition jwt_law :: "claims jwt \<Rightarrow> bool" where
  "jwt_law j \<longleftrightarrow> (\<forall>k c tok now. jwt_sign j k c = Inr tok \<longrightarrow> now < cl_exp c * 1000000000 \<longrightarrow>
     jwt_parse j k now tok = Inr (c, True))"

text \<open>
  C38: A token is accepted for its own user for 24 hours (to the second), and, since the signing
  key is never set, so is any token that anyone signs under the empty key, for whichever user it names.
\<close>

theorem token_roundtrip:
  assumes "jwt_law j"
    and "GenerateToken j userID email t = Inr tok" and "now < ((t + 24 * 3600 * 1000000000) div 1000000000) * 1000000000"
    and "jwt_sign j '''' c = Inr forged" and "now < cl_exp c * 1000000000"
  shows "ValidateToken j now tok = Inr userID \<and>
    ValidateToken j now forged =
      (case cl_user_id c of None \<Rightarrow> Inl (Errorf ''invalid token claims'') | Some u \<Rightarrow> Inr u)"
proof -
  have "jwt_parse j [] now tok =
      Inr (\<lparr>cl_user_id = Some userID, cl_email = email, cl_exp = (t + 24 * 3600 * 1000000000) div 1000000000\<rparr>, True)"
    using assms(1-3) unfolding jwt_law_def GenerateToken_def JWTSecret_def by simp
  moreover have "jwt_parse j [] now forged = Inr (c, True)"
    using assms(1,4,5) unfolding jwt_law_def by blast
  ultimately show ?thesis by (simp add: ValidateToken_def JWTSecret_def)
qed

text \<open>A library of the contract's kind for the example: the token is the user's name, nothing expires.\<close>

definition toy_jwt :: "claims jwt" where
  "toy_jwt = \<lparr>
     jwt_sign = (\<lambda>k c. if cl_email c = '''' \<and> cl_exp c = 86400 then
        (case cl_user_id c of Some u \<Rightarrow> Inr u | None \<Rightarrow> Inl (Errorf ''claims'')) else Inl (Errorf ''claims'')),
     jwt_parse = (\<lambda>k now tok. Inr (\<lparr>cl_user_id = Some tok, cl_email = '''', cl_exp = 86400\<rparr>, True))\<rparr>"

lemma toy_jwt_law: "jwt_law toy_jwt"
  unfolding jwt_law_def
proof (intro allI impI)
  fix k c tok now assume "jwt_sign toy_jwt k c = Inr tok"
  then show "jwt_parse toy_jwt k now tok = Inr (c, True)"
    by (cases c) (auto simp: toy_jwt_def split: if_splits option.splits)
qed

theorem token_roundtrip_witness:
  "ValidateToken toy_jwt 5 ''u1'' = Inr ''u1''"
proof -
  have "GenerateToken toy_jwt ''u1'' '''' 0 = Inr ''u1''"
    by (simp add: GenerateToken_def toy_jwt_def)
  moreover have "jwt_sign toy_jwt '''' \<lparr>cl_user_id = Some ''u2'', cl_email = '''', cl_exp = 86400\<rparr> = Inr ''u2''"
    by (simp add: toy_jwt_def)
  ultimately show ?thesis using token_roundtrip [OF toy_jwt_law, of "''u1''" "''''" 0 "''u1''" 5] by simp
qed

end
