(* ===== verification/Rdb.thy ===== *)
theory Rdb
  imports Json
begin

text \<open>
  \<open>k8s/rdb.go\<close>: the names of a user's database, the root connection and the LRU pool of user
  connections, and the statements sent to CockroachDB.  \<open>rdb\<close> is the manager's state together
  with what it talks to: scripts for the outcomes of \<open>sql.Open\<close> and \<open>Ping\<close>, the handles that are
  open, and the database server.  A list element of \<open>container/list\<close> is an id paired with its
  value.
\<close>

section \<open>Names\<close>

definition sanitize :: "string \<Rightarrow> string" where
  "sanitize s = to_lower (replace_byte CHR ''.'' CHR ''_'' (replace_byte CHR ''-'' CHR ''_'' s))"

definition username :: "string \<Rightarrow> string" where
  "username userUID = ''user_'' @ sanitize userUID"

definition database :: "string \<Rightarrow> string" where
  "database userUID = ''db_'' @ sanitize userUID"

definition schema_name :: "string \<Rightarrow> string" where
  "schema_name schemaID = ''schema_'' @ sanitize schemaID"

definition CockroachDBHost :: string where
  "CockroachDBHost = ''cockroachdb-public.cockroachdb.svc.cluster.local''"

definition CockroachDBPort :: string where
  "CockroachDBPort = ''26257''"

definition CockroachDBAdminDSN :: string where
  "CockroachDBAdminDSN =
     ''postgresql://root@cockroachdb-public.cockroachdb.svc.cluster.local:26257?sslmode=disable''"

definition dsn :: "string \<Rightarrow> string" where
  "dsn userUID = ''postgresql://'' @ username userUID @ ''@'' @ CockroachDBHost @ '':'' @
     CockroachDBPort @ ''/'' @ database userUID @ ''?sslmode=disable''"

definition DSNWithSchema :: "string \<Rightarrow> string \<Rightarrow> string" where
  "DSNWithSchema userUID schemaID = dsn userUID @ ''&search_path='' @ schema_name schemaID"

definition DatabaseName :: "string \<Rightarrow> string" where
  "DatabaseName userUID = database userUID"

section \<open>The server\<close>

text \<open>
  The statements the program sends, their text, and what the server does with them.  A schema
  belongs to a database; \<open>c_size\<close> and \<open>c_tables\<close> are what the statistics queries answer
  (\<open>None\<close> is \<open>NULL\<close>), \<open>c_faults\<close> scripts failing statements as \<open>db_faults\<close> does, and \<open>c_log\<close>
  records every statement with the database it ran in.
\<close>

datatype stmt =
    CreateDatabase string
  | CreateUserStmt string
  | GrantDatabase string string
  | DropDatabaseStmt string
  | DropUserStmt string
  | CreateSchemaStmt string
  | GrantSchema string string
  | DropSchemaStmt string
  | Analyze string

fun stmt_text :: "stmt \<Rightarrow> string" where
  "stmt_text (CreateDatabase d) = ''CREATE DATABASE IF NOT EXISTS '' @ d"
| "stmt_text (CreateUserStmt u) = ''CREATE USER IF NOT EXISTS '' @ u"
| "stmt_text (GrantDatabase d u) = ''GRANT ALL ON DATABASE '' @ d @ '' TO '' @ u"
| "stmt_text (DropDatabaseStmt d) = ''DROP DATABASE IF EXISTS '' @ d @ '' CASCADE''"
| "stmt_text (DropUserStmt u) = ''DROP USER IF EXISTS '' @ u"
| "stmt_text (CreateSchemaStmt s) = ''CREATE SCHEMA IF NOT EXISTS '' @ s"
| "stmt_text (GrantSchema s u) = ''GRANT ALL ON SCHEMA '' @ s @ '' TO '' @ u"
| "stmt_text (DropSchemaStmt s) = ''DROP SCHEMA IF EXISTS '' @ s @ '' CASCADE''"
| "stmt_text (Analyze t) = ''ANALYZE '' @ t"

record crdb =
  c_databases :: "string list"
  c_users :: "string list"
  c_schemas :: "(string \<times> string) list"
  c_size :: "string \<Rightarrow> string option \<Rightarrow> int option"
  c_tables :: "string \<Rightarrow> (string \<times> string) list"
  c_faults :: "string option list"
  c_log :: "(string \<times> string) list"

definition add_new :: "'a \<Rightarrow> 'a list \<Rightarrow> 'a list" where
  "add_new x xs = (if x \<in> set xs then xs else xs @ [x])"

fun stmt_effect :: "string \<Rightarrow> stmt \<Rightarrow> crdb \<Rightarrow> crdb" where
  "stmt_effect cur (CreateDatabase d) c = c\<lparr>c_databases := add_new d (c_databases c)\<rparr>"
| "stmt_effect cur (CreateUserStmt u) c = c\<lparr>c_users := add_new u (c_users c)\<rparr>"
| "stmt_effect cur (DropDatabaseStmt d) c =
     c\<lparr>c_databases := removeAll d (c_databases c),
       c_schemas := filter (\<lambda>p. fst p \<noteq> d) (c_schemas c)\<rparr>"
| "stmt_effect cur (DropUserStmt u) c = c\<lparr>c_users := removeAll u (c_users c)\<rparr>"
| "stmt_effect cur (CreateSchemaStmt s) c = c\<lparr>c_schemas := add_new (cur, s) (c_schemas c)\<rparr>"
| "stmt_effect cur (DropSchemaStmt s) c = c\<lparr>c_schemas := removeAll (cur, s) (c_schemas c)\<rparr>"
| "stmt_effect cur _ c = c"

text \<open>\<open>LIKE\<close>: \<open>%\<close> matches any text, \<open>_\<close> any one character.\<close>

fun like :: "string \<Rightarrow> string \<Rightarrow> bool" where
  "like [] s = (s = [])"
| "like (p # ps) [] = (p = CHR ''%'' \<and> like ps [])"
| "like (p # ps) (c # s) =
     (if p = CHR ''%'' then like ps (c # s) \<or> like (p # ps) s
      else (p = CHR ''_'' \<or> p = c) \<and> like ps s)"

section \<open>The manager\<close>

record rdb_entry =
  e_db :: "nat option"
  e_element :: nat

text \<open>An open handle is its number with the database it is connected to.\<close>

record rdb =
  rootDB :: "nat option"
  userDBs :: "rdb_entry gomap"
  lruList :: "(nat \<times> string) list"
  next_element :: nat
  open_script :: "err option list"
  ping_script :: "bool list"
  handles :: "(nat \<times> string) list"
  next_handle :: nat
  server :: crdb

definition UserDBPoolSize :: nat where
  "UserDBPoolSize = 64"

definition newRootRDBManager :: "err option list \<Rightarrow> bool list \<Rightarrow> crdb \<Rightarrow> rdb" where
  "newRootRDBManager os ps c =
     \<lparr>rootDB = None, userDBs = [], lruList = [], next_element = 0, open_script = os,
      ping_script = ps, handles = [], next_handle = 0, server = c\<rparr>"

type_synonym 'a rdbop = "rdb \<Rightarrow> (err + 'a) \<times> rdb"

definition sql_Open :: "string \<Rightarrow> nat rdbop" where
  "sql_Open dbname s =
     (case open_script s of
        Some e # os \<Rightarrow> (Inl e, s\<lparr>open_script := os\<rparr>)
      | os \<Rightarrow> (Inr (next_handle s),
               s\<lparr>open_script := tl os, handles := handles s @ [(next_handle s, dbname)],
                 next_handle := next_handle s + 1\<rparr>))"

text \<open>A closed handle does not answer; an open one answers by the script (and after its end).\<close>

definition ping :: "nat \<Rightarrow> rdb \<Rightarrow> bool \<times> rdb" where
  "ping h s =
     (if h \<notin> fst ` set (handles s) then (False, s)
      else case ping_script s of [] \<Rightarrow> (True, s) | b # bs \<Rightarrow> (b, s\<lparr>ping_script := bs\<rparr>))"

definition close_handle :: "nat \<Rightarrow> rdb \<Rightarrow> rdb" where
  "close_handle h s = s\<lparr>handles := filter (\<lambda>p. fst p \<noteq> h) (handles s)\<rparr>"

text \<open>The loop of at most three attempts: open, ping, close on failure.\<close>

fun connect_loop :: "nat \<Rightarrow> string \<Rightarrow> string \<Rightarrow> nat rdbop" where
  "connect_loop 0 dbname unreachable s = (Inl (Errorf unreachable), s)"
| "connect_loop (Suc n) dbname unreachable s =
     (case sql_Open dbname s of
        (Inl e, s1) \<Rightarrow> (Inl (Wrap ''sql.Open failed'' e), s1)
      | (Inr h, s1) \<Rightarrow>
          (case ping h s1 of
             (True, s2) \<Rightarrow> (Inr h, s2)
           | (False, s2) \<Rightarrow> connect_loop n dbname unreachable (close_handle h s2)))"

subsection \<open>The pool of user connections\<close>

text \<open>\<open>list.MoveToFront\<close> of an element that is no longer in the list does nothing.\<close>

definition move_front :: "nat \<Rightarrow> (nat \<times> 'v) list \<Rightarrow> (nat \<times> 'v) list" where
  "move_front i l = filter (\<lambda>p. fst p = i) l @ filter (\<lambda>p. fst p \<noteq> i) l"

definition list_remove :: "nat \<Rightarrow> (nat \<times> 'v) list \<Rightarrow> (nat \<times> 'v) list" where
  "list_remove i l = filter (\<lambda>p. fst p \<noteq> i) l"

definition entry_close :: "rdb_entry \<Rightarrow> rdb \<Rightarrow> rdb" where
  "entry_close e s = (case e_db e of None \<Rightarrow> s | Some h \<Rightarrow> close_handle h s)"

text \<open>The fast path: what is read under the read lock, then the ping outside it.\<close>

definition fast_check :: "string \<Rightarrow> rdb \<Rightarrow> (nat \<times> nat) option \<times> rdb" where
  "fast_check userUID s =
     (case map_of (userDBs s) userUID of
        None \<Rightarrow> (None, s)
      | Some e \<Rightarrow>
          (case e_db e of
             None \<Rightarrow> (None, s)
           | Some h \<Rightarrow> (case ping h s of
                          (True, s1) \<Rightarrow> (Some (h, e_element e), s1)
                        | (False, s1) \<Rightarrow> (None, s1))))"

text \<open>The touch under the write lock, with the element read before.\<close>

definition touch :: "nat \<Rightarrow> rdb \<Rightarrow> rdb" where
  "touch i s = s\<lparr>lruList := move_front i (lruList s)\<rparr>"

definition drop_entry :: "string \<Rightarrow> rdb \<Rightarrow> rdb" where
  "drop_entry userUID s =
     (case map_of (userDBs s) userUID of
        None \<Rightarrow> s
      | Some e \<Rightarrow> (entry_close e s)
          \<lparr>lruList := list_remove (e_element e) (lruList s),
           userDBs := map_del userUID (userDBs s)\<rparr>)"

definition evict_oldest :: "rdb \<Rightarrow> rdb" where
  "evict_oldest s =
     (if UserDBPoolSize \<le> length (userDBs s)
      then (if lruList s = [] then s
            else case last (lruList s) of (i, oldUID) \<Rightarrow>
              (let s1 = (case map_of (userDBs s) oldUID of
                           None \<Rightarrow> s
                         | Some e \<Rightarrow> (entry_close e s)\<lparr>userDBs := map_del oldUID (userDBs s)\<rparr>)
               in s1\<lparr>lruList := list_remove i (lruList s1)\<rparr>))
      else s)"

definition add_entry :: "string \<Rightarrow> nat \<Rightarrow> rdb \<Rightarrow> rdb" where
  "add_entry userUID h s =
     s\<lparr>lruList := (next_element s, userUID) # lruList s,
       userDBs := map_put userUID \<lparr>e_db = Some h, e_element = next_element s\<rparr> (userDBs s),
       next_element := next_element s + 1\<rparr>"

text \<open>The slow path, all of it under the write lock.\<close>

definition reconnect :: "string \<Rightarrow> nat rdbop" where
  "reconnect userUID s =
     (case connect_loop 3 (database userUID) ''user db unreachable after 3 attempts''
             (evict_oldest (drop_entry userUID s)) of
        (Inl e, s1) \<Rightarrow> (Inl e, s1)
      | (Inr h, s1) \<Rightarrow> (Inr h, add_entry userUID h s1))"

definition slow_path :: "string \<Rightarrow> nat rdbop" where
  "slow_path userUID s =
     (case fast_check userUID s of
        (Some (h, i), s1) \<Rightarrow> (Inr h, touch i s1)
      | (None, s1) \<Rightarrow> reconnect userUID s1)"

definition getOrCreateUserDB :: "string \<Rightarrow> nat rdbop" where
  "getOrCreateUserDB userUID s =
     (case fast_check userUID s of
        (Some (h, i), s1) \<Rightarrow> (Inr h, touch i s1)
      | (None, s1) \<Rightarrow> slow_path userUID s1)"

definition closeAll :: "rdb \<Rightarrow> rdb" where
  "closeAll s = (fold (\<lambda>p. entry_close (snd p)) (userDBs s) s)
     \<lparr>userDBs := map (\<lambda>(u, e). (u, e\<lparr>e_db := None\<rparr>)) (userDBs s)\<rparr>"

subsection \<open>The root connection\<close>

definition root_check :: "rdb \<Rightarrow> nat option \<times> rdb" where
  "root_check s =
     (case rootDB s of
        None \<Rightarrow> (None, s)
      | Some h \<Rightarrow> (case ping h s of (True, s1) \<Rightarrow> (Some h, s1) | (False, s1) \<Rightarrow> (None, s1)))"

definition root_reconnect :: "nat rdbop" where
  "root_reconnect s =
     (let s0 = (case rootDB s of None \<Rightarrow> s | Some h \<Rightarrow> (close_handle h s)\<lparr>rootDB := None\<rparr>)
      in case connect_loop 3 '''' ''cockroachdb root unreachable after 3 attempts'' s0 of
           (Inl e, s1) \<Rightarrow> (Inl e, s1)
         | (Inr h, s1) \<Rightarrow> (Inr h, s1\<lparr>rootDB := Some h\<rparr>))"

definition tryGetRootDB :: "nat rdbop" where
  "tryGetRootDB s =
     (case root_check s of
        (Some h, s1) \<Rightarrow> (Inr h, s1)
      | (None, s1) \<Rightarrow>
          (case root_check s1 of
             (Some h, s2) \<Rightarrow> (Inr h, s2)
           | (None, s2) \<Rightarrow> root_reconnect s2))"

definition InitRDBManager :: "err option list \<Rightarrow> bool list \<Rightarrow> crdb \<Rightarrow> err option \<times> rdb" where
  "InitRDBManager os ps c =
     (case tryGetRootDB (newRootRDBManager os ps c) of
        (Inl e, s) \<Rightarrow> (Some e, s) | (Inr _, s) \<Rightarrow> (None, s))"

definition CloseManager :: "rdb \<Rightarrow> rdb" where
  "CloseManager s =
     closeAll (case rootDB s of None \<Rightarrow> s | Some h \<Rightarrow> close_handle h s)"

section \<open>The pool's invariant\<close>

definition same_mgr :: "rdb \<Rightarrow> rdb \<Rightarrow> bool" where
  "same_mgr s s' \<longleftrightarrow> rootDB s' = rootDB s \<and> userDBs s' = userDBs s \<and> lruList s' = lruList s \<and>
     next_element s' = next_element s \<and> server s' = server s"

definition recency :: "rdb \<Rightarrow> string list" where
  "recency s = map snd (lruList s)"

text \<open>
  The list holds one element per pooled user, and there are at most \<open>UserDBPoolSize\<close> of them.
\<close>

definition lru_ok :: "rdb \<Rightarrow> bool" where
  "lru_ok s \<longleftrightarrow> map_ok (userDBs s) \<and> distinct (map fst (lruList s)) \<and>
     (\<forall>p \<in> set (lruList s). fst p < next_element s) \<and>
     (\<forall>i u. (i, u) \<in> set (lruList s) \<longleftrightarrow> (\<exists>e. map_of (userDBs s) u = Some e \<and> e_element e = i)) \<and>
     length (userDBs s) \<le> UserDBPoolSize"

text \<open>Who holds a handle: the root connection (\<open>None\<close>) or a user's entry.\<close>

definition holder :: "rdb \<Rightarrow> string option \<Rightarrow> nat option" where
  "holder s w = (case w of None \<Rightarrow> rootDB s | Some u \<Rightarrow> Option.bind (map_of (userDBs s) u) e_db)"

text \<open>
  No open handle is lost, none is shared, and a pooled handle is open and connected to the
  database of its user.
\<close>

definition handles_ok :: "rdb \<Rightarrow> bool" where
  "handles_ok s \<longleftrightarrow>
     (\<forall>h \<in> fst ` set (handles s). h < next_handle s \<and> (\<exists>w. holder s w = Some h)) \<and>
     (\<forall>w h. holder s w = Some h \<longrightarrow> h < next_handle s) \<and>
     (\<forall>w w' h. holder s w = Some h \<longrightarrow> holder s w' = Some h \<longrightarrow> w = w') \<and>
     (\<forall>u h. holder s (Some u) = Some h \<longrightarrow> (h, database u) \<in> set (handles s)) \<and>
     distinct (map fst (handles s))"

definition pool_ok :: "rdb \<Rightarrow> bool" where
  "pool_ok s \<longleftrightarrow> lru_ok s \<and> handles_ok s"

lemma new_pool_ok: "pool_ok (newRootRDBManager os ps c)"
  by (auto simp: pool_ok_def lru_ok_def handles_ok_def newRootRDBManager_def holder_def
      split: option.splits)

lemma ping_same:
  "ping h s = (b, s') \<Longrightarrow> same_mgr s s' \<and> handles s' = handles s \<and> next_handle s' = next_handle s \<and>
     (b \<longrightarrow> h \<in> fst ` set (handles s))"
  by (auto simp: ping_def same_mgr_def split: list.splits if_splits)

lemma same_holder: "same_mgr s s' \<Longrightarrow> holder s' = holder s"
  by (rule ext) (simp add: holder_def same_mgr_def split: option.splits)

lemma same_pool_ok:
  "pool_ok s \<Longrightarrow> same_mgr s s' \<Longrightarrow> handles s' = handles s \<Longrightarrow> next_handle s \<le> next_handle s' \<Longrightarrow>
     pool_ok s'"
  by (frule same_holder)
    (fastforce simp: pool_ok_def lru_ok_def handles_ok_def same_mgr_def intro: less_le_trans)

lemma same_mgr_trans: "same_mgr s t \<Longrightarrow> same_mgr t u \<Longrightarrow> same_mgr s u"
  by (simp add: same_mgr_def)

text \<open>A connection attempt leaves one new handle behind when it succeeds and none when it fails.\<close>

lemma connect_loop_res:
  assumes "connect_loop n dbname msg s = (r, s')" and "\<forall>h \<in> fst ` set (handles s). h < next_handle s"
  shows "same_mgr s s' \<and> next_handle s \<le> next_handle s' \<and>
    (case r of
       Inl e \<Rightarrow> handles s' = handles s
     | Inr h \<Rightarrow> next_handle s \<le> h \<and> h < next_handle s' \<and> handles s' = handles s @ [(h, dbname)])"
  using assms
proof (induction n arbitrary: s)
  case 0
  then show ?case by (auto simp: same_mgr_def)
next
  case (Suc n)
  obtain ro s1 where o: "sql_Open dbname s = (ro, s1)" by (cases "sql_Open dbname s")
  show ?case
  proof (cases ro)
    case (Inl e)
    with o Suc.prems(1) show ?thesis
      by (auto simp: sql_Open_def same_mgr_def split: list.splits option.splits)
  next
    case (Inr h)
    with o have s1: "same_mgr s s1" "h = next_handle s" "handles s1 = handles s @ [(h, dbname)]"
      "next_handle s1 = next_handle s + 1"
      by (auto simp: sql_Open_def same_mgr_def split: list.splits option.splits)
    obtain b s2 where p: "ping h s1 = (b, s2)" by (cases "ping h s1")
    note p' = ping_same [OF p]
    show ?thesis
    proof (cases b)
      case True
      with Suc.prems(1) o Inr p p' s1 show ?thesis by (auto intro: same_mgr_trans)
    next
      case False
      define s3 where "s3 = close_handle h s2"
      have s3: "handles s3 = handles s" "next_handle s3 = next_handle s + 1" "same_mgr s s3"
        using s1 p' Suc.prems(2)
        by (auto simp: s3_def close_handle_def same_mgr_def filter_id_conv)
      have "connect_loop n dbname msg s3 = (r, s')"
        using Suc.prems(1) o Inr p False by (simp add: s3_def)
      from Suc.IH [OF this] s3 Suc.prems(2) show ?thesis
        by (fastforce split: sum.splits intro: same_mgr_trans)
    qed
  qed
qed

lemma lru_element:
  "lru_ok s \<Longrightarrow> (i, u) \<in> set (lruList s) \<Longrightarrow> (i, v) \<in> set (lruList s) \<Longrightarrow> u = v"
  unfolding lru_ok_def by (elim conjE) (rule eq_key_imp_eq_value)

lemma lru_user:
  "lru_ok s \<Longrightarrow> (i, u) \<in> set (lruList s) \<Longrightarrow> (j, u) \<in> set (lruList s) \<Longrightarrow> i = j"
  unfolding lru_ok_def by auto

lemma recency_distinct: "lru_ok s \<Longrightarrow> distinct (recency s)"
  unfolding recency_def distinct_map
proof
  assume ok: "lru_ok s"
  then show "distinct (lruList s)" by (auto simp: lru_ok_def distinct_map)
  show "inj_on snd (set (lruList s))"
    using lru_user [OF ok] by (auto intro!: inj_onI)
qed

lemma recency_users: "lru_ok s \<Longrightarrow> set (recency s) = fst ` set (userDBs s)"
proof -
  assume ok: "lru_ok s"
  have "u \<in> set (recency s) \<longleftrightarrow> (\<exists>i. (i, u) \<in> set (lruList s))" for u
    by (force simp: recency_def)
  then have "u \<in> set (recency s) \<longleftrightarrow> map_of (userDBs s) u \<noteq> None" for u
    using ok unfolding lru_ok_def by simp
  then show ?thesis by (metis map_of_eq_None_iff subsetI subset_antisym)
qed

lemma recency_length: "lru_ok s \<Longrightarrow> length (recency s) = length (userDBs s)"
proof -
  assume ok: "lru_ok s"
  then have "distinct (map fst (userDBs s))"
    by (auto simp: lru_ok_def map_ok_def strict_sorted_iff)
  with recency_distinct [OF ok] recency_users [OF ok] show ?thesis
    by (metis distinct_card length_map set_map)
qed

text \<open>Taking a user out: its list element and its map entry go, its handle is closed.\<close>

definition without :: "string \<Rightarrow> rdb_entry \<Rightarrow> rdb \<Rightarrow> rdb" where
  "without u e s = (entry_close e s)\<lparr>lruList := list_remove (e_element e) (lruList s),
                                     userDBs := map_del u (userDBs s)\<rparr>"

lemma entry_close_sel [simp]:
  "lruList (entry_close e s) = lruList s" "userDBs (entry_close e s) = userDBs s"
  "rootDB (entry_close e s) = rootDB s" "next_element (entry_close e s) = next_element s"
  "next_handle (entry_close e s) = next_handle s" "server (entry_close e s) = server s"
  "handles (entry_close e s) = filter (\<lambda>p. e_db e \<noteq> Some (fst p)) (handles s)"
  by (auto simp: entry_close_def close_handle_def eq_commute split: option.splits
      intro!: filter_cong [OF refl, symmetric])

lemma length_map_del: "map_ok m \<Longrightarrow> map_of m k = Some v \<Longrightarrow> Suc (length (map_del k m)) = length m"
proof (induction m)
  case (Cons p m)
  have "map_ok m" "map_of m (fst p) = None" using map_ok_tail [OF Cons.prems(1)] by simp_all
  moreover have "map_del (fst p) m = m" if "map_of m (fst p) = None"
    unfolding map_del_def using that
    by (intro filter_True ballI) (auto simp: map_of_eq_None_iff image_iff)
  ultimately show ?case using Cons by (cases p; cases "fst p = k") (simp_all add: map_del_def)
qed simp

lemma without_ok:
  assumes ok: "pool_ok s" and e: "map_of (userDBs s) u = Some e"
  shows "pool_ok (without u e s)" and "recency (without u e s) = removeAll u (recency s)"
    and "Suc (length (userDBs (without u e s))) = length (userDBs s)"
proof -
  have lru: "lru_ok s" and hs: "handles_ok s" using ok by (simp_all add: pool_ok_def)
  have el: "(e_element e, u) \<in> set (lruList s)" using lru e by (auto simp: lru_ok_def)
  have same: "fst p = e_element e \<longleftrightarrow> snd p = u" if "p \<in> set (lruList s)" for p
    using that el lru_element [OF lru] lru_user [OF lru] by (metis prod.collapse)
  show "recency (without u e s) = removeAll u (recency s)"
    using same unfolding recency_def without_def list_remove_def removeAll_filter_not_eq filter_map
    by (auto simp: comp_def intro!: arg_cong [of _ _ "map snd"] filter_cong)
  show len: "Suc (length (userDBs (without u e s))) = length (userDBs s)"
    using lru e by (simp add: without_def lru_ok_def length_map_del)
  have holder: "holder (without u e s) = (holder s)(Some u := None)"
    by (rule ext) (simp add: holder_def without_def map_del_get split: option.splits)
  have hu: "holder s (Some u) = e_db e" by (simp add: holder_def e)
  have open_h: "fst ` set (handles (without u e s)) = fst ` set (handles s) - {h. e_db e = Some h}"
    by (auto simp: without_def)
  have "handles_ok (without u e s)"
    unfolding handles_ok_def holder open_h
  proof (intro conjI ballI allI impI)
    fix h assume h: "h \<in> fst ` set (handles s) - {h. e_db e = Some h}"
    then obtain w where w: "holder s w = Some h" using hs by (auto simp: handles_ok_def)
    with h hu have "w \<noteq> Some u" by auto
    with w show "\<exists>w. ((holder s)(Some u := None)) w = Some h" by (metis fun_upd_apply)
    show "h < next_handle (without u e s)" using h hs by (auto simp: handles_ok_def without_def)
  next
    fix v h assume "((holder s)(Some u := None)) (Some v) = Some h"
    then have v: "v \<noteq> u" "holder s (Some v) = Some h" by (auto split: if_splits)
    with hs have "(h, database v) \<in> set (handles s)" by (auto simp: handles_ok_def)
    moreover have "e_db e \<noteq> Some h" using v hs hu unfolding handles_ok_def by (metis option.inject)
    ultimately show "(h, database v) \<in> set (handles (without u e s))" by (simp add: without_def)
  next
    show "distinct (map fst (handles (without u e s)))"
      using hs by (simp add: handles_ok_def without_def distinct_map_filter)
  next
    fix w h assume "((holder s)(Some u := None)) w = Some h"
    with hs show "h < next_handle (without u e s)"
      by (auto simp: handles_ok_def without_def split: if_splits)
  next
    fix w w' h assume "((holder s)(Some u := None)) w = Some h" "((holder s)(Some u := None)) w' = Some h"
    with hs show "w = w'" unfolding handles_ok_def by (auto split: if_splits)
  qed
  moreover have "lru_ok (without u e s)"
  proof -
    have iff: "(i, v) \<in> set (list_remove (e_element e) (lruList s)) \<longleftrightarrow>
        (i, v) \<in> set (lruList s) \<and> v \<noteq> u" for i v
      using same [of "(i, v)"] by (auto simp: list_remove_def)
    have "map_ok (map_del u (userDBs s))" using lru by (simp add: lru_ok_def map_del_ok)
    moreover have "distinct (map fst (list_remove (e_element e) (lruList s)))"
      using lru by (simp add: lru_ok_def list_remove_def distinct_map_filter)
    ultimately show ?thesis using lru len iff
      by (auto simp: lru_ok_def without_def map_del_get)
  qed
  ultimately show "pool_ok (without u e s)" by (simp add: pool_ok_def)
qed

lemma drop_entry_eq:
  "drop_entry u s = (case map_of (userDBs s) u of None \<Rightarrow> s | Some e \<Rightarrow> without u e s)"
  by (simp add: drop_entry_def without_def split: option.splits)

lemma drop_entry_ok:
  assumes "pool_ok s"
  shows "pool_ok (drop_entry u s)" and "recency (drop_entry u s) = removeAll u (recency s)"
    and "u \<notin> set (recency (drop_entry u s))"
proof -
  have "removeAll u (recency s) = recency s" if "map_of (userDBs s) u = None"
    using that recency_users [of s] assms
    by (auto simp: pool_ok_def map_of_eq_None_iff removeAll_id)
  then show r: "recency (drop_entry u s) = removeAll u (recency s)"
    using without_ok [OF assms] by (auto simp: drop_entry_eq split: option.splits)
  show "pool_ok (drop_entry u s)"
    using without_ok [OF assms] assms by (auto simp: drop_entry_eq split: option.splits)
  show "u \<notin> set (recency (drop_entry u s))" by (simp add: r)
qed

lemma UserDBPoolSize_pos: "0 < UserDBPoolSize"
  by (simp add: UserDBPoolSize_def)

lemma evict_full:
  assumes ok: "pool_ok s" and full: "UserDBPoolSize \<le> length (userDBs s)"
  obtains u e where "map_of (userDBs s) u = Some e" "last (recency s) = u"
    "evict_oldest s = without u e s"
proof -
  have lru: "lru_ok s" using ok by (simp add: pool_ok_def)
  then have "recency s \<noteq> []"
    using recency_length [OF lru] full UserDBPoolSize_pos by (metis length_0_conv not_less)
  then have ne: "lruList s \<noteq> []" by (simp add: recency_def)
  obtain i u where l: "last (lruList s) = (i, u)" by (cases "last (lruList s)")
  with ne have "(i, u) \<in> set (lruList s)" by (metis last_in_set)
  with lru obtain e where e: "map_of (userDBs s) u = Some e" "e_element e = i"
    by (auto simp: lru_ok_def)
  have "last (recency s) = u" using ne l by (simp add: recency_def last_map)
  moreover have "evict_oldest s = without u e s"
    using full ne l e by (simp add: evict_oldest_def without_def)
  ultimately show thesis using e that by blast
qed

lemma removeAll_last: "distinct xs \<Longrightarrow> xs \<noteq> [] \<Longrightarrow> removeAll (last xs) xs = butlast xs"
  by (induction xs rule: rev_induct) (simp_all add: removeAll_id)

lemma evict_ok:
  assumes ok: "pool_ok s"
  shows "pool_ok (evict_oldest s) \<and> length (userDBs (evict_oldest s)) < UserDBPoolSize \<and>
    recency (evict_oldest s) = take (UserDBPoolSize - 1) (recency s)"
proof (cases "UserDBPoolSize \<le> length (userDBs s)")
  case False
  then show ?thesis using ok recency_length [of s]
    by (simp add: evict_oldest_def pool_ok_def)
next
  case True
  have lru: "lru_ok s" using ok by (simp add: pool_ok_def)
  then have len: "length (recency s) = UserDBPoolSize"
    using True recency_length [OF lru] by (simp add: lru_ok_def)
  from evict_full [OF ok True] obtain u e where
    u: "map_of (userDBs s) u = Some e" "last (recency s) = u" "evict_oldest s = without u e s" .
  have "recency s \<noteq> []" using len UserDBPoolSize_pos by auto
  with recency_distinct [OF lru] u(2) have "removeAll u (recency s) = butlast (recency s)"
    using removeAll_last by metis
  with without_ok [OF ok u(1)] u(3) len recency_length [OF lru] UserDBPoolSize_pos show ?thesis
    by (simp add: butlast_conv_take)
qed

lemma add_entry_ok:
  assumes ok: "pool_ok s" and few: "length (userDBs s) < UserDBPoolSize"
    and new: "u \<notin> set (recency s)"
    and res: "same_mgr s s1" "next_handle s \<le> h" "h < next_handle s1"
      "handles s1 = handles s @ [(h, database u)]"
  shows "pool_ok (add_entry u h s1)" and "recency (add_entry u h s1) = u # recency s"
proof -
  have lru: "lru_ok s" and hs: "handles_ok s" using ok by (simp_all add: pool_ok_def)
  have none: "map_of (userDBs s) u = None"
    using new recency_users [OF lru] by (simp add: map_of_eq_None_iff)
  have m: "map_ok (userDBs s)" using lru by (simp add: lru_ok_def)
  have len: "length (map_put u e (userDBs s)) = Suc (length (userDBs s))" for e
  proof -
    have "distinct (map fst (userDBs s))" "distinct (map fst (map_put u e (userDBs s)))"
      using m map_put_ok [OF m] by (auto simp: map_ok_def strict_sorted_iff)
    moreover have "u \<notin> fst ` set (userDBs s)" using none by (simp add: map_of_eq_None_iff)
    ultimately show ?thesis
      using map_put_keys [of u e "userDBs s"] by (metis card_insert_disjoint distinct_card
          finite_imageI finite_set length_map list.set_map)
  qed
  show "recency (add_entry u h s1) = u # recency s"
    using res(1) by (simp add: recency_def add_entry_def same_mgr_def)
  have "lru_ok (add_entry u h s1)"
    using lru none few len res(1) m
    by (auto simp: lru_ok_def add_entry_def same_mgr_def map_put_ok map_put_get)
  moreover have "handles_ok (add_entry u h s1)"
  proof -
    have holder: "holder (add_entry u h s1) = (holder s)(Some u := Some h)"
      using res(1) m
      by (auto simp: holder_def add_entry_def same_mgr_def map_put_get fun_eq_iff split: option.splits)
    have u: "holder s (Some u) = None" by (simp add: holder_def none)
    have old: "holder s w \<noteq> Some h" for w
      using hs res(2) unfolding handles_ok_def by (metis not_less)
    have new_h: "handles (add_entry u h s1) = handles s @ [(h, database u)]"
      "next_handle (add_entry u h s1) = next_handle s1" using res by (simp_all add: add_entry_def)
    have fresh: "h \<notin> fst ` set (handles s)"
      using hs res(2) unfolding handles_ok_def by (metis not_less)
    from new_h have sel: "fst ` set (handles (add_entry u h s1)) = insert h (fst ` set (handles s))"
      "next_handle (add_entry u h s1) = next_handle s1" by auto
    show ?thesis
      unfolding handles_ok_def holder sel
    proof (intro conjI ballI allI impI)
      fix k assume k: "k \<in> insert h (fst ` set (handles s))"
      have "k < next_handle s" if "k \<in> fst ` set (handles s)"
        using hs that unfolding handles_ok_def by blast
      then show "k < next_handle s1" using k res(2,3) by (metis insertE less_le_trans less_trans)
      show "\<exists>w. ((holder s)(Some u := Some h)) w = Some k"
        using k hs u unfolding handles_ok_def by (metis fun_upd_apply insertE option.discI)
    next
      fix w k assume "((holder s)(Some u := Some h)) w = Some k"
      then have "k = h \<or> k < next_handle s"
        using hs unfolding handles_ok_def by (metis fun_upd_apply option.inject)
      then show "k < next_handle s1" using res(2,3) by auto
    next
      fix w w' k
      assume "((holder s)(Some u := Some h)) w = Some k" "((holder s)(Some u := Some h)) w' = Some k"
      then show "w = w'"
        using hs old unfolding handles_ok_def by (auto split: if_splits)
    next
      fix v k assume "((holder s)(Some u := Some h)) (Some v) = Some k"
      then show "(k, database v) \<in> set (handles (add_entry u h s1))"
        using hs unfolding new_h by (auto simp: handles_ok_def split: if_splits)
    next
      show "distinct (map fst (handles (add_entry u h s1)))"
        using hs fresh unfolding new_h by (simp add: handles_ok_def)
    qed
  qed
  ultimately show "pool_ok (add_entry u h s1)" by (simp add: pool_ok_def)
qed

lemma touch_ok:
  assumes ok: "pool_ok s"
  shows "pool_ok (touch i s)"
proof -
  have "set (move_front i (lruList s)) = set (lruList s)" by (auto simp: move_front_def)
  moreover have "distinct (map fst (move_front i (lruList s)))"
    if "distinct (map fst (lruList s))"
    using that by (auto simp: move_front_def distinct_map_filter)
  moreover have "holder (touch i s) = holder s" by (rule ext) (simp add: holder_def touch_def split: option.splits)
  ultimately show ?thesis using ok
    by (simp add: pool_ok_def lru_ok_def handles_ok_def touch_def)
qed

lemma touch_recency:
  assumes ok: "pool_ok s" and e: "map_of (userDBs s) u = Some e"
  shows "recency (touch (e_element e) s) = u # removeAll u (recency s)"
proof -
  have lru: "lru_ok s" using ok by (simp add: pool_ok_def)
  then have el: "(e_element e, u) \<in> set (lruList s)" using e by (auto simp: lru_ok_def)
  have same: "fst p = e_element e \<longleftrightarrow> snd p = u" if "p \<in> set (lruList s)" for p
    using that el lru_element [OF lru] lru_user [OF lru] by (metis prod.collapse)
  have "distinct (map fst (lruList s))" using lru by (simp add: lru_ok_def)
  from distinct_map_filter_one [OF this el]
  have "filter (\<lambda>p. fst p = e_element e) (lruList s) = [(e_element e, u)]" by simp
  moreover have "map snd (filter (\<lambda>p. fst p \<noteq> e_element e) (lruList s)) = removeAll u (recency s)"
    using same unfolding recency_def removeAll_filter_not_eq filter_map comp_def
    by (intro arg_cong [of _ _ "map snd"] filter_cong) auto
  ultimately show ?thesis by (simp add: recency_def touch_def move_front_def)
qed

lemma fast_check_res:
  assumes "fast_check u s = (r, s1)"
  shows "same_mgr s s1 \<and> handles s1 = handles s \<and> next_handle s1 = next_handle s \<and>
    (\<forall>h i. r = Some (h, i) \<longrightarrow> (\<exists>e. map_of (userDBs s) u = Some e \<and> e_element e = i \<and> e_db e = Some h) \<and>
       h \<in> fst ` set (handles s1))"
  using assms
  by (auto simp: fast_check_def same_mgr_def split: option.splits prod.splits bool.splits
      dest!: ping_same)

text \<open>
  Reconnecting drops the user's entry, makes room and connects: on success the user comes first,
  on failure the evicted user is gone all the same.
\<close>

lemma reconnect_ok:
  assumes ok: "pool_ok s" and run: "reconnect u s = (r, s')"
  shows "pool_ok s'" and "recency s' = (case r of
      Inl e \<Rightarrow> take (UserDBPoolSize - 1) (removeAll u (recency s))
    | Inr h \<Rightarrow> u # take (UserDBPoolSize - 1) (removeAll u (recency s)))"
    and "\<forall>h. r = Inr h \<longrightarrow> (h, database u) \<in> set (handles s')"
proof -
  define t where "t = evict_oldest (drop_entry u s)"
  have d: "pool_ok (drop_entry u s)" "recency (drop_entry u s) = removeAll u (recency s)"
    using drop_entry_ok [OF ok] by auto
  from evict_ok [OF d(1)] d(2) have t: "pool_ok t" "length (userDBs t) < UserDBPoolSize"
    "recency t = take (UserDBPoolSize - 1) (removeAll u (recency s))" by (simp_all add: t_def)
  then have new: "u \<notin> set (recency t)" by (auto dest: in_set_takeD)
  obtain c s1 where c: "connect_loop 3 (database u) ''user db unreachable after 3 attempts'' t = (c, s1)"
    by (cases "connect_loop 3 (database u) ''user db unreachable after 3 attempts'' t")
  have "\<forall>h \<in> fst ` set (handles t). h < next_handle t"
    using t(1) by (auto simp: pool_ok_def handles_ok_def)
  note res = connect_loop_res [OF c this]
  show "pool_ok s'"
  proof (cases c)
    case (Inl e)
    with run c t_def have "s' = s1" by (simp add: reconnect_def)
    with Inl res t(1) show ?thesis by (auto intro: same_pool_ok)
  next
    case (Inr h)
    with run c t_def have "s' = add_entry u h s1" by (simp add: reconnect_def)
    with Inr res add_entry_ok [OF t(1,2) new] show ?thesis by auto
  qed
  show "recency s' = (case r of
      Inl e \<Rightarrow> take (UserDBPoolSize - 1) (removeAll u (recency s))
    | Inr h \<Rightarrow> u # take (UserDBPoolSize - 1) (removeAll u (recency s)))"
  proof (cases c)
    case (Inl e)
    with run c t_def res t(3) show ?thesis by (auto simp: reconnect_def recency_def same_mgr_def)
  next
    case (Inr h)
    with run c t_def have "s' = add_entry u h s1" "r = Inr h" by (simp_all add: reconnect_def)
    with Inr res add_entry_ok [OF t(1,2) new] t(3) show ?thesis by auto
  qed
  show "\<forall>h. r = Inr h \<longrightarrow> (h, database u) \<in> set (handles s')"
    using run c t_def res by (auto simp: reconnect_def add_entry_def split: sum.splits)
qed

lemma take_cons: "0 < n \<Longrightarrow> take n (x # xs) = x # take (n - 1) xs"
  by (cases n) simp_all

lemma slow_path_ok:
  assumes ok: "pool_ok s" and run: "slow_path u s = (r, s')"
  shows "pool_ok s'" and "r = Inr h \<Longrightarrow> recency s' = take UserDBPoolSize (u # removeAll u (recency s))"
    and "r = Inl e \<Longrightarrow> recency s' = take (UserDBPoolSize - 1) (removeAll u (recency s))"
    and "r = Inr h \<Longrightarrow> (h, database u) \<in> set (handles s')"
proof -
  obtain f s1 where f: "fast_check u s = (f, s1)" by (cases "fast_check u s")
  note fr = fast_check_res [OF f]
  then have s1: "pool_ok s1" "recency s1 = recency s"
    using ok by (auto intro: same_pool_ok simp: recency_def same_mgr_def)
  have "pool_ok s' \<and> (r = Inr h \<longrightarrow> recency s' = take UserDBPoolSize (u # removeAll u (recency s)) \<and>
        (h, database u) \<in> set (handles s')) \<and>
      (r = Inl e \<longrightarrow> recency s' = take (UserDBPoolSize - 1) (removeAll u (recency s)))"
  proof (cases f)
    case None
    with run f have "reconnect u s1 = (r, s')" by (simp add: slow_path_def)
    from reconnect_ok [OF s1(1) this] s1(2) show ?thesis
      by (auto simp: take_cons UserDBPoolSize_pos)
  next
    case (Some hi)
    obtain k i where hi: "hi = (k, i)" by (cases hi)
    with Some fr obtain x where x: "map_of (userDBs s) u = Some x" "e_element x = i"
      "e_db x = Some k" by auto
    have "userDBs s1 = userDBs s" using fr by (simp add: same_mgr_def)
    with x have x1: "map_of (userDBs s1) u = Some x" by simp
    then have "holder s1 (Some u) = Some k" using x by (simp add: holder_def)
    then have open_k: "(k, database u) \<in> set (handles s1)"
      using s1(1) by (simp add: pool_ok_def handles_ok_def)
    from run f Some hi have r: "r = Inr k" "s' = touch i s1" by (auto simp: slow_path_def)
    have "recency s' = u # removeAll u (recency s)"
      using touch_recency [OF s1(1) x1] x r s1(2) by simp
    moreover have "length (recency s') \<le> UserDBPoolSize"
    proof -
      have "pool_ok s'" using touch_ok [OF s1(1)] r by simp
      then show ?thesis using recency_length [of s'] by (auto simp: pool_ok_def lru_ok_def)
    qed
    moreover have "(k, database u) \<in> set (handles s')" using open_k r by (simp add: touch_def)
    ultimately show ?thesis using touch_ok [OF s1(1)] r by simp blast
  qed
  then show "pool_ok s'" and "r = Inr h \<Longrightarrow> recency s' = take UserDBPoolSize (u # removeAll u (recency s))"
    and "r = Inl e \<Longrightarrow> recency s' = take (UserDBPoolSize - 1) (removeAll u (recency s))"
    and "r = Inr h \<Longrightarrow> (h, database u) \<in> set (handles s')" by simp_all
qed

text \<open>\<open>getOrCreateUserDB\<close> is its slow path, up to the extra ping of the fast path.\<close>

lemma getOrCreate_cases:
  assumes "getOrCreateUserDB u s = (r, s')"
  obtains s1 where "same_mgr s s1" "handles s1 = handles s" "next_handle s1 = next_handle s"
    "slow_path u s1 = (r, s')"
  | "slow_path u s = (r, s')"
proof (cases "fst (fast_check u s)")
  case None
  then obtain s1 where f: "fast_check u s = (None, s1)" by (metis prod.collapse)
  with assms have "slow_path u s1 = (r, s')" by (simp add: getOrCreateUserDB_def)
  with fast_check_res [OF f] that(1) show thesis by blast
next
  case (Some hi)
  then obtain h i s1 where "fast_check u s = (Some (h, i), s1)" by (metis prod.collapse)
  with assms have "slow_path u s = (r, s')" by (simp add: getOrCreateUserDB_def slow_path_def)
  with that(2) show thesis .
qed

lemma getOrCreate_ok:
  assumes ok: "pool_ok s" and run: "getOrCreateUserDB u s = (r, s')"
  shows "pool_ok s'" and "r = Inr h \<Longrightarrow> recency s' = take UserDBPoolSize (u # removeAll u (recency s))"
    and "r = Inl e \<Longrightarrow> recency s' = take (UserDBPoolSize - 1) (removeAll u (recency s))"
    and "r = Inr h \<Longrightarrow> (h, database u) \<in> set (handles s')"
proof -
  have "pool_ok s' \<and> (r = Inr h \<longrightarrow> recency s' = take UserDBPoolSize (u # removeAll u (recency s)) \<and>
        (h, database u) \<in> set (handles s')) \<and>
      (r = Inl e \<longrightarrow> recency s' = take (UserDBPoolSize - 1) (removeAll u (recency s)))"
    using run
  proof (cases rule: getOrCreate_cases)
    case (1 s1)
    then have "pool_ok s1" "recency s1 = recency s"
      using ok by (auto intro: same_pool_ok simp: recency_def same_mgr_def)
    with slow_path_ok [OF this(1) 1(4)] show ?thesis by simp
  next
    case 2
    from slow_path_ok [OF ok this] show ?thesis by blast
  qed
  then show "pool_ok s'" and "r = Inr h \<Longrightarrow> recency s' = take UserDBPoolSize (u # removeAll u (recency s))"
    and "r = Inl e \<Longrightarrow> recency s' = take (UserDBPoolSize - 1) (removeAll u (recency s))"
    and "r = Inr h \<Longrightarrow> (h, database u) \<in> set (handles s')" by simp_all
qed

section \<open>The pool as a cache\<close>

text \<open>
  What the users of a cache rely on: a get puts its key first, in front of the others in their
  order, and keeps at most \<open>cap\<close> of them.  A failed get drops its key and leaves room for one.
\<close>

locale recency_cache =
  fixes get :: "'k \<Rightarrow> 's \<Rightarrow> ('e + 'h) \<times> 's"
    and order :: "'s \<Rightarrow> 'k list"
    and ok :: "'s \<Rightarrow> bool"
    and cap :: nat
  assumes cap_pos: "0 < cap"
    and ok_order: "ok s \<Longrightarrow> distinct (order s) \<and> length (order s) \<le> cap"
    and get_hit: "ok s \<Longrightarrow> get k s = (Inr h, s') \<Longrightarrow>
      ok s' \<and> order s' = take cap (k # removeAll k (order s))"
    and get_fail: "ok s \<Longrightarrow> get k s = (Inl e, s') \<Longrightarrow>
      ok s' \<and> order s' = take (cap - 1) (removeAll k (order s))"
begin

definition serve :: "'k list \<Rightarrow> 's \<Rightarrow> 's" where
  "serve ks s = fold (\<lambda>k s. snd (get k s)) ks s"

lemma get_cases:
  assumes "ok s"
  shows "ok (snd (get k s)) \<and>
    (order (snd (get k s)) = take cap (k # removeAll k (order s)) \<or>
     order (snd (get k s)) = take (cap - 1) (removeAll k (order s)))"
  using get_hit [OF assms] get_fail [OF assms] by (cases "get k s"; cases "fst (get k s)") auto

lemma serve_ok: "ok s \<Longrightarrow> ok (serve ks s)"
  unfolding serve_def by (induction ks arbitrary: s) (simp_all add: get_cases)

definition in_front :: "'k \<Rightarrow> 'k set \<Rightarrow> 'k list \<Rightarrow> bool" where
  "in_front k A xs \<longleftrightarrow> (\<exists>pre post. xs = pre @ k # post \<and> set pre \<subseteq> A)"

lemma in_front_step:
  assumes f: "in_front k A xs" and d: "distinct xs" and j: "j \<in> A" "j \<noteq> k"
    and A: "finite A" "card A < cap"
  shows "in_front k A (take cap (j # removeAll j xs)) \<and> in_front k A (take (cap - 1) (removeAll j xs))"
proof -
  obtain pre post where xs: "xs = pre @ k # post" "set pre \<subseteq> A" using f by (auto simp: in_front_def)
  have rm: "removeAll j xs = removeAll j pre @ k # removeAll j post" using xs j by simp
  have "distinct (removeAll j pre)" using d xs by (simp add: distinct_removeAll)
  then have "length (removeAll j pre) = card (set pre - {j})" by (metis distinct_card set_removeAll)
  also have "\<dots> \<le> card (A - {j})" using A xs by (intro card_mono) auto
  also have "\<dots> < cap - 1" using A j by (simp add: card_Diff_singleton) (metis card_gt_0_iff diff_less_mono empty_iff Suc_leI)
  finally have l: "length (removeAll j pre) < cap - 1" .
  then obtain m where m: "cap - 1 = length (removeAll j pre) + Suc m"
    by (metis add_Suc_right less_imp_Suc_add)
  have "take (cap - 1) (removeAll j xs) = removeAll j pre @ k # take m (removeAll j post)"
    unfolding rm m by simp
  moreover have "take cap (j # removeAll j xs) = j # take (cap - 1) (removeAll j xs)"
    using cap_pos by (simp add: take_Cons')
  ultimately show ?thesis
    using xs(2) j(1) unfolding in_front_def
    by (intro conjI exI [of _ "j # removeAll j pre"] exI [of _ "removeAll j pre"]
        exI [of _ "take m (removeAll j post)"]) auto
qed

text \<open>A key stays in the cache while fewer than \<open>cap\<close> others are asked for.\<close>

lemma survives:
  assumes "ok s" "in_front k A (order s)" "finite A" "card A < cap" "k \<notin> A" "set ks \<subseteq> A"
  shows "in_front k A (order (serve ks s))"
  using assms
proof (induction ks arbitrary: s)
  case Nil
  then show ?case by (simp add: serve_def)
next
  case (Cons j ks)
  let ?s = "snd (get j s)"
  have j: "j \<in> A" "j \<noteq> k" using Cons.prems by auto
  have "in_front k A (order ?s)"
    using in_front_step [OF Cons.prems(2) _ j] Cons.prems get_cases [of s j] ok_order [of s]
    by metis
  with Cons.IH [of ?s] Cons.prems get_cases [of s j] show ?case by (simp add: serve_def)
qed

lemma in_front_mem: "in_front k A xs \<Longrightarrow> k \<in> set xs"
  by (auto simp: in_front_def)

lemma just_served:
  assumes "ok s" "get k s = (Inr h, s')" "finite A" "card A < cap" "k \<notin> A" "set ks \<subseteq> A"
  shows "k \<in> set (order (serve ks s'))"
proof -
  have s': "ok s'" "order s' = take cap (k # removeAll k (order s))" using get_hit assms by auto
  then have "in_front k A (order s')"
    unfolding in_front_def using cap_pos
    by (intro exI [of _ "[]"] exI [of _ "take (cap - 1) (removeAll k (order s))"])
      (simp add: take_Cons')
  from in_front_mem [OF survives [OF s'(1) this assms(3-6)]] show ?thesis .
qed

end

interpretation pool: recency_cache getOrCreateUserDB recency pool_ok UserDBPoolSize
proof
  show "0 < UserDBPoolSize" by (rule UserDBPoolSize_pos)
next
  fix s assume "pool_ok s"
  then show "distinct (recency s) \<and> length (recency s) \<le> UserDBPoolSize"
    using recency_distinct [of s] recency_length [of s] by (auto simp: pool_ok_def lru_ok_def)
next
  fix s k h s' assume "pool_ok s" "getOrCreateUserDB k s = (Inr h, s')"
  then show "pool_ok s' \<and> recency s' = take UserDBPoolSize (k # removeAll k (recency s))"
    using getOrCreate_ok by blast
next
  fix s k e s' assume "pool_ok s" "getOrCreateUserDB k s = (Inl e, s')"
  then show "pool_ok s' \<and> recency s' = take (UserDBPoolSize - 1) (removeAll k (recency s))"
    using getOrCreate_ok by blast
qed

section \<open>The root connection and interleavings\<close>

lemma root_check_res:
  "root_check s = (r, s1) \<Longrightarrow> same_mgr s s1 \<and> handles s1 = handles s \<and> next_handle s1 = next_handle s \<and>
     (\<forall>h. r = Some h \<longrightarrow> rootDB s = Some h \<and> h \<in> fst ` set (handles s))"
  by (auto simp: root_check_def same_mgr_def split: option.splits prod.splits bool.splits
      dest!: ping_same intro: rev_image_eqI)

definition without_root :: "rdb \<Rightarrow> rdb" where
  "without_root s = (case rootDB s of None \<Rightarrow> s | Some h \<Rightarrow> (close_handle h s)\<lparr>rootDB := None\<rparr>)"

lemma without_root_ok:
  assumes ok: "pool_ok s"
  shows "pool_ok (without_root s) \<and> rootDB (without_root s) = None"
proof (cases "rootDB s")
  case None
  with ok show ?thesis by (simp add: without_root_def)
next
  case (Some h)
  let ?t = "without_root s"
  have t: "holder ?t = (holder s)(None := None)" "next_handle ?t = next_handle s"
    "fst ` set (handles ?t) = fst ` set (handles s) - {h}"
    using Some by (auto simp: without_root_def holder_def close_handle_def fun_eq_iff split: option.splits)
  have hs: "handles_ok s" using ok by (simp add: pool_ok_def)
  have root: "holder s None = Some h" using Some by (simp add: holder_def)
  have "handles_ok ?t"
    unfolding handles_ok_def t
  proof (intro conjI ballI allI impI)
    fix k assume k: "k \<in> fst ` set (handles s) - {h}"
    then obtain w where w: "holder s w = Some k" using hs unfolding handles_ok_def by blast
    with k root have "w \<noteq> None" by (metis Diff_iff insertI1 option.inject)
    with w show "\<exists>w. ((holder s)(None := None)) w = Some k" by (metis fun_upd_apply)
    show "k < next_handle s" using k hs unfolding handles_ok_def by blast
  next
    fix u k assume "((holder s)(None := None)) (Some u) = Some k"
    then have k: "holder s (Some u) = Some k" by simp
    then have "k \<noteq> h" using root hs unfolding handles_ok_def by (metis option.distinct(1))
    with k hs Some show "(k, database u) \<in> set (handles ?t)"
      by (auto simp: handles_ok_def without_root_def close_handle_def)
  next
    show "distinct (map fst (handles ?t))"
      using hs Some by (simp add: handles_ok_def without_root_def close_handle_def distinct_map_filter)
  next
    fix w k assume "((holder s)(None := None)) w = Some k"
    with hs show "k < next_handle s" unfolding handles_ok_def by (metis fun_upd_apply option.discI)
  next
    fix w w' k assume "((holder s)(None := None)) w = Some k" "((holder s)(None := None)) w' = Some k"
    with hs show "w = w'" unfolding handles_ok_def by (metis fun_upd_apply option.discI)
  qed
  with ok Some show ?thesis by (simp add: pool_ok_def lru_ok_def without_root_def close_handle_def)
qed

lemma root_reconnect_ok:
  assumes ok: "pool_ok s" and run: "root_reconnect s = (r, s')"
  shows "pool_ok s' \<and> recency s' = recency s \<and> (\<forall>h. r = Inr h \<longrightarrow> rootDB s' = Some h \<and>
    h \<in> fst ` set (handles s'))"
proof -
  let ?t = "without_root s" and ?m = "''cockroachdb root unreachable after 3 attempts''"
  have t: "pool_ok ?t" "rootDB ?t = None" using without_root_ok [OF ok] by auto
  then have hs: "handles_ok ?t" by (simp add: pool_ok_def)
  obtain c s1 where c: "connect_loop 3 '''' ?m ?t = (c, s1)" by (cases "connect_loop 3 '''' ?m ?t")
  have "\<forall>h \<in> fst ` set (handles ?t). h < next_handle ?t" using hs by (auto simp: handles_ok_def)
  note res = connect_loop_res [OF c this]
  have rec: "recency ?t = recency s"
    by (simp add: recency_def without_root_def close_handle_def split: option.splits)
  have run': "(r, s') = (case c of Inl e \<Rightarrow> (Inl e, s1) | Inr h \<Rightarrow> (Inr h, s1\<lparr>rootDB := Some h\<rparr>))"
    using run c by (auto simp: root_reconnect_def without_root_def split: option.splits sum.splits)
  show ?thesis
  proof (cases c)
    case (Inl e)
    with run' res t(1) rec show ?thesis
      by (auto intro: same_pool_ok simp: recency_def same_mgr_def)
  next
    case (Inr h)
    with run' have s': "r = Inr h" "s' = s1\<lparr>rootDB := Some h\<rparr>" by auto
    have new: "handles s' = handles ?t @ [(h, [])]" "next_handle ?t \<le> h" "h < next_handle s'"
      and same: "same_mgr ?t s1" using res Inr s' by auto
    have holder: "holder s' = (holder ?t)(None := Some h)"
      using same t(2) s' by (auto simp: holder_def same_mgr_def fun_eq_iff split: option.splits)
    have old: "holder ?t w \<noteq> Some h" for w using hs new(2) unfolding handles_ok_def by (metis not_less)
    have none: "holder ?t None = None" using t(2) by (simp add: holder_def)
    have sel: "fst ` set (handles s') = insert h (fst ` set (handles ?t))" using new by simp
    have "handles_ok s'"
      unfolding handles_ok_def holder sel
    proof (intro conjI ballI allI impI)
      fix k assume k: "k \<in> insert h (fst ` set (handles ?t))"
      have "k < next_handle ?t" if "k \<in> fst ` set (handles ?t)"
        using hs that unfolding handles_ok_def by blast
      then show "k < next_handle s'" using k new(2,3) by (metis insertE less_le_trans less_trans)
      show "\<exists>w. ((holder ?t)(None := Some h)) w = Some k"
        using k hs none unfolding handles_ok_def by (metis fun_upd_apply insertE option.discI)
    next
      fix w k assume "((holder ?t)(None := Some h)) w = Some k"
      then have "k = h \<or> k < next_handle ?t"
        using hs unfolding handles_ok_def by (metis fun_upd_apply option.inject)
      then show "k < next_handle s'" using new(2,3) by auto
    next
      fix w w' k
      assume "((holder ?t)(None := Some h)) w = Some k" "((holder ?t)(None := Some h)) w' = Some k"
      then show "w = w'" using hs old unfolding handles_ok_def by (auto split: if_splits)
    next
      fix v k assume "((holder ?t)(None := Some h)) (Some v) = Some k"
      then show "(k, database v) \<in> set (handles s')" using hs new(1) by (auto simp: handles_ok_def)
    next
      have "h \<notin> fst ` set (handles ?t)"
        using hs new(2) unfolding handles_ok_def by (metis not_less)
      then show "distinct (map fst (handles s'))" using hs new(1) by (simp add: handles_ok_def)
    qed
    moreover have "lru_ok s'" using t(1) same s' by (simp add: pool_ok_def lru_ok_def same_mgr_def)
    moreover have "recency s' = recency s" using same s' rec by (simp add: recency_def same_mgr_def)
    ultimately show ?thesis using s' new(1) by (simp add: pool_ok_def)
  qed
qed

lemma tryGetRootDB_ok:
  assumes ok: "pool_ok s" and run: "tryGetRootDB s = (r, s')"
  shows "pool_ok s' \<and> recency s' = recency s \<and> (\<forall>h. r = Inr h \<longrightarrow> rootDB s' = Some h \<and>
    h \<in> fst ` set (handles s'))"
proof -
  obtain r1 s1 where c1: "root_check s = (r1, s1)" by (cases "root_check s")
  note a = root_check_res [OF c1]
  then have s1: "pool_ok s1" "recency s1 = recency s"
    using ok by (auto intro: same_pool_ok simp: recency_def same_mgr_def)
  obtain r2 s2 where c2: "root_check s1 = (r2, s2)" by (cases "root_check s1")
  note b = root_check_res [OF c2]
  then have s2: "pool_ok s2" "recency s2 = recency s"
    using s1 by (auto intro: same_pool_ok simp: recency_def same_mgr_def)
  show ?thesis
  proof (cases r1)
    case (Some h)
    with run c1 have "r = Inr h" "s' = s1" by (simp_all add: tryGetRootDB_def)
    with Some a s1 show ?thesis by (simp add: same_mgr_def)
  next
    case r1: None
    show ?thesis
    proof (cases r2)
      case (Some h)
      with run c1 c2 r1 have "r = Inr h" "s' = s2" by (simp_all add: tryGetRootDB_def)
      with Some b s2 show ?thesis by (simp add: same_mgr_def)
    next
      case None
      with run c1 c2 r1 have "root_reconnect s2 = (r, s')" by (simp add: tryGetRootDB_def)
      from root_reconnect_ok [OF s2(1) this] s2(2) show ?thesis by simp
    qed
  qed
qed

lemma entry_close_eq:
  "entry_close e s = s\<lparr>handles := filter (\<lambda>p. Some (fst p) \<noteq> e_db e) (handles s)\<rparr>"
  by (cases "e_db e") (simp_all add: entry_close_def close_handle_def)

lemma fold_close:
  "fold (\<lambda>p. entry_close (snd p)) m s =
     s\<lparr>handles := filter (\<lambda>p. \<forall>e \<in> snd ` set m. Some (fst p) \<noteq> e_db e) (handles s)\<rparr>"
  by (induction m arbitrary: s) (simp_all add: entry_close_eq conj_commute)

text \<open>Closing the manager closes every handle: each open one is the root's or a user's.\<close>

lemma CloseManager_closes_all:
  assumes "pool_ok s"
  shows "handles (CloseManager s) = []"
proof -
  have held: "\<exists>w. holder s w = Some (fst p)" if "p \<in> set (handles s)" for p
    using assms that by (auto simp: pool_ok_def handles_ok_def)
  have entry: "\<exists>e \<in> snd ` set (userDBs s). e_db e = Some h" if "holder s (Some u) = Some h" for u h
    using that by (auto simp: holder_def bind_eq_Some_conv dest!: map_of_SomeD) force
  have "\<exists>e \<in> snd ` set (userDBs s). Some (fst p) = e_db e"
    if "p \<in> set (handles s)" "rootDB s \<noteq> Some (fst p)" for p
  proof -
    from held [OF that(1)] obtain w where w: "holder s w = Some (fst p)" ..
    then show ?thesis using entry that(2) by (cases w) (force simp: holder_def)+
  qed
  then show ?thesis
    by (auto simp: CloseManager_def closeAll_def fold_close close_handle_def filter_empty_conv split: option.split)
qed


lemma closeAll_ok:
  assumes ok: "pool_ok s"
  shows "pool_ok (closeAll s)"
proof -
  let ?m = "userDBs s" and ?t = "closeAll s"
  let ?f = "\<lambda>(u, e). (u, e\<lparr>e_db := None\<rparr>)"
  have get: "map_of (map ?f m) u = map_option (e_db_update (\<lambda>_. None)) (map_of m u)" for u m
    by (induction m) auto
  have lru: "lru_ok s" and hs: "handles_ok s" using ok by (simp_all add: pool_ok_def)
  have m: "map_ok ?m" using lru by (simp add: lru_ok_def)
  have holder: "holder ?t (Some u) = None" for u
    by (cases "map_of ?m u") (simp_all add: holder_def closeAll_def get)
  have root: "holder ?t None = holder s None" by (simp add: holder_def closeAll_def fold_close)
  have "lru_ok ?t"
  proof -
    have "map_ok (map ?f ?m)" using m by (simp add: map_ok_def comp_def case_prod_beta)
    moreover have "(\<exists>e. map_of (map ?f ?m) u = Some e \<and> e_element e = i) \<longleftrightarrow>
        (\<exists>e. map_of ?m u = Some e \<and> e_element e = i)" for u i
      by (auto simp: get)
    ultimately show ?thesis using lru unfolding lru_ok_def closeAll_def fold_close by simp
  qed
  moreover have "handles_ok ?t"
  proof -
    have "fst ` set (handles ?t) \<subseteq> fst ` set (handles s)" by (auto simp: closeAll_def fold_close)
    moreover have "holder s None = Some h" if h: "h \<in> fst ` set (handles ?t)" for h
    proof -
      from h hs obtain w where w: "holder s w = Some h"
        by (auto simp: closeAll_def fold_close handles_ok_def)
      have "w \<noteq> Some u" for u
      proof
        assume "w = Some u"
        with w obtain e where e: "map_of ?m u = Some e" "e_db e = Some h"
          by (auto simp: holder_def bind_eq_Some_conv)
        then have "e \<in> snd ` set ?m" by (metis image_eqI map_of_SomeD snd_conv)
        with h e show False by (auto simp: closeAll_def fold_close)
      qed
      with w show ?thesis by (cases w) auto
    qed
    moreover have "next_handle ?t = next_handle s" by (simp add: closeAll_def fold_close)
    moreover have "w = None \<and> holder s None = Some h" if "holder ?t w = Some h" for w h
      using that holder root by (cases w) auto
    moreover have "\<forall>h \<in> fst ` set (handles s). h < next_handle s"
      "\<forall>w h. holder s w = Some h \<longrightarrow> h < next_handle s" using hs unfolding handles_ok_def by blast+
    ultimately have sub: "fst ` set (handles ?t) \<subseteq> fst ` set (handles s)"
      and own: "\<And>h. h \<in> fst ` set (handles ?t) \<Longrightarrow> holder s None = Some h"
      and nh: "next_handle ?t = next_handle s"
      and only: "\<And>w h. holder ?t w = Some h \<Longrightarrow> w = None \<and> holder s None = Some h"
      and less: "\<forall>h \<in> fst ` set (handles s). h < next_handle s"
        "\<forall>w h. holder s w = Some h \<longrightarrow> h < next_handle s" by blast+
    show ?thesis
      unfolding handles_ok_def nh
    proof (intro conjI ballI allI impI)
      fix h assume h: "h \<in> fst ` set (handles ?t)"
      with sub less(1) show "h < next_handle s" by blast
      from own [OF h] root show "\<exists>w. holder ?t w = Some h" by metis
    next
      fix w h assume "holder ?t w = Some h"
      with only less(2) show "h < next_handle s" by blast
    next
      fix w w' h assume "holder ?t w = Some h" "holder ?t w' = Some h"
      with only show "w = w'" by metis
    next
      fix u h assume "holder ?t (Some u) = Some h"
      with holder [of u] show "(h, database u) \<in> set (handles ?t)" by simp
    next
      show "distinct (map fst (handles ?t))"
        using hs by (simp add: handles_ok_def closeAll_def fold_close distinct_map_filter)
    qed
  qed
  ultimately show ?thesis by (simp add: pool_ok_def)
qed

subsection \<open>Critical sections of many callers\<close>

text \<open>
  The manager's lock serialises these sections; between them any other caller may run.  A caller of
  \<open>getOrCreateUserDB\<close> runs \<open>fast_check\<close>, then \<open>touch\<close> with what it read (which may be out of date
  by then) or \<open>slow_path\<close>.
\<close>

inductive rdb_step :: "rdb \<Rightarrow> rdb \<Rightarrow> bool" where
  step_check: "fast_check u s = (r, s') \<Longrightarrow> rdb_step s s'"
| step_touch: "rdb_step s (touch i s)"
| step_slow: "slow_path u s = (r, s') \<Longrightarrow> rdb_step s s'"
| step_root: "tryGetRootDB s = (r, s') \<Longrightarrow> rdb_step s s'"
| step_server: "rdb_step s (s\<lparr>server := c\<rparr>)"
| step_close_all: "rdb_step s (closeAll s)"

inductive_cases rdb_stepE: "rdb_step s s'"

lemma rdb_step_ok: "rdb_step s s' \<Longrightarrow> pool_ok s \<Longrightarrow> pool_ok s'"
proof (induction rule: rdb_step.induct)
  case (step_check u s r s')
  then show ?case using fast_check_res [of u s r s'] by (auto intro: same_pool_ok)
next
  case (step_touch s i)
  then show ?case by (rule touch_ok)
next
  case (step_slow u s r s')
  then show ?case using slow_path_ok(1) by blast
next
  case (step_root s r s')
  then show ?case using tryGetRootDB_ok by blast
next
  case (step_server s c)
  have "holder (s\<lparr>server := c\<rparr>) = holder s"
    by (rule ext) (simp add: holder_def split: option.splits)
  with step_server show ?case by (simp add: pool_ok_def lru_ok_def handles_ok_def)
next
  case (step_close_all s)
  then show ?case by (rule closeAll_ok)
qed

lemma rdb_reach_ok: "rdb_step\<^sup>*\<^sup>* s s' \<Longrightarrow> pool_ok s \<Longrightarrow> pool_ok s'"
  by (induction rule: rtranclp_induct) (simp_all add: rdb_step_ok)

section \<open>Properties\<close>

text \<open>
  C16: Whatever callers interleave, the pool holds at most 64 users, its list and its map agree,
  every open connection belongs to the root or to exactly one pooled user, and a pooled user's
  connection is open and goes to that user's own database.
\<close>

theorem pool_invariant:
  assumes "rdb_step\<^sup>*\<^sup>* (newRootRDBManager os ps c) s"
  shows "length (userDBs s) \<le> 64 \<and> distinct (recency s) \<and> set (recency s) = fst ` set (userDBs s) \<and>
    (\<forall>h \<in> fst ` set (handles s). \<exists>w. holder s w = Some h) \<and>
    (\<forall>w w' h. holder s w = Some h \<longrightarrow> holder s w' = Some h \<longrightarrow> w = w') \<and>
    (\<forall>u h. holder s (Some u) = Some h \<longrightarrow> (h, database u) \<in> set (handles s))"
proof -
  have ok: "lru_ok s" "handles_ok s"
    using rdb_reach_ok [OF assms new_pool_ok] by (simp_all add: pool_ok_def)
  show ?thesis
  proof (intro conjI)
    show "length (userDBs s) \<le> 64" using ok(1) by (simp add: lru_ok_def UserDBPoolSize_def)
    show "distinct (recency s)" using ok(1) by (rule recency_distinct)
    show "set (recency s) = fst ` set (userDBs s)" using ok(1) by (rule recency_users)
  qed (use ok(2) in \<open>unfold handles_ok_def, blast+\<close>)
qed

definition empty_server :: crdb where
  "empty_server = \<lparr>c_databases = [], c_users = [], c_schemas = [], c_size = (\<lambda>_ _. None),
     c_tables = (\<lambda>_. []), c_faults = [], c_log = []\<rparr>"

theorem pool_invariant_witness:
  "recency (snd (slow_path ''u1'' (newRootRDBManager [] [] empty_server))) = [''u1''] \<and>
   distinct (recency (snd (slow_path ''u1'' (newRootRDBManager [] [] empty_server))))"
proof
  have "rdb_step (newRootRDBManager [] [] empty_server)
      (snd (slow_path ''u1'' (newRootRDBManager [] [] empty_server)))"
    by (rule step_slow) (rule prod.collapse [symmetric])
  then show "distinct (recency (snd (slow_path ''u1'' (newRootRDBManager [] [] empty_server))))"
    using pool_invariant [OF r_into_rtranclp] by blast
  show "recency (snd (slow_path ''u1'' (newRootRDBManager [] [] empty_server))) = [''u1'']"
    by (simp add: slow_path_def fast_check_def reconnect_def newRootRDBManager_def drop_entry_def
        evict_oldest_def UserDBPoolSize_def sql_Open_def ping_def add_entry_def recency_def
        numeral_3_eq_3)
qed

text \<open>
  C24: Asking for a user's connection makes that user the most recent one and keeps the others in
  their order, dropping the least recent one only when there would be more than 64; a failed
  attempt drops the user and also the least recent one of a full pool.
\<close>

theorem pool_is_lru:
  assumes "pool_ok s"
  shows "case getOrCreateUserDB u s of
      (Inr h, s') \<Rightarrow> recency s' = take 64 (u # removeAll u (recency s)) \<and> (h, database u) \<in> set (handles s')
    | (Inl e, s') \<Rightarrow> recency s' = take 63 (removeAll u (recency s))"
  using getOrCreate_ok [OF assms]
  by (auto split: prod.splits sum.splits simp: UserDBPoolSize_def)

theorem pool_is_lru_witness:
  "case getOrCreateUserDB ''u1'' (newRootRDBManager [] [] empty_server) of
      (Inr h, s') \<Rightarrow> recency s' = [''u1''] | (Inl e, s') \<Rightarrow> False"
proof -
  have "fst (getOrCreateUserDB ''u1'' (newRootRDBManager [] [] empty_server)) = Inr 0"
    by (simp add: getOrCreateUserDB_def slow_path_def fast_check_def reconnect_def
        newRootRDBManager_def drop_entry_def evict_oldest_def UserDBPoolSize_def sql_Open_def ping_def
        numeral_3_eq_3)
  then show ?thesis
    using pool_is_lru [OF new_pool_ok, of "''u1''" "[]" "[]" empty_server]
    by (auto simp: newRootRDBManager_def recency_def split: prod.splits sum.splits)
qed

text \<open>
  A user that was just given a connection keeps it while fewer than 64 other users ask for
  theirs, whether these attempts succeed or fail.
\<close>

theorem just_served_stays:
  assumes "pool_ok s" and "getOrCreateUserDB u s = (Inr h, s')"
    and "card (set others) < 64" and "u \<notin> set others"
  shows "u \<in> set (recency (fold (\<lambda>v t. snd (getOrCreateUserDB v t)) others s'))"
  using pool.just_served [OF assms(1,2) finite_set _ assms(4) subset_refl] assms(3)
  by (simp add: pool.serve_def UserDBPoolSize_def)

theorem just_served_stays_witness:
  "''u1'' \<in> set (recency (snd (getOrCreateUserDB ''u2''
     (snd (getOrCreateUserDB ''u1'' (newRootRDBManager [] [] empty_server))))))"
proof -
  have "fst (getOrCreateUserDB ''u1'' (newRootRDBManager [] [] empty_server)) = Inr 0"
    by (simp add: getOrCreateUserDB_def slow_path_def fast_check_def reconnect_def
        newRootRDBManager_def drop_entry_def evict_oldest_def UserDBPoolSize_def sql_Open_def ping_def
        numeral_3_eq_3)
  then have "getOrCreateUserDB ''u1'' (newRootRDBManager [] [] empty_server) =
      (Inr 0, snd (getOrCreateUserDB ''u1'' (newRootRDBManager [] [] empty_server)))"
    by (metis prod.collapse)
  from just_served_stays [OF new_pool_ok this, of "[''u2'']"] show ?thesis by simp
qed

end
