(* ===== verification/RdbOps.thy ===== *)
theory RdbOps
  imports Rdb
begin

text \<open>
  The operations of \<open>RootRDBManager\<close> (\<open>k8s/rdb.go\<close>): schemas of a user's database over the
  pooled connection, databases and users over the root connection, and the statistics queries.
\<close>

section \<open>Running a statement on a handle\<close>

definition rdb_bind :: "'a rdbop \<Rightarrow> ('a \<Rightarrow> 'b rdbop) \<Rightarrow> 'b rdbop" where
  "rdb_bind op k s = (case op s of (Inl e, s') \<Rightarrow> (Inl e, s') | (Inr x, s') \<Rightarrow> k x s')"

text \<open>The database a handle is connected to, if it is open; the root handle's is empty.\<close>

definition on_server :: "nat \<Rightarrow> (string \<Rightarrow> crdb \<Rightarrow> err + 'a \<times> crdb) \<Rightarrow> 'a rdbop" where
  "on_server h f s =
     (case map_of (handles s) h of
        None \<Rightarrow> (Inl (DriverErr ''sql: database is closed''), s)
      | Some cur \<Rightarrow>
          (let c = server s in
           case c_faults c of
             Some m # fs \<Rightarrow> (Inl (DriverErr m), s\<lparr>server := c\<lparr>c_faults := fs\<rparr>\<rparr>)
           | fs \<Rightarrow> (case f cur (c\<lparr>c_faults := tl fs\<rparr>) of
                      Inl e \<Rightarrow> (Inl e, s\<lparr>server := c\<lparr>c_faults := tl fs\<rparr>\<rparr>)
                    | Inr (x, c') \<Rightarrow> (Inr x, s\<lparr>server := c'\<rparr>))))"

definition db_Exec :: "nat \<Rightarrow> stmt \<Rightarrow> unit rdbop" where
  "db_Exec h st = on_server h (\<lambda>cur c.
     Inr ((), (stmt_effect cur st c)\<lparr>c_log := c_log c @ [(cur, stmt_text st)]\<rparr>))"

definition db_Query :: "nat \<Rightarrow> (string \<Rightarrow> crdb \<Rightarrow> err + 'a) \<Rightarrow> 'a rdbop" where
  "db_Query h q = on_server h (\<lambda>cur c. case q cur c of Inl e \<Rightarrow> Inl e | Inr x \<Rightarrow> Inr (x, c))"

section \<open>Schemas\<close>

definition CreateSchema :: "string \<Rightarrow> string \<Rightarrow> unit rdbop" where
  "CreateSchema userUID schemaID =
     rdb_bind (getOrCreateUserDB userUID) (\<lambda>db.
     rdb_bind (db_Exec db (CreateSchemaStmt (schema_name schemaID))) (\<lambda>_.
     db_Exec db (GrantSchema (schema_name schemaID) (username userUID))))"

definition DeleteSchema :: "string \<Rightarrow> string \<Rightarrow> unit rdbop" where
  "DeleteSchema userUID schemaID =
     rdb_bind (getOrCreateUserDB userUID) (\<lambda>db. db_Exec db (DropSchemaStmt (schema_name schemaID)))"

definition ListSchemas :: "string \<Rightarrow> string list rdbop" where
  "ListSchemas userUID =
     rdb_bind (getOrCreateUserDB userUID) (\<lambda>db.
     rdb_bind (db_Query db (\<lambda>cur c.
         Inr (filter (like ''schema_%'') (map snd (filter (\<lambda>p. fst p = cur) (c_schemas c)))))) (\<lambda>names s.
     (Inr (map (trim_prefix ''schema_'') names), s)))"

definition SchemaExists :: "string \<Rightarrow> string \<Rightarrow> bool rdbop" where
  "SchemaExists userUID schemaID =
     rdb_bind (getOrCreateUserDB userUID) (\<lambda>db.
     rdb_bind (db_Query db (\<lambda>cur c.
         Inr (length (filter (\<lambda>p. p = (cur, schema_name schemaID)) (c_schemas c))))) (\<lambda>count s.
     (Inr (0 < count), s)))"

section \<open>Databases and users\<close>

definition InitUserRDB :: "string \<Rightarrow> unit rdbop" where
  "InitUserRDB userUID =
     rdb_bind tryGetRootDB (\<lambda>db.
     rdb_bind (db_Exec db (CreateDatabase (database userUID))) (\<lambda>_.
     rdb_bind (db_Exec db (CreateUserStmt (username userUID))) (\<lambda>_.
     db_Exec db (GrantDatabase (database userUID) (username userUID)))))"

text \<open>The errors of the two statements are dropped.\<close>

definition DeleteUserRDB :: "string \<Rightarrow> unit rdbop" where
  "DeleteUserRDB userUID =
     rdb_bind tryGetRootDB (\<lambda>db s.
       (Inr (), snd (db_Exec db (DropUserStmt (username userUID))
                  (snd (db_Exec db (DropDatabaseStmt (database userUID)) s)))))"

definition DropDatabase :: "string \<Rightarrow> unit rdbop" where
  "DropDatabase dbName = rdb_bind tryGetRootDB (\<lambda>db. db_Exec db (DropDatabaseStmt dbName))"

definition RootListUserDatabases :: "string list rdbop" where
  "RootListUserDatabases =
     rdb_bind tryGetRootDB (\<lambda>db.
       db_Query db (\<lambda>cur c. Inr (filter (like ''db_%'') (c_databases c))))"

section \<open>Statistics\<close>

text \<open>A \<open>SUM\<close> over no row is \<open>NULL\<close>, which does not scan into an \<open>int64\<close>.\<close>

definition scan_size :: "int option \<Rightarrow> err + int" where
  "scan_size v = (case v of
     None \<Rightarrow> Inl (DriverErr ''sql: Scan error on column index 0: converting NULL to int64 is unsupported'')
   | Some n \<Rightarrow> Inr n)"

definition DatabaseSize :: "string \<Rightarrow> int rdbop" where
  "DatabaseSize userUID =
     rdb_bind tryGetRootDB (\<lambda>db.
       db_Query db (\<lambda>cur c. scan_size (c_size c (database userUID) None)))"

definition SchemaSize :: "string \<Rightarrow> string \<Rightarrow> int rdbop" where
  "SchemaSize userUID schemaID =
     rdb_bind tryGetRootDB (\<lambda>db.
       db_Query db (\<lambda>cur c. scan_size (c_size c (database userUID) (Some (schema_name schemaID)))))"

fun analyze_tables :: "nat \<Rightarrow> string \<Rightarrow> (string \<times> string) list \<Rightarrow> unit rdbop" where
  "analyze_tables db dbname [] s = (Inr (), s)"
| "analyze_tables db dbname ((sch, tbl) # ts) s =
     rdb_bind (db_Exec db (Analyze (dbname @ ''.'' @ sch @ ''.'' @ tbl)))
       (\<lambda>_. analyze_tables db dbname ts) s"

definition ForceAnalyze :: "string \<Rightarrow> unit rdbop" where
  "ForceAnalyze userUID =
     rdb_bind tryGetRootDB (\<lambda>rootdb.
     rdb_bind (db_Query rootdb (\<lambda>cur c. Inr (c_tables c (database userUID)))) (\<lambda>results.
     rdb_bind (getOrCreateUserDB userUID) (\<lambda>userdb.
       analyze_tables userdb (database userUID) results)))"

section \<open>Names\<close>

definition plain :: "string \<Rightarrow> bool" where
  "plain s \<longleftrightarrow> list_all (\<lambda>c. is_lower c \<or> is_digit c \<or> c = CHR ''_'') s"

lemma sanitize_map:
  "sanitize s = map (\<lambda>c. if c = CHR ''-'' \<or> c = CHR ''.'' then CHR ''_'' else lower_char c) s"
  by (simp add: sanitize_def to_lower_def replace_byte_def)
    (simp add: lower_char_def is_upper_def byte_def)

lemma sanitize_plain: "plain s \<Longrightarrow> sanitize s = s"
  unfolding sanitize_map plain_def list_all_iff
  by (rule map_idI)
    (auto simp: lower_char_id lower_not_upper digit_not_letter is_lower_def is_digit_def is_upper_def
      byte_def lower_char_def)

lemma sanitize_char:
  "c \<in> set (sanitize s) \<Longrightarrow> \<not> is_upper c \<and> c \<noteq> CHR ''-'' \<and> c \<noteq> CHR ''.''"
proof -
  have low: "lower_char d = d \<or> is_lower (lower_char d)" for d
    by (cases "is_upper d") (simp_all add: is_lower_lower_char lower_char_id)
  have "\<not> is_lower CHR ''-''" "\<not> is_lower CHR ''.''" "\<not> is_upper CHR ''_''"
    by (simp_all add: is_lower_def is_upper_def byte_def)
  then show "c \<in> set (sanitize s) \<Longrightarrow> \<not> is_upper c \<and> c \<noteq> CHR ''-'' \<and> c \<noteq> CHR ''.''"
    using low unfolding sanitize_map by (auto simp: lower_char_not_upper) metis+
qed

lemma sanitize_idem: "sanitize (sanitize s) = sanitize s"
  unfolding sanitize_map [of "sanitize s"]
  by (rule map_idI) (auto simp: lower_char_id dest: sanitize_char)

lemma database_inject: "plain u \<Longrightarrow> plain v \<Longrightarrow> database u = database v \<longleftrightarrow> u = v"
  by (simp add: database_def sanitize_plain)

lemma like_percent: "like [CHR ''%''] s"
  by (induction s) simp_all

lemma like_db: "like ''db_%'' s \<longleftrightarrow> (\<exists>c t. s = ''db'' @ c # t)"
proof -
  have "like ''db_%'' s \<longleftrightarrow> (case s of a # b # c # t \<Rightarrow> a = CHR ''d'' \<and> b = CHR ''b'' | _ \<Rightarrow> False)"
    by (auto split: list.split simp: like_percent)
  then show ?thesis by (auto split: list.splits)
qed

section \<open>Effects on the server\<close>

definition contents :: "crdb \<Rightarrow> string list \<times> string list \<times> (string \<times> string) list" where
  "contents c = (c_databases c, c_users c, c_schemas c)"

lemma on_server_frame: "on_server h f s = (r, s') \<Longrightarrow> s' = s\<lparr>server := server s'\<rparr>"
  by (auto simp: on_server_def Let_def split: option.splits list.splits sum.splits prod.splits)

lemma db_Exec_ok:
  "db_Exec h st s = (Inr u, s') \<Longrightarrow> \<exists>cur. map_of (handles s) h = Some cur \<and>
     contents (server s') = contents (stmt_effect cur st (server s))"
  by (cases st)
    (auto simp: db_Exec_def on_server_def Let_def contents_def
      split: option.splits list.splits)

lemma db_Exec_err:
  "db_Exec h st s = (Inl e, s') \<Longrightarrow> contents (server s') = contents (server s)"
  by (auto simp: db_Exec_def on_server_def Let_def contents_def split: option.splits list.splits)

lemma db_Query_contents:
  "db_Query h q s = (r, s') \<Longrightarrow> contents (server s') = contents (server s)"
  by (auto simp: db_Query_def on_server_def Let_def contents_def
      split: option.splits list.splits sum.splits)

lemma server_pool_ok: "pool_ok (s\<lparr>server := c\<rparr>) \<longleftrightarrow> pool_ok s"
proof -
  have "holder (s\<lparr>server := c\<rparr>) = holder s"
    by (rule ext) (simp add: holder_def split: option.splits)
  then show ?thesis by (simp add: pool_ok_def lru_ok_def handles_ok_def)
qed

lemma on_server_pool_ok: "on_server h f s = (r, s') \<Longrightarrow> pool_ok s' \<longleftrightarrow> pool_ok s"
  by (drule on_server_frame) (metis server_pool_ok)

lemma connect_server: "connect_loop n d m s = (r, s') \<Longrightarrow> server s' = server s"
proof (induction n arbitrary: s)
  case (Suc n)
  then show ?case
    by (auto simp: sql_Open_def ping_def close_handle_def
        split: list.splits option.splits prod.splits bool.splits if_splits dest!: Suc.IH)
qed simp

lemma evict_server: "server (evict_oldest t) = server t"
  by (simp add: evict_oldest_def Let_def split: option.splits prod.splits)

lemma fast_check_server: "fast_check u t = (r, t') \<Longrightarrow> server t' = server t"
  using fast_check_res [of u t r t'] by (simp add: same_mgr_def)

lemma slow_path_server: "slow_path u s = (r, s') \<Longrightarrow> server s' = server s"
proof -
  have drop: "server (drop_entry u t) = server t" for t
    by (simp add: drop_entry_def split: option.splits)
  have rc: "reconnect u t = (r, t') \<Longrightarrow> server t' = server t" for t t' r
    by (auto simp: reconnect_def add_entry_def evict_server drop split: prod.splits sum.splits
        dest!: connect_server)
  show "slow_path u s = (r, s') \<Longrightarrow> server s' = server s"
    by (auto simp: slow_path_def touch_def split: prod.splits option.splits dest!: fast_check_server rc)
qed

lemma getOrCreate_server: "getOrCreateUserDB u s = (r, s') \<Longrightarrow> server s' = server s"
  by (auto simp: getOrCreateUserDB_def touch_def split: prod.splits option.splits
      dest!: fast_check_server slow_path_server)

lemma tryGetRootDB_server: "tryGetRootDB s = (r, s') \<Longrightarrow> server s' = server s"
proof -
  have rc: "root_check t = (r, t') \<Longrightarrow> server t' = server t" for t t' r
    using root_check_res [of t r t'] by (simp add: same_mgr_def)
  have rr: "root_reconnect t = (r, t') \<Longrightarrow> server t' = server t" for t t' r
    by (auto simp: root_reconnect_def Let_def close_handle_def
        split: prod.splits sum.splits option.splits dest!: connect_server)
  show "tryGetRootDB s = (r, s') \<Longrightarrow> server s' = server s"
    by (auto simp: tryGetRootDB_def split: prod.splits option.splits dest!: rc rr)
qed

lemma rdb_bind_ok:
  assumes "rdb_bind op k s = (Inr y, s')"
  obtains x s1 where "op s = (Inr x, s1)" "k x s1 = (Inr y, s')"
  using assms unfolding rdb_bind_def by (auto split: prod.splits sum.splits)

lemma rdb_bind_cases:
  assumes "rdb_bind op k s = (r, s')"
  obtains e where "op s = (Inl e, s')" "r = Inl e"
  | x s1 where "op s = (Inr x, s1)" "k x s1 = (r, s')"
  using assms unfolding rdb_bind_def by (auto split: prod.splits sum.splits)

text \<open>A statement on a user's pooled connection runs in that user's database.\<close>

lemma user_handle:
  assumes "pool_ok s" "getOrCreateUserDB u s = (Inr h, s')"
  shows "map_of (handles s') h = Some (database u)" "pool_ok s'"
proof -
  have ok: "pool_ok s'" "(h, database u) \<in> set (handles s')" using getOrCreate_ok [OF assms] by auto
  then show "map_of (handles s') h = Some (database u)"
    by (auto simp: pool_ok_def handles_ok_def intro: map_of_is_SomeI)
  show "pool_ok s'" by (rule ok(1))
qed

lemma user_exec:
  assumes "pool_ok s" "map_of (handles s) h = Some cur" "db_Exec h st s = (r, s')"
  shows "(contents (server s') = contents (server s) \<or>
      contents (server s') = contents (stmt_effect cur st (server s))) \<and>
    (r = Inr () \<longrightarrow> contents (server s') = contents (stmt_effect cur st (server s))) \<and>
    pool_ok s' \<and> handles s' = handles s"
proof -
  have "handles s' = handles s" using on_server_frame [OF assms(3) [unfolded db_Exec_def]] by (metis select_convs(7) surjective update_convs(9))
  moreover have "pool_ok s'" using on_server_pool_ok [OF assms(3) [unfolded db_Exec_def]] assms(1) by simp
  ultimately show ?thesis
    using db_Exec_ok [of h st s "()" s'] db_Exec_err [of h st s _ s'] assms(2,3) by (cases r) auto
qed

lemma CreateSchema_effect:
  assumes ok: "pool_ok s" and run: "CreateSchema u sid s = (r, s')"
  shows "c_databases (server s') = c_databases (server s) \<and> c_users (server s') = c_users (server s) \<and>
    filter (\<lambda>p. fst p \<noteq> database u) (c_schemas (server s')) =
      filter (\<lambda>p. fst p \<noteq> database u) (c_schemas (server s)) \<and>
    (r = Inr () \<longrightarrow> (database u, schema_name sid) \<in> set (c_schemas (server s')))"
  using run unfolding CreateSchema_def
proof (cases rule: rdb_bind_cases)
  case (1 e)
  then show ?thesis by (auto dest: getOrCreate_server)
next
  case (2 h s1)
  note h = user_handle [OF ok 2(1)]
  have s1: "server s1 = server s" using 2(1) by (rule getOrCreate_server)
  from 2(2) show ?thesis
  proof (cases rule: rdb_bind_cases)
    case (1 e)
    from user_exec [OF h(2,1) 1(1)] 1(2) s1 show ?thesis by (auto simp: contents_def add_new_def)
  next
    case (2 x s2)
    from user_exec [OF h(2,1) 2(1)] have s2: "pool_ok s2" "map_of (handles s2) h = Some (database u)"
      "contents (server s2) = contents (stmt_effect (database u) (CreateSchemaStmt (schema_name sid)) (server s1))"
      using h by auto
    from user_exec [OF s2(1,2) 2(2)] s2(3) s1 show ?thesis by (auto simp: contents_def add_new_def)
  qed
qed

lemma DeleteSchema_effect:
  assumes ok: "pool_ok s" and run: "DeleteSchema u sid s = (r, s')"
  shows "c_databases (server s') = c_databases (server s) \<and> c_users (server s') = c_users (server s) \<and>
    removeAll (database u, schema_name sid) (c_schemas (server s')) =
      removeAll (database u, schema_name sid) (c_schemas (server s)) \<and>
    (r = Inr () \<longrightarrow> (database u, schema_name sid) \<notin> set (c_schemas (server s')))"
  using run unfolding DeleteSchema_def
proof (cases rule: rdb_bind_cases)
  case (1 e)
  then show ?thesis by (auto dest: getOrCreate_server)
next
  case (2 h s1)
  note h = user_handle [OF ok 2(1)]
  have s1: "server s1 = server s" using 2(1) by (rule getOrCreate_server)
  from user_exec [OF h(2,1) 2(2)] s1 show ?thesis
    by (auto simp: contents_def removeAll_id)
qed

lemma InitUserRDB_effect:
  assumes run: "InitUserRDB u s = (Inr x, s')"
  shows "contents (server s') = (add_new (database u) (c_databases (server s)),
    add_new (username u) (c_users (server s)), c_schemas (server s))"
proof -
  from run obtain h s1 s2 s3 y z where "tryGetRootDB s = (Inr h, s1)"
    "db_Exec h (CreateDatabase (database u)) s1 = (Inr y, s2)"
    "db_Exec h (CreateUserStmt (username u)) s2 = (Inr z, s3)"
    "db_Exec h (GrantDatabase (database u) (username u)) s3 = (Inr x, s')"
    unfolding InitUserRDB_def by (elim rdb_bind_ok)
  then show ?thesis
    by (auto simp: contents_def dest!: tryGetRootDB_server db_Exec_ok)
qed

lemma DropDatabase_effect:
  "DropDatabase n s = (Inr x, s') \<Longrightarrow> contents (server s') =
    (removeAll n (c_databases (server s)), c_users (server s),
     filter (\<lambda>p. fst p \<noteq> n) (c_schemas (server s)))"
  unfolding DropDatabase_def
  by (elim rdb_bind_ok) (auto simp: contents_def dest!: tryGetRootDB_server db_Exec_ok)

lemma DropDatabase_err: "DropDatabase n s = (Inl e, s') \<Longrightarrow> contents (server s') = contents (server s)"
  unfolding DropDatabase_def
  by (elim rdb_bind_cases) (auto dest!: tryGetRootDB_server db_Exec_err)

lemma RootListUserDatabases_ok:
  "RootListUserDatabases s = (Inr ds, s') \<Longrightarrow>
     ds = filter (like ''db_%'') (c_databases (server s)) \<and> contents (server s') = contents (server s)"
  unfolding RootListUserDatabases_def
  by (elim rdb_bind_ok)
    (auto simp: db_Query_def on_server_def Let_def contents_def
      split: option.splits list.splits dest!: tryGetRootDB_server)

section \<open>Properties\<close>

text \<open>
  Sanitizing is idempotent and leaves the ids the program generates alone, so different users
  get different databases; ids that differ in case or in a dot for a hyphen would share one.
\<close>

theorem database_names:
  assumes "plain u" and "plain v"
  shows "(database u = database v \<longleftrightarrow> u = v) \<and> sanitize (sanitize t) = sanitize t \<and>
    database ''a-b'' = database ''A.B''"
proof -
  have "database ''a-b'' = database ''A.B''"
    by code_simp
  then show ?thesis using database_inject [OF assms] sanitize_idem by simp
qed

theorem database_names_witness: "database ''alice0000001'' \<noteq> database ''alice0000002''"
  using database_names [of "''alice0000001''" "''alice0000002''"]
  by (simp add: plain_def is_lower_def is_digit_def byte_def)



end
