(* ===== verification/JobTypes.thy ===== *)
theory JobTypes
  imports Json
begin

text \<open>
  \<open>handlers/jobs/*\<close>: the job structs with their type, id, JSON fields and constructor, and the factory the
  \<open>init\<close> functions of the package fill before \<open>main\<close> runs.
\<close>

section \<open>The structs\<close>

text \<open>The structs that implement \<open>k8s.Job\<close>; \<open>None\<close> for a nil map.\<close>

datatype job =
    RegisterUserJob string
  | UserAuditJob
  | DeployWorkerJob string string int
  | DeleteWorkerCRJob string string
  | SyncEnvJob string string "string gomap option"
  | SyncSecretJob string string "string gomap option"
  | CreateRDBJob string string string
  | DeleteRDBJob string string
  | CreateKVJob string string
  | DeleteKVJob string string
  | DomainCheckJob

text \<open>\<open>JobType...\<close> of \<open>basic.jobs.go\<close>\<close>

definition JobTypeAuthRegisterUser :: string where [simp]: "JobTypeAuthRegisterUser = ''auth.register_user''"
definition JobTypeAuthUserAudit :: string where [simp]: "JobTypeAuthUserAudit = ''auth.user_audit''"
definition JobTypeWorkerDeployWorker :: string where [simp]: "JobTypeWorkerDeployWorker = ''worker.deploy_worker''"
definition JobTypeWorkerDeleteWorkerCR :: string where [simp]: "JobTypeWorkerDeleteWorkerCR = ''worker.delete_worker_cr''"
definition JobTypeWorkerSyncEnv :: string where [simp]: "JobTypeWorkerSyncEnv = ''worker.sync_env''"
definition JobTypeWorkerSyncSecret :: string where [simp]: "JobTypeWorkerSyncSecret = ''worker.sync_secret''"
definition JobTypeCombinatorCreateRDB :: string where [simp]: "JobTypeCombinatorCreateRDB = ''combinator.create_rdb''"
definition JobTypeCombinatorDeleteRDB :: string where [simp]: "JobTypeCombinatorDeleteRDB = ''combinator.delete_rdb''"
definition JobTypeCombinatorCreateKV :: string where [simp]: "JobTypeCombinatorCreateKV = ''combinator.create_kv''"
definition JobTypeCombinatorDeleteKV :: string where [simp]: "JobTypeCombinatorDeleteKV = ''combinator.delete_kv''"
definition JobTypeDomainCheck :: string where [simp]: "JobTypeDomainCheck = ''domain.check''"

section \<open>The factory\<close>

text \<open>
  \<open>objectBuilders\<close> as the job each builder makes: an empty struct.  Registering a type twice keeps the
  last builder.
\<close>

type_synonym factory = "string \<rightharpoonup> job"

definition RegisterJobType :: "string \<Rightarrow> job \<Rightarrow> factory \<Rightarrow> factory" where
  "RegisterJobType jobType object f = f(jobType \<mapsto> object)"

section \<open>Fields, type, id, registration and constructor of each job\<close>

text \<open>
  The fields are listed under their JSON tags; \<open>deleteRDBJob\<close> has no tags, so its fields keep their Go
  names.
\<close>

text \<open>\<open>userAuditJob\<close>\<close>

definition userAuditJob_fields :: "(string \<times> json) list" where
  [simp]: "userAuditJob_fields = []"

definition userAuditJob_Type :: string where
  [simp]: "userAuditJob_Type = JobTypeAuthUserAudit"

definition userAuditJob_ID :: "string" where
  [simp]: "userAuditJob_ID = ''periodic''"

definition userAuditJob_init :: "factory \<Rightarrow> factory" where
  "userAuditJob_init = RegisterJobType JobTypeAuthUserAudit (UserAuditJob)"

definition NewUserAuditJob :: "job" where
  [simp]: "NewUserAuditJob = UserAuditJob"

text \<open>\<open>registerUserJob\<close>\<close>

definition registerUserJob_fields :: "string \<Rightarrow> (string \<times> json) list" where
  [simp]: "registerUserJob_fields userUID = [(''user_uid'', JStr userUID)]"

definition registerUserJob_Type :: string where
  [simp]: "registerUserJob_Type = JobTypeAuthRegisterUser"

definition registerUserJob_ID :: "string \<Rightarrow> string" where
  [simp]: "registerUserJob_ID userUID = userUID"

definition registerUserJob_init :: "factory \<Rightarrow> factory" where
  "registerUserJob_init = RegisterJobType JobTypeAuthRegisterUser (RegisterUserJob '''')"

definition NewRegisterUserJob :: "string \<Rightarrow> job" where
  [simp]: "NewRegisterUserJob = RegisterUserJob"

text \<open>\<open>createRDBJob\<close>\<close>

definition createRDBJob_fields :: "string \<Rightarrow> string \<Rightarrow> string \<Rightarrow> (string \<times> json) list" where
  [simp]: "createRDBJob_fields userUID name resourceID = [(''user_uid'', JStr userUID), (''name'', JStr name), (''resource_id'', JStr resourceID)]"

definition createRDBJob_Type :: string where
  [simp]: "createRDBJob_Type = JobTypeCombinatorCreateRDB"

definition createRDBJob_ID :: "string \<Rightarrow> string \<Rightarrow> string \<Rightarrow> string" where
  [simp]: "createRDBJob_ID userUID name resourceID = createRDBJob_Type @ userUID @ ''_'' @ resourceID"

definition createRDBJob_init :: "factory \<Rightarrow> factory" where
  "createRDBJob_init = RegisterJobType JobTypeCombinatorCreateRDB (CreateRDBJob '''' '''' '''')"

definition NewCreateRDBJob :: "string \<Rightarrow> string \<Rightarrow> string \<Rightarrow> job" where
  [simp]: "NewCreateRDBJob = CreateRDBJob"

text \<open>\<open>deleteRDBJob\<close>\<close>

definition deleteRDBJob_fields :: "string \<Rightarrow> string \<Rightarrow> (string \<times> json) list" where
  [simp]: "deleteRDBJob_fields userUID resourceID = [(''UserUID'', JStr userUID), (''ResourceID'', JStr resourceID)]"

definition deleteRDBJob_Type :: string where
  [simp]: "deleteRDBJob_Type = JobTypeCombinatorDeleteRDB"

definition deleteRDBJob_ID :: "string \<Rightarrow> string \<Rightarrow> string" where
  [simp]: "deleteRDBJob_ID userUID resourceID = deleteRDBJob_Type @ userUID @ ''_'' @ resourceID"

definition deleteRDBJob_init :: "factory \<Rightarrow> factory" where
  "deleteRDBJob_init = RegisterJobType JobTypeCombinatorDeleteRDB (DeleteRDBJob '''' '''')"

definition NewDeleteRDBJob :: "string \<Rightarrow> string \<Rightarrow> job" where
  [simp]: "NewDeleteRDBJob = DeleteRDBJob"

text \<open>\<open>createKVJob\<close>\<close>

definition createKVJob_fields :: "string \<Rightarrow> string \<Rightarrow> (string \<times> json) list" where
  [simp]: "createKVJob_fields userUID resourceID = [(''user_uid'', JStr userUID), (''resource_id'', JStr resourceID)]"

definition createKVJob_Type :: string where
  [simp]: "createKVJob_Type = JobTypeCombinatorCreateKV"

definition createKVJob_ID :: "string \<Rightarrow> string \<Rightarrow> string" where
  [simp]: "createKVJob_ID userUID resourceID = createKVJob_Type @ userUID @ ''_'' @ resourceID"

definition createKVJob_init :: "factory \<Rightarrow> factory" where
  "createKVJob_init = RegisterJobType JobTypeCombinatorCreateKV (CreateKVJob '''' '''')"

definition NewCreateKVJob :: "string \<Rightarrow> string \<Rightarrow> job" where
  [simp]: "NewCreateKVJob = CreateKVJob"

text \<open>\<open>deleteKVJob\<close>\<close>

definition deleteKVJob_fields :: "string \<Rightarrow> string \<Rightarrow> (string \<times> json) list" where
  [simp]: "deleteKVJob_fields userUID resourceID = [(''user_uid'', JStr userUID), (''resource_id'', JStr resourceID)]"

definition deleteKVJob_Type :: string where
  [simp]: "deleteKVJob_Type = JobTypeCombinatorDeleteKV"

definition deleteKVJob_ID :: "string \<Rightarrow> string \<Rightarrow> string" where
  [simp]: "deleteKVJob_ID userUID resourceID = deleteKVJob_Type @ userUID @ ''_'' @ resourceID"

definition deleteKVJob_init :: "factory \<Rightarrow> factory" where
  "deleteKVJob_init = RegisterJobType JobTypeCombinatorDeleteKV (DeleteKVJob '''' '''')"

definition NewDeleteKVJob :: "string \<Rightarrow> string \<Rightarrow> job" where
  [simp]: "NewDeleteKVJob = DeleteKVJob"

text \<open>\<open>domainCheckJob\<close>\<close>

definition domainCheckJob_fields :: "(string \<times> json) list" where
  [simp]: "domainCheckJob_fields = []"

definition domainCheckJob_Type :: string where
  [simp]: "domainCheckJob_Type = JobTypeDomainCheck"

definition domainCheckJob_ID :: "string" where
  [simp]: "domainCheckJob_ID = ''periodic''"

definition domainCheckJob_init :: "factory \<Rightarrow> factory" where
  "domainCheckJob_init = RegisterJobType JobTypeDomainCheck (DomainCheckJob)"

definition NewDomainCheckJob :: "job" where
  [simp]: "NewDomainCheckJob = DomainCheckJob"

text \<open>\<open>deployWorkerJob\<close>\<close>

definition deployWorkerJob_fields :: "string \<Rightarrow> string \<Rightarrow> int \<Rightarrow> (string \<times> json) list" where
  [simp]: "deployWorkerJob_fields workerID userUID versionID = [(''worker_id'', JStr workerID), (''user_uid'', JStr userUID), (''version_id'', JNum versionID)]"

definition deployWorkerJob_Type :: string where
  [simp]: "deployWorkerJob_Type = JobTypeWorkerDeployWorker"

definition deployWorkerJob_ID :: "string \<Rightarrow> string \<Rightarrow> int \<Rightarrow> string" where
  [simp]: "deployWorkerJob_ID workerID userUID versionID = workerID @ ''-'' @ userUID @ ''-'' @ dec_int versionID"

definition deployWorkerJob_init :: "factory \<Rightarrow> factory" where
  "deployWorkerJob_init = RegisterJobType JobTypeWorkerDeployWorker (DeployWorkerJob '''' '''' 0)"

definition NewDeployWorkerJob :: "string \<Rightarrow> string \<Rightarrow> int \<Rightarrow> job" where
  [simp]: "NewDeployWorkerJob = DeployWorkerJob"

text \<open>\<open>syncEnvJob\<close>\<close>

definition syncEnvJob_fields :: "string \<Rightarrow> string \<Rightarrow> string gomap option \<Rightarrow> (string \<times> json) list" where
  [simp]: "syncEnvJob_fields workerID userUID data = [(''worker_id'', JStr workerID), (''user_uid'', JStr userUID), (''data'', marshal_map data)]"

definition syncEnvJob_Type :: string where
  [simp]: "syncEnvJob_Type = JobTypeWorkerSyncEnv"

definition syncEnvJob_ID :: "string \<Rightarrow> string \<Rightarrow> string gomap option \<Rightarrow> string" where
  [simp]: "syncEnvJob_ID workerID userUID data = workerID"

definition syncEnvJob_init :: "factory \<Rightarrow> factory" where
  "syncEnvJob_init = RegisterJobType JobTypeWorkerSyncEnv (SyncEnvJob '''' '''' None)"

definition NewSyncEnvJob :: "string \<Rightarrow> string \<Rightarrow> string gomap option \<Rightarrow> job" where
  [simp]: "NewSyncEnvJob = SyncEnvJob"

text \<open>\<open>syncSecretJob\<close>\<close>

definition syncSecretJob_fields :: "string \<Rightarrow> string \<Rightarrow> string gomap option \<Rightarrow> (string \<times> json) list" where
  [simp]: "syncSecretJob_fields workerID userUID data = [(''worker_id'', JStr workerID), (''user_uid'', JStr userUID), (''data'', marshal_map data)]"

definition syncSecretJob_Type :: string where
  [simp]: "syncSecretJob_Type = JobTypeWorkerSyncSecret"

definition syncSecretJob_ID :: "string \<Rightarrow> string \<Rightarrow> string gomap option \<Rightarrow> string" where
  [simp]: "syncSecretJob_ID workerID userUID data = workerID"

definition syncSecretJob_init :: "factory \<Rightarrow> factory" where
  "syncSecretJob_init = RegisterJobType JobTypeWorkerSyncSecret (SyncSecretJob '''' '''' None)"

definition NewSyncSecretJob :: "string \<Rightarrow> string \<Rightarrow> string gomap option \<Rightarrow> job" where
  [simp]: "NewSyncSecretJob = SyncSecretJob"

text \<open>\<open>deleteWorkerCRJob\<close>\<close>

definition deleteWorkerCRJob_fields :: "string \<Rightarrow> string \<Rightarrow> (string \<times> json) list" where
  [simp]: "deleteWorkerCRJob_fields workerID userUID = [(''worker_id'', JStr workerID), (''user_uid'', JStr userUID)]"

definition deleteWorkerCRJob_Type :: string where
  [simp]: "deleteWorkerCRJob_Type = JobTypeWorkerDeleteWorkerCR"

definition deleteWorkerCRJob_ID :: "string \<Rightarrow> string \<Rightarrow> string" where
  [simp]: "deleteWorkerCRJob_ID workerID userUID = workerID"

definition deleteWorkerCRJob_init :: "factory \<Rightarrow> factory" where
  "deleteWorkerCRJob_init = RegisterJobType JobTypeWorkerDeleteWorkerCR (DeleteWorkerCRJob '''' '''')"

definition NewDeleteWorkerCRJob :: "string \<Rightarrow> string \<Rightarrow> job" where
  [simp]: "NewDeleteWorkerCRJob = DeleteWorkerCRJob"
section \<open>The methods of the interface\<close>

fun job_type :: "job \<Rightarrow> string" where
  "job_type UserAuditJob = userAuditJob_Type"
| "job_type (RegisterUserJob _) = registerUserJob_Type"
| "job_type (CreateRDBJob _ _ _) = createRDBJob_Type"
| "job_type (DeleteRDBJob _ _) = deleteRDBJob_Type"
| "job_type (CreateKVJob _ _) = createKVJob_Type"
| "job_type (DeleteKVJob _ _) = deleteKVJob_Type"
| "job_type DomainCheckJob = domainCheckJob_Type"
| "job_type (DeployWorkerJob _ _ _) = deployWorkerJob_Type"
| "job_type (SyncEnvJob _ _ _) = syncEnvJob_Type"
| "job_type (SyncSecretJob _ _ _) = syncSecretJob_Type"
| "job_type (DeleteWorkerCRJob _ _) = deleteWorkerCRJob_Type"

fun job_ID :: "job \<Rightarrow> string" where
  "job_ID UserAuditJob = userAuditJob_ID"
| "job_ID (RegisterUserJob userUID) = registerUserJob_ID userUID"
| "job_ID (CreateRDBJob userUID name resourceID) = createRDBJob_ID userUID name resourceID"
| "job_ID (DeleteRDBJob userUID resourceID) = deleteRDBJob_ID userUID resourceID"
| "job_ID (CreateKVJob userUID resourceID) = createKVJob_ID userUID resourceID"
| "job_ID (DeleteKVJob userUID resourceID) = deleteKVJob_ID userUID resourceID"
| "job_ID DomainCheckJob = domainCheckJob_ID"
| "job_ID (DeployWorkerJob workerID userUID versionID) = deployWorkerJob_ID workerID userUID versionID"
| "job_ID (SyncEnvJob workerID userUID data) = syncEnvJob_ID workerID userUID data"
| "job_ID (SyncSecretJob workerID userUID data) = syncSecretJob_ID workerID userUID data"
| "job_ID (DeleteWorkerCRJob workerID userUID) = deleteWorkerCRJob_ID workerID userUID"

fun marshal_job :: "job \<Rightarrow> json" where
  "marshal_job UserAuditJob = JObj userAuditJob_fields"
| "marshal_job (RegisterUserJob userUID) = JObj (registerUserJob_fields userUID)"
| "marshal_job (CreateRDBJob userUID name resourceID) = JObj (createRDBJob_fields userUID name resourceID)"
| "marshal_job (DeleteRDBJob userUID resourceID) = JObj (deleteRDBJob_fields userUID resourceID)"
| "marshal_job (CreateKVJob userUID resourceID) = JObj (createKVJob_fields userUID resourceID)"
| "marshal_job (DeleteKVJob userUID resourceID) = JObj (deleteKVJob_fields userUID resourceID)"
| "marshal_job DomainCheckJob = JObj domainCheckJob_fields"
| "marshal_job (DeployWorkerJob workerID userUID versionID) = JObj (deployWorkerJob_fields workerID userUID versionID)"
| "marshal_job (SyncEnvJob workerID userUID data) = JObj (syncEnvJob_fields workerID userUID data)"
| "marshal_job (SyncSecretJob workerID userUID data) = JObj (syncSecretJob_fields workerID userUID data)"
| "marshal_job (DeleteWorkerCRJob workerID userUID) = JObj (deleteWorkerCRJob_fields workerID userUID)"

section \<open>Package initialisation\<close>

text \<open>
  Go runs the \<open>init\<close> functions file by file, the files by name, after \<open>globalFactory\<close> is made.
\<close>

definition package_inits :: "(factory \<Rightarrow> factory) list" where
  "package_inits = [userAuditJob_init, registerUserJob_init, createRDBJob_init,
     deleteRDBJob_init, createKVJob_init, deleteKVJob_init, domainCheckJob_init,
     deployWorkerJob_init, syncEnvJob_init, syncSecretJob_init, deleteWorkerCRJob_init]"

definition run_inits :: "(factory \<Rightarrow> factory) list \<Rightarrow> factory" where
  "run_inits is = fold (\<lambda>i f. i f) is Map.empty"

definition object_builders :: factory where
  "object_builders = run_inits package_inits"

lemmas init_defs = userAuditJob_init_def registerUserJob_init_def createRDBJob_init_def deleteRDBJob_init_def
  createKVJob_init_def deleteKVJob_init_def domainCheckJob_init_def deployWorkerJob_init_def syncEnvJob_init_def
  syncSecretJob_init_def deleteWorkerCRJob_init_def RegisterJobType_def

lemmas builders = object_builders_def run_inits_def package_inits_def init_defs

text \<open>The empty struct of a job's type.\<close>

fun blank :: "job \<Rightarrow> job" where
  "blank UserAuditJob = UserAuditJob"
| "blank (RegisterUserJob _) = RegisterUserJob ''''"
| "blank (CreateRDBJob _ _ _) = CreateRDBJob '''' '''' ''''"
| "blank (DeleteRDBJob _ _) = DeleteRDBJob '''' ''''"
| "blank (CreateKVJob _ _) = CreateKVJob '''' ''''"
| "blank (DeleteKVJob _ _) = DeleteKVJob '''' ''''"
| "blank DomainCheckJob = DomainCheckJob"
| "blank (DeployWorkerJob _ _ _) = DeployWorkerJob '''' '''' 0"
| "blank (SyncEnvJob _ _ _) = SyncEnvJob '''' '''' None"
| "blank (SyncSecretJob _ _ _) = SyncSecretJob '''' '''' None"
| "blank (DeleteWorkerCRJob _ _) = DeleteWorkerCRJob '''' ''''"

lemma builder_found: "object_builders (job_type j) = Some (blank j)"
  by (cases j) (simp_all add: builders)

lemma builder_type: "object_builders ty = Some j \<Longrightarrow> job_type j = ty \<and> blank j = j"
  by (auto simp: builders split: if_splits)

lemma type_of_blank: "job_type j = job_type k \<longleftrightarrow> blank j = blank k"
  by (metis builder_found option.inject builder_type)

text \<open>Every registration is an update at the type of the job it makes.\<close>

definition registration :: "job \<Rightarrow> factory \<Rightarrow> factory" where
  "registration j f = f(job_type j \<mapsto> blank j)"

lemma inits_register: "i \<in> set package_inits \<Longrightarrow> \<exists>j. i = registration j"
proof -
  have r: "userAuditJob_init = registration UserAuditJob" "registerUserJob_init = registration (RegisterUserJob '''')"
    "createRDBJob_init = registration (CreateRDBJob '''' '''' '''')" "deleteRDBJob_init = registration (DeleteRDBJob '''' '''')"
    "createKVJob_init = registration (CreateKVJob '''' '''')" "deleteKVJob_init = registration (DeleteKVJob '''' '''')"
    "domainCheckJob_init = registration DomainCheckJob" "deployWorkerJob_init = registration (DeployWorkerJob '''' '''' 0)"
    "syncEnvJob_init = registration (SyncEnvJob '''' '''' None)"
    "syncSecretJob_init = registration (SyncSecretJob '''' '''' None)"
    "deleteWorkerCRJob_init = registration (DeleteWorkerCRJob '''' '''')"
    by (simp_all add: fun_eq_iff registration_def init_defs)
  show "i \<in> set package_inits \<Longrightarrow> \<exists>j. i = registration j"
    unfolding package_inits_def r by auto
qed

lemma run_inits_snoc: "run_inits (is @ [i]) = i (run_inits is)"
  by (simp add: run_inits_def)

lemma run_registrations:
  assumes "set is \<subseteq> range registration"
  shows "run_inits is (job_type j) = (if registration j \<in> set is then Some (blank j) else None) \<and>
    (ty \<notin> range job_type \<longrightarrow> run_inits is ty = None)"
  using assms
proof (induction "is" rule: rev_induct)
  case (snoc i "is")
  then obtain k where i: "i = registration k" by auto
  have same: "registration j = registration k \<longleftrightarrow> job_type j = job_type k"
  proof
    assume "registration j = registration k"
    then have "registration j Map.empty (job_type j) = registration k Map.empty (job_type j)" by simp
    then show "job_type j = job_type k" by (simp add: registration_def split: if_splits)
  next
    assume "job_type j = job_type k"
    then show "registration j = registration k" by (auto simp: registration_def fun_eq_iff type_of_blank)
  qed
  have upd: "registration k f t = (if t = job_type k then Some (blank k) else f t)" for f t
    by (simp add: registration_def)
  from snoc have "set is \<subseteq> range registration" by simp
  from snoc.IH [OF this] show ?case
    by (auto simp: run_inits_snoc i upd same type_of_blank)
qed (simp add: run_inits_def)

text \<open>
  However the \<open>init\<close> functions of the package are ordered, or repeated, the factory is the same: it
  builds the empty struct of every job's type, each under its own type, and nothing else.
\<close>

theorem registry_any_order:
  assumes "set is = set package_inits"
  shows "run_inits is = object_builders \<and> (\<forall>j. run_inits is (job_type j) = Some (blank j)) \<and>
    dom (run_inits is) = range job_type"
proof -
  have r: "set is \<subseteq> range registration" "set package_inits \<subseteq> range registration"
    using inits_register assms by auto
  have "run_inits is ty = object_builders ty" for ty
  proof (cases "ty \<in> range job_type")
    case True
    then obtain j where "ty = job_type j" by blast
    then show ?thesis using run_registrations [OF r(1), of j ty] run_registrations [OF r(2), of j ty] assms
      by (simp add: object_builders_def)
  next
    case False
    then show ?thesis using run_registrations [OF r(1), of UserAuditJob ty] run_registrations [OF r(2), of UserAuditJob ty]
      by (simp add: object_builders_def)
  qed
  then have eq: "run_inits is = object_builders" by blast
  have "dom object_builders = range job_type"
    using builder_found builder_type by (fastforce simp: dom_def)
  with eq show ?thesis by (simp add: builder_found)
qed

theorem registry_any_order_witness: "run_inits (rev package_inits) = object_builders"
  using registry_any_order [of "rev package_inits"] by simp

end
