(* ===== verification/JobCodec.thy ===== *)
theory JobCodec
  imports JobTypes
begin

text \<open>
  \<open>CreateJob\<close> of \<open>handlers/jobs/basic.jobs.go\<close>, which builds a job from a type string and JSON data, and
  the codec it makes with the marshalling of the jobs.
\<close>

section \<open>Decoding\<close>

text \<open>\<open>json.Unmarshal\<close> of an object's members into a job (\<open>None\<close>: a type error).\<close>

fun fill_job :: "json gomap \<Rightarrow> job \<Rightarrow> job option" where
  "fill_job ms (RegisterUserJob uid) = map_option RegisterUserJob (field_str ''user_uid'' ms uid)"
| "fill_job ms UserAuditJob = Some UserAuditJob"
| "fill_job ms (DeployWorkerJob wid uid v) =
     Option.bind (field_str ''worker_id'' ms wid) (\<lambda>w.
     Option.bind (field_str ''user_uid'' ms uid) (\<lambda>u.
     map_option (DeployWorkerJob w u) (field_int ''version_id'' ms v)))"
| "fill_job ms (DeleteWorkerCRJob wid uid) =
     Option.bind (field_str ''worker_id'' ms wid) (\<lambda>w.
     map_option (DeleteWorkerCRJob w) (field_str ''user_uid'' ms uid))"
| "fill_job ms (SyncEnvJob wid uid m) =
     Option.bind (field_str ''worker_id'' ms wid) (\<lambda>w.
     Option.bind (field_str ''user_uid'' ms uid) (\<lambda>u.
     map_option (SyncEnvJob w u) (field_map ''data'' ms m)))"
| "fill_job ms (SyncSecretJob wid uid m) =
     Option.bind (field_str ''worker_id'' ms wid) (\<lambda>w.
     Option.bind (field_str ''user_uid'' ms uid) (\<lambda>u.
     map_option (SyncSecretJob w u) (field_map ''data'' ms m)))"
| "fill_job ms (CreateRDBJob uid name rid) =
     Option.bind (field_str ''user_uid'' ms uid) (\<lambda>u.
     Option.bind (field_str ''name'' ms name) (\<lambda>n.
     map_option (CreateRDBJob u n) (field_str ''resource_id'' ms rid)))"
| "fill_job ms (DeleteRDBJob uid rid) =
     Option.bind (field_str ''UserUID'' ms uid) (\<lambda>u.
     map_option (DeleteRDBJob u) (field_str ''ResourceID'' ms rid))"
| "fill_job ms (CreateKVJob uid rid) =
     Option.bind (field_str ''user_uid'' ms uid) (\<lambda>u.
     map_option (CreateKVJob u) (field_str ''resource_id'' ms rid))"
| "fill_job ms (DeleteKVJob uid rid) =
     Option.bind (field_str ''user_uid'' ms uid) (\<lambda>u.
     map_option (DeleteKVJob u) (field_str ''resource_id'' ms rid))"
| "fill_job ms DomainCheckJob = Some DomainCheckJob"

text \<open>
  The target of \<open>Unmarshal\<close> is the interface variable: \<open>null\<close> sets it to nil without an error
  (\<open>None\<close>), an object is decoded into the struct it holds, anything else is an error.
\<close>

definition json_error :: err where
  "json_error = Wrap ''failed to unmarshal job data'' (DriverErr ''json'')"

definition CreateJob :: "string \<Rightarrow> json_text \<Rightarrow> err + job option" where
  "CreateJob jobType data =
     (case object_builders jobType of
        None \<Rightarrow> Inl (Errorf (''unknown job type: '' @ jobType))
      | Some j0 \<Rightarrow>
          (case data of
             Some JNull \<Rightarrow> Inr None
           | Some (JObj ms) \<Rightarrow> (case fill_job ms j0 of None \<Rightarrow> Inl json_error | Some j \<Rightarrow> Inr (Some j))
           | _ \<Rightarrow> Inl json_error))"

section \<open>The codec\<close>

text \<open>
  What a sender and a receiver of tagged messages rely on.
\<close>

locale wire_codec =
  fixes tag :: "'a \<Rightarrow> string"
    and enc :: "'a \<Rightarrow> 'b"
    and dec' :: "string \<Rightarrow> 'b \<Rightarrow> 'e + 'a option"
    and ok :: "'a \<Rightarrow> bool"
  assumes roundtrip: "ok x \<Longrightarrow> dec' (tag x) (enc x) = Inr (Some x)"
begin

lemma injective: "ok x \<Longrightarrow> ok y \<Longrightarrow> tag x = tag y \<Longrightarrow> enc x = enc y \<Longrightarrow> x = y"
  using roundtrip by (metis option.inject sum.inject(2))

lemma deliver_all:
  "list_all ok xs \<Longrightarrow> map (\<lambda>x. dec' (tag x) (enc x)) xs = map (\<lambda>x. Inr (Some x)) xs"
  by (induction xs) (simp_all add: roundtrip)

end

text \<open>A job the program can hold: maps are maps, numbers fit an \<open>int\<close>.\<close>

fun job_ok :: "job \<Rightarrow> bool" where
  "job_ok (DeployWorkerJob _ _ v) = int64 v"
| "job_ok (SyncEnvJob _ _ m) = (case m of None \<Rightarrow> True | Some kvs \<Rightarrow> map_ok kvs)"
| "job_ok (SyncSecretJob _ _ m) = (case m of None \<Rightarrow> True | Some kvs \<Rightarrow> map_ok kvs)"
| "job_ok _ = True"

lemma field_map_marshal:
  "(case m of None \<Rightarrow> True | Some kvs \<Rightarrow> map_ok kvs) \<Longrightarrow>
     field_map ''data'' [(''worker_id'', JStr a), (''user_uid'', JStr b), (''data'', marshal_map m)] None = Some m"
  using foldl_put_sorted [of "[]"]
  by (cases m)
    (simp_all add: fold_eq_def to_lower_def lower_char_def is_upper_def byte_def marshal_map_def
      members_into_strs or_empty_def)

lemmas field_simps = fold_eq_def to_lower_def lower_char_def is_upper_def byte_def

lemma fill_marshal:
  assumes "job_ok j"
  shows "\<exists>ms j0. marshal_job j = JObj ms \<and> object_builders (job_type j) = Some j0 \<and>
    fill_job ms j0 = Some j"
  using assms
proof (cases j)
  case (SyncEnvJob a b m)
  with assms field_map_marshal [of m a b] show ?thesis
    by (simp add: builders field_simps)
next
  case (SyncSecretJob a b m)
  with assms field_map_marshal [of m a b] show ?thesis
    by (simp add: builders field_simps)
qed (simp_all add: builders field_simps)

interpretation jobs: wire_codec job_type "\<lambda>j. Some (marshal_job j)" CreateJob job_ok
proof
  fix j assume "job_ok j"
  from fill_marshal [OF this] show "CreateJob (job_type j) (Some (marshal_job j)) = Inr (Some j)"
    by (auto simp: CreateJob_def)
qed

lemma CreateJob_type: "CreateJob ty data = Inr (Some j) \<Longrightarrow> job_type j = ty"
proof -
  assume run: "CreateJob ty data = Inr (Some j)"
  then obtain j0 ms where j0: "object_builders ty = Some j0" and j: "fill_job ms j0 = Some j"
    by (auto simp: CreateJob_def split: option.splits json.splits)
  have "job_type j0 = ty" using builder_type [OF j0] by blast
  moreover have "job_type j = job_type j0"
    using j by (cases j0) (auto simp: bind_eq_Some_conv)
  ultimately show ?thesis by simp
qed

text \<open>
  A job that is encoded and sent under its type is decoded to the same job; a decoded job always
  has the type it was sent under, and a type that no job has is refused by name.
\<close>

theorem job_roundtrip:
  assumes "job_ok j"
  shows "CreateJob (job_type j) (Some (marshal_job j)) = Inr (Some j) \<and>
    (\<forall>data k. CreateJob (job_type j) data = Inr (Some k) \<longrightarrow> job_type k = job_type j)"
  using jobs.roundtrip [OF assms] CreateJob_type by blast

theorem job_roundtrip_witness:
  "CreateJob ''worker.sync_env'' (Some (JObj [(''worker_id'', JStr ''w''), (''user_uid'', JStr ''u''),
     (''data'', JObj [(''A'', JStr ''1'')])])) = Inr (Some (SyncEnvJob ''w'' ''u'' (Some [(''A'', ''1'')])))"
  using job_roundtrip [of "SyncEnvJob ''w'' ''u'' (Some [(''A'', ''1'')])"]
  by (simp add: map_ok_def marshal_map_def)

text \<open>
  The JSON text \<open>null\<close>, and no other text, is accepted for every registered type with no job at
  all and no error.
\<close>

theorem null_job_accepted:
  "(CreateJob (job_type j) (Some JNull) = Inr None) \<and>
   (CreateJob (job_type j) data = Inr None \<longleftrightarrow> data = Some JNull)"
  by (auto simp: CreateJob_def builder_found split: option.splits json.splits)

end
