(* ===== verification/Processor.thy ===== *)
theory Processor
  imports Prelude "HOL-Library.Multiset"
begin

text \<open>
  \<open>k8s/processor.go\<close> and \<open>k8s/cron.go\<close>: the job queue (a buffered Go channel), its pool of workers
  and the cron scheduler that submits jobs on ticks.
\<close>

section \<open>A buffered channel\<close>

text \<open>
  \<open>ch_buf\<close> is the buffer, \<open>ch_senders\<close> the blocked senders with their values, first come first.
\<close>

record 'j chan =
  ch_cap :: nat
  ch_buf :: "'j list"
  ch_senders :: "'j list"
  ch_closed :: bool

definition make_chan :: "nat \<Rightarrow> 'j chan" where
  "make_chan n = \<lparr>ch_cap = n, ch_buf = [], ch_senders = [], ch_closed = False\<rparr>"

text \<open>A send blocks when the buffer is full; on a closed channel it panics (\<open>None\<close>).\<close>

definition chan_send :: "'j \<Rightarrow> 'j chan \<Rightarrow> 'j chan option" where
  "chan_send x c =
     (if ch_closed c then None
      else if length (ch_buf c) < ch_cap c then Some (c\<lparr>ch_buf := ch_buf c @ [x]\<rparr>)
      else Some (c\<lparr>ch_senders := ch_senders c @ [x]\<rparr>))"

text \<open>A receive takes the oldest value and lets the first blocked sender in.\<close>

definition chan_recv :: "'j chan \<Rightarrow> ('j \<times> 'j chan) option" where
  "chan_recv c =
     (case ch_buf c of
        [] \<Rightarrow> None
      | x # xs \<Rightarrow>
          (case ch_senders c of
             [] \<Rightarrow> Some (x, c\<lparr>ch_buf := xs\<rparr>)
           | y # ys \<Rightarrow> Some (x, c\<lparr>ch_buf := xs @ [y], ch_senders := ys\<rparr>)))"

definition chan_ok :: "'j chan \<Rightarrow> bool" where
  "chan_ok c \<longleftrightarrow> 0 < ch_cap c \<and> length (ch_buf c) \<le> ch_cap c \<and>
     (ch_senders c \<noteq> [] \<longrightarrow> length (ch_buf c) = ch_cap c)"

definition chan_items :: "'j chan \<Rightarrow> 'j list" where
  "chan_items c = ch_buf c @ ch_senders c"

text \<open>A queue that hands its values on in the order they came.\<close>

locale fifo =
  fixes send :: "'j \<Rightarrow> 'q \<Rightarrow> 'q option"
    and recv :: "'q \<Rightarrow> ('j \<times> 'q) option"
    and items :: "'q \<Rightarrow> 'j list"
    and ok :: "'q \<Rightarrow> bool"
  assumes send_items: "ok q \<Longrightarrow> send x q = Some q' \<Longrightarrow> ok q' \<and> items q' = items q @ [x]"
    and recv_items: "ok q \<Longrightarrow> recv q = Some (x, q') \<Longrightarrow> ok q' \<and> items q = x # items q'"
    and recv_empty: "ok q \<Longrightarrow> recv q = None \<longleftrightarrow> items q = []"
begin

fun recv_n :: "nat \<Rightarrow> 'q \<Rightarrow> 'j list \<times> 'q" where
  "recv_n 0 q = ([], q)"
| "recv_n (Suc n) q =
     (case recv q of None \<Rightarrow> ([], q) | Some (x, q') \<Rightarrow> (let (xs, r) = recv_n n q' in (x # xs, r)))"

fun send_all :: "'j list \<Rightarrow> 'q \<Rightarrow> 'q option" where
  "send_all [] q = Some q"
| "send_all (x # xs) q = (case send x q of None \<Rightarrow> None | Some q' \<Rightarrow> send_all xs q')"

lemma send_all_items: "ok q \<Longrightarrow> send_all xs q = Some q' \<Longrightarrow> ok q' \<and> items q' = items q @ xs"
  by (induction xs arbitrary: q) (auto split: option.splits dest: send_items)

lemma recv_n_items:
  "ok q \<Longrightarrow> recv_n n q = (xs, q') \<Longrightarrow> ok q' \<and> xs = take n (items q) \<and> items q' = drop n (items q)"
proof (induction n arbitrary: q xs q')
  case 0
  then show ?case by simp
next
  case (Suc n)
  show ?case
  proof (cases "recv q")
    case None
    with Suc.prems recv_empty [of q] show ?thesis by auto
  next
    case (Some p)
    obtain x r where p: "p = (x, r)" by (cases p)
    obtain ys s where ys: "recv_n n r = (ys, s)" by (cases "recv_n n r")
    from recv_items Suc.prems(1) Some p have r: "ok r" "items q = x # items r" by blast+
    from Suc.prems(2) Some p ys have "xs = x # ys" "q' = s" by simp_all
    with Suc.IH [OF r(1) ys] r(2) show ?thesis by simp
  qed
qed

lemma drain: "ok q \<Longrightarrow> fst (recv_n (length (items q)) q) = items q"
  using recv_n_items [of q "length (items q)"] by (cases "recv_n (length (items q)) q") simp

end

interpretation chan: fifo chan_send chan_recv chan_items chan_ok
proof
  fix q q' :: "'j chan" and x
  assume "chan_ok q" "chan_send x q = Some q'"
  then show "chan_ok q' \<and> chan_items q' = chan_items q @ [x]"
    by (auto simp: chan_send_def chan_ok_def chan_items_def split: if_splits)
next
  fix q q' :: "'j chan" and x
  assume "chan_ok q" "chan_recv q = Some (x, q')"
  then show "chan_ok q' \<and> chan_items q = x # chan_items q'"
    by (auto simp: chan_recv_def chan_ok_def chan_items_def split: list.splits)
next
  fix q :: "'j chan" assume "chan_ok q"
  then show "chan_recv q = None \<longleftrightarrow> chan_items q = []"
    by (auto simp: chan_recv_def chan_ok_def chan_items_def split: list.splits)
qed

section \<open>The processor\<close>

text \<open>
  \<open>p_workers\<close> is the number of started workers, \<open>p_running\<close> the jobs being done;
  \<open>p_submitted\<close>, \<open>p_taken\<close> and \<open>p_finished\<close> are the history.
\<close>

record 'j processor =
  JobQueue :: "'j chan"
  PoolSize :: nat
  p_workers :: nat
  p_running :: "'j list"
  p_submitted :: "'j list"
  p_taken :: "'j list"
  p_finished :: "'j list"

definition NewProcessor :: "nat \<Rightarrow> nat \<Rightarrow> 'j processor" where
  "NewProcessor queueSize poolSize =
     \<lparr>JobQueue = make_chan queueSize, PoolSize = poolSize, p_workers = 0, p_running = [],
      p_submitted = [], p_taken = [], p_finished = []\<rparr>"

definition Submit :: "'j \<Rightarrow> 'j processor \<Rightarrow> 'j processor option" where
  "Submit job p =
     (case chan_send job (JobQueue p) of
        None \<Rightarrow> None
      | Some c \<Rightarrow> Some (p\<lparr>JobQueue := c, p_submitted := p_submitted p @ [job]\<rparr>))"

definition StartProcessor :: "'j processor \<Rightarrow> 'j processor" where
  "StartProcessor p = p\<lparr>p_workers := p_workers p + PoolSize p\<rparr>"

text \<open>An idle worker receives; a busy one returns from \<open>Do\<close> (an error is only logged).\<close>

definition take_job :: "'j processor \<Rightarrow> 'j processor option" where
  "take_job p =
     (if length (p_running p) < p_workers p
      then (case chan_recv (JobQueue p) of
              None \<Rightarrow> None
            | Some (job, c) \<Rightarrow> Some (p\<lparr>JobQueue := c, p_running := p_running p @ [job],
                                       p_taken := p_taken p @ [job]\<rparr>))
      else None)"

definition finish_job :: "nat \<Rightarrow> 'j processor \<Rightarrow> 'j processor option" where
  "finish_job k p =
     (if k < length (p_running p)
      then Some (p\<lparr>p_running := take k (p_running p) @ drop (Suc k) (p_running p),
                   p_finished := p_finished p @ [p_running p ! k]\<rparr>)
      else None)"

text \<open>Closing twice panics, as does closing while a sender is blocked.\<close>

definition CloseProcessor :: "'j processor \<Rightarrow> 'j processor option" where
  "CloseProcessor p =
     (if ch_closed (JobQueue p) \<or> ch_senders (JobQueue p) \<noteq> [] then None
      else Some (p\<lparr>JobQueue := (JobQueue p)\<lparr>ch_closed := True\<rparr>\<rparr>))"

inductive proc_step :: "'j processor \<Rightarrow> 'j processor \<Rightarrow> bool" where
  submit: "Submit job p = Some p' \<Longrightarrow> proc_step p p'"
| start: "p_workers p = 0 \<Longrightarrow> proc_step p (StartProcessor p)"
| taken: "take_job p = Some p' \<Longrightarrow> proc_step p p'"
| finish: "finish_job k p = Some p' \<Longrightarrow> proc_step p p'"
| close: "CloseProcessor p = Some p' \<Longrightarrow> proc_step p p'"

inductive_cases proc_stepE: "proc_step p p'"

definition proc_ok :: "'j processor \<Rightarrow> bool" where
  "proc_ok p \<longleftrightarrow> chan_ok (JobQueue p) \<and> length (p_running p) \<le> p_workers p \<and>
     p_workers p \<le> PoolSize p \<and>
     p_submitted p = p_taken p @ chan_items (JobQueue p) \<and>
     mset (p_taken p) = mset (p_finished p) + mset (p_running p)"

lemma new_processor_ok: "0 < n \<Longrightarrow> proc_ok (NewProcessor n k)"
  by (simp add: proc_ok_def NewProcessor_def make_chan_def chan_ok_def chan_items_def)

lemma mset_remove_nth:
  "k < length xs \<Longrightarrow> mset (take k xs @ drop (Suc k) xs) + {#xs ! k#} = mset xs"
  by (metis add_mset_add_single id_take_nth_drop mset.simps(2) mset_append union_mset_add_mset_right)

lemma proc_step_ok: "proc_step p p' \<Longrightarrow> proc_ok p \<Longrightarrow> proc_ok p'"
proof (induction rule: proc_step.induct)
  case (submit job p p')
  then show ?case
    by (auto simp: Submit_def proc_ok_def split: option.splits dest: chan.send_items)
next
  case (start p)
  then show ?case by (simp add: proc_ok_def StartProcessor_def)
next
  case (taken p p')
  then obtain job c where w: "length (p_running p) < p_workers p" and r: "chan_recv (JobQueue p) = Some (job, c)"
    and p': "p' = p\<lparr>JobQueue := c, p_running := p_running p @ [job], p_taken := p_taken p @ [job]\<rparr>"
    by (auto simp: take_job_def split: option.splits if_splits)
  have "chan_ok c \<and> chan_items (JobQueue p) = job # chan_items c"
    using chan.recv_items [OF _ r] taken(2) by (simp add: proc_ok_def)
  with taken(2) w p' show ?case by (simp add: proc_ok_def)
next
  case (finish k p p')
  then have k: "k < length (p_running p)" by (auto simp: finish_job_def split: if_splits)
  with finish have p': "p' = p\<lparr>p_running := take k (p_running p) @ drop (Suc k) (p_running p),
                   p_finished := p_finished p @ [p_running p ! k]\<rparr>" by (simp add: finish_job_def)
  from k mset_remove_nth [OF k] finish(2) show ?case
    unfolding proc_ok_def p' by (auto simp: ac_simps)
next
  case (close p p')
  then show ?case
    by (auto simp: CloseProcessor_def proc_ok_def chan_ok_def chan_items_def split: if_splits)
qed

lemma proc_step_pool: "proc_step p p' \<Longrightarrow> PoolSize p' = PoolSize p \<and> ch_cap (JobQueue p') = ch_cap (JobQueue p)"
  by (erule proc_stepE)
    (auto simp: Submit_def StartProcessor_def take_job_def finish_job_def CloseProcessor_def
      chan_send_def chan_recv_def split: option.splits if_splits list.splits)

lemma proc_reach_ok:
  "proc_step\<^sup>*\<^sup>* p p' \<Longrightarrow> proc_ok p \<Longrightarrow>
     proc_ok p' \<and> PoolSize p' = PoolSize p \<and> ch_cap (JobQueue p') = ch_cap (JobQueue p)"
  by (induction rule: rtranclp_induct) (auto simp: proc_step_ok proc_step_pool)

section \<open>Draining\<close>

text \<open>What is left to do, as a measure: taking a job and finishing one both make it smaller.\<close>

definition left_to_do :: "'j processor \<Rightarrow> nat" where
  "left_to_do p = 2 * length (chan_items (JobQueue p)) + length (p_running p)"

lemma worker_progress:
  assumes ok: "proc_ok p" and w: "0 < p_workers p" and left: "left_to_do p \<noteq> 0"
  shows "\<exists>p'. proc_step p p' \<and> left_to_do p' < left_to_do p \<and> p_workers p' = p_workers p \<and>
    p_submitted p' = p_submitted p"
proof (cases "p_running p")
  case (Cons x xs)
  let ?p = "p\<lparr>p_running := xs, p_finished := p_finished p @ [x]\<rparr>"
  have "finish_job 0 p = Some ?p" by (simp add: finish_job_def Cons)
  then have "proc_step p ?p" by (rule proc_step.finish)
  then show ?thesis by (intro exI [of _ ?p]) (simp add: left_to_do_def Cons)
next
  case Nil
  with left have "chan_items (JobQueue p) \<noteq> []" by (simp add: left_to_do_def)
  with ok obtain x c where r: "chan_recv (JobQueue p) = Some (x, c)"
    using chan.recv_empty [of "JobQueue p"] by (auto simp: proc_ok_def)
  let ?p = "p\<lparr>JobQueue := c, p_running := [x], p_taken := p_taken p @ [x]\<rparr>"
  have "take_job p = Some ?p" using Nil w r by (simp add: take_job_def)
  then have "proc_step p ?p" by (rule proc_step.taken)
  moreover have "chan_items (JobQueue p) = x # chan_items c"
    using chan.recv_items [OF _ r] ok by (simp add: proc_ok_def)
  ultimately show ?thesis using Nil by (intro exI [of _ ?p]) (simp add: left_to_do_def)
qed

lemma drain_run:
  "proc_ok p \<Longrightarrow> 0 < p_workers p \<Longrightarrow>
     \<exists>p'. proc_step\<^sup>*\<^sup>* p p' \<and> proc_ok p' \<and> left_to_do p' = 0 \<and> p_submitted p' = p_submitted p"
proof (induction "left_to_do p" arbitrary: p rule: less_induct)
  case less
  show ?case
  proof (cases "left_to_do p = 0")
    case True
    with less.prems show ?thesis by blast
  next
    case False
    from worker_progress [OF less.prems False] obtain q where
      q: "proc_step p q" "left_to_do q < left_to_do p" "p_workers q = p_workers p"
        "p_submitted q = p_submitted p" by blast
    from less.hyps [OF q(2)] proc_step_ok [OF q(1) less.prems(1)] less.prems(2) q
    show ?thesis by (metis converse_rtranclp_into_rtranclp)
  qed
qed

section \<open>The cron scheduler\<close>

text \<open>
  \<open>tickers\<close> are the running tickers, each with the jobs its goroutine was started with: a job
  registered later is appended to the map's slice, not to theirs.
\<close>

record 'j cron =
  durationToCall :: "(int \<times> 'j list) list"
  tickers :: "(int \<times> 'j list) list"
  stopped :: bool

definition NewCronScheduler :: "'j cron" where
  "NewCronScheduler = \<lparr>durationToCall = [], tickers = [], stopped = False\<rparr>"

fun map_append :: "int \<Rightarrow> 'j \<Rightarrow> (int \<times> 'j list) list \<Rightarrow> (int \<times> 'j list) list" where
  "map_append d j [] = [(d, [j])]"
| "map_append d j ((e, js) # m) = (if d = e then (e, js @ [j]) # m else (e, js) # map_append d j m)"

definition RegisterJob :: "int \<Rightarrow> 'j \<Rightarrow> 'j cron \<Rightarrow> 'j cron" where
  "RegisterJob d j s = s\<lparr>durationToCall := map_append d j (durationToCall s)\<rparr>"

definition StartCron :: "'j cron \<Rightarrow> 'j cron" where
  "StartCron s = s\<lparr>tickers := tickers s @ durationToCall s\<rparr>"

definition CloseCron :: "'j cron \<Rightarrow> 'j cron" where
  "CloseCron s = s\<lparr>stopped := True, tickers := []\<rparr>"

text \<open>A tick of the ticker with the given duration submits its jobs in order.\<close>

fun submit_all :: "'j list \<Rightarrow> 'j processor \<Rightarrow> 'j processor option" where
  "submit_all [] p = Some p"
| "submit_all (j # js) p = (case Submit j p of None \<Rightarrow> None | Some p' \<Rightarrow> submit_all js p')"

definition tick :: "nat \<Rightarrow> 'j cron \<Rightarrow> 'j processor \<Rightarrow> 'j processor option" where
  "tick k s p = (if k < length (tickers s) then submit_all (snd (tickers s ! k)) p else None)"

lemma submit_all_order: "submit_all js p = Some p' \<Longrightarrow> p_submitted p' = p_submitted p @ js"
  by (induction js arbitrary: p) (auto simp: Submit_def split: option.splits)

definition registered :: "'j cron \<Rightarrow> int \<Rightarrow> 'j list" where
  "registered s d = (case map_of (durationToCall s) d of None \<Rightarrow> [] | Some js \<Rightarrow> js)"

lemma registered_append: "registered (RegisterJob d j s) e = (if e = d then registered s e @ [j] else registered s e)"
proof -
  have "map_of (map_append d j m) e =
      (if e = d then Some ((case map_of m d of None \<Rightarrow> [] | Some js \<Rightarrow> js) @ [j]) else map_of m e)" for m
    by (induction d j m rule: map_append.induct) auto
  then show ?thesis by (simp add: registered_def RegisterJob_def)
qed

section \<open>Properties\<close>

text \<open>
  Whatever the interleaving of submitters, workers and the close, the queue never holds more
  than its capacity, never more jobs run than the pool has workers, jobs are taken in the order
  they were submitted, and every submitted job is in exactly one place: waiting, running or done.
\<close>

theorem processor_invariant:
  assumes "proc_step\<^sup>*\<^sup>* (NewProcessor queueSize poolSize) p" and "0 < queueSize"
  shows "length (ch_buf (JobQueue p)) \<le> queueSize \<and> length (p_running p) \<le> poolSize \<and>
    p_submitted p = p_taken p @ chan_items (JobQueue p) \<and>
    mset (p_submitted p) = mset (p_finished p) + mset (p_running p) + mset (chan_items (JobQueue p))"
proof -
  have "proc_ok p" "PoolSize p = poolSize" "ch_cap (JobQueue p) = queueSize"
    using proc_reach_ok [OF assms(1) new_processor_ok [OF assms(2)]]
    by (simp_all add: NewProcessor_def make_chan_def)
  then show ?thesis by (auto simp: proc_ok_def chan_ok_def)
qed

theorem processor_invariant_witness:
  "p_submitted (StartProcessor (NewProcessor 256 4 :: nat processor)) = []"
proof -
  have "proc_step\<^sup>*\<^sup>* (NewProcessor 256 4) (StartProcessor (NewProcessor 256 4 :: nat processor))"
    by (rule r_into_rtranclp, rule proc_step.start) (simp add: NewProcessor_def)
  from processor_invariant [OF this]
  have "p_submitted (StartProcessor (NewProcessor 256 4 :: nat processor)) =
      p_taken (StartProcessor (NewProcessor 256 4)) @ chan_items (JobQueue (StartProcessor (NewProcessor 256 4)))"
    by simp
  then show ?thesis by (simp add: StartProcessor_def NewProcessor_def make_chan_def chan_items_def)
qed

text \<open>
  No job is stuck: from every state the processor can reach with a worker started there is a
  run of its workers alone after which every submitted job is finished.
\<close>

theorem processor_drains:
  assumes "proc_step\<^sup>*\<^sup>* (NewProcessor queueSize poolSize) p" and "0 < queueSize" and "0 < p_workers p"
  shows "\<exists>p'. proc_step\<^sup>*\<^sup>* p p' \<and> p_submitted p' = p_submitted p \<and>
    mset (p_finished p') = mset (p_submitted p)"
proof -
  have "proc_ok p" using proc_reach_ok [OF assms(1) new_processor_ok [OF assms(2)]] by simp
  from drain_run [OF this assms(3)] obtain p' where
    p': "proc_step\<^sup>*\<^sup>* p p'" "proc_ok p'" "left_to_do p' = 0" "p_submitted p' = p_submitted p" by blast
  then have "mset (p_finished p') = mset (p_submitted p')"
    by (simp add: left_to_do_def proc_ok_def)
  with p' show ?thesis by metis
qed

definition one_job_processor :: "nat processor" where
  "one_job_processor = the (Submit 7 (StartProcessor (NewProcessor 256 4)))"

theorem processor_drains_witness:
  "\<exists>p'. proc_step\<^sup>*\<^sup>* one_job_processor p' \<and> mset (p_finished p') = {#7#}"
proof -
  let ?p0 = "NewProcessor 256 4 :: nat processor"
  have sub: "Submit 7 (StartProcessor ?p0) = Some one_job_processor"
    by (simp add: one_job_processor_def Submit_def chan_send_def StartProcessor_def NewProcessor_def
        make_chan_def)
  have "proc_step ?p0 (StartProcessor ?p0)" by (rule proc_step.start) (simp add: NewProcessor_def)
  moreover have "proc_step (StartProcessor ?p0) one_job_processor" using sub by (rule proc_step.submit)
  ultimately have "proc_step\<^sup>*\<^sup>* ?p0 one_job_processor" by (meson converse_rtranclp_into_rtranclp r_into_rtranclp)
  moreover have "0 < p_workers one_job_processor" "p_submitted one_job_processor = [7]"
    by (simp_all add: one_job_processor_def Submit_def chan_send_def StartProcessor_def
        NewProcessor_def make_chan_def)
  ultimately show ?thesis using processor_drains [of 256 4 one_job_processor] by auto
qed

text \<open>
  Only jobs registered before the scheduler starts ever run: starting a scheduler with no
  registered job makes no ticker, and registering afterwards adds none, so no tick submits
  anything.  The inner program starts its scheduler before it registers its two jobs.
\<close>

theorem cron_started_too_early:
  "tickers (RegisterJob d2 j2 (RegisterJob d1 j1 (StartCron NewCronScheduler))) = [] \<and>
   tick k (RegisterJob d2 j2 (RegisterJob d1 j1 (StartCron NewCronScheduler))) p = None \<and>
   tickers (StartCron (RegisterJob d2 j2 (RegisterJob d1 j1 NewCronScheduler))) \<noteq> []"
  by (simp add: RegisterJob_def StartCron_def NewCronScheduler_def tick_def)

text \<open>
  A tick submits the jobs of its duration in the order they were registered.
\<close>

theorem tick_submits_in_order:
  assumes "tick k s p = Some p'"
  shows "p_submitted p' = p_submitted p @ snd (tickers s ! k)"
  using assms by (auto simp: tick_def submit_all_order split: if_splits)

theorem tick_submits_in_order_witness:
  "p_submitted (the (tick 0 (StartCron (RegisterJob 12 (7::nat) NewCronScheduler)) (NewProcessor 256 4))) = [7]"
proof -
  have "tick 0 (StartCron (RegisterJob 12 (7::nat) NewCronScheduler)) (NewProcessor 256 4) =
    Some (the (tick 0 (StartCron (RegisterJob 12 (7::nat) NewCronScheduler)) (NewProcessor 256 4)))"
    by (simp add: tick_def StartCron_def RegisterJob_def NewCronScheduler_def Submit_def
        NewProcessor_def make_chan_def chan_send_def)
  from tick_submits_in_order [OF this] show ?thesis
    by (simp add: StartCron_def RegisterJob_def NewCronScheduler_def NewProcessor_def)
qed

end
