(* ===== verification/Kube.thy ===== *)
theory Kube
  imports Json "HOL-Library.Word"
begin

text \<open>
  The Kubernetes API as the program uses it through \<open>client-go\<close>: a record of calls over an unknown
  server state \<open>'k\<close>, and \<open>kube_laws\<close>, what the API documents of them.  The laws speak of the
  contents of the objects a client wrote (labels and body), not of what the server manages itself
  (resource versions, generations, status).
\<close>

section \<open>Objects\<close>

datatype kind = Deployments | Services | ConfigMaps | Secrets | IngressRoutes | Certificates
  | WorkerApps | Pods

datatype env_source = ConfigMapRef string | SecretRef string

record affinity =
  af_weight :: int
  af_match :: "string gomap"
  af_namespaces :: "string list"
  af_topology :: string

record deployment =
  dp_replicas :: int
  dp_selector :: "string gomap"
  dp_labels :: "string gomap"
  dp_affinity :: affinity
  dp_container :: string
  dp_image :: string
  dp_port :: "32 word"
  dp_env :: "(string \<times> string) list"
  dp_env_from :: "env_source list"

record service =
  sv_type :: string
  sv_selector :: "string gomap"
  sv_ports :: "(32 word \<times> string) list"
  sv_external :: string

record pod =
  pd_phase :: string
  pd_ip :: string

text \<open>\<open>Dyn\<close> is an unstructured object: the members other than its metadata and status.\<close>

datatype body =
    Deployment deployment
  | Service service
  | ConfigMap "string gomap option"
  | Secret string "string gomap option"
  | Pod pod
  | Dyn "json gomap"

record kobj =
  o_namespace :: string
  o_name :: string
  o_labels :: "string gomap"
  o_resourceVersion :: string
  o_generation :: int
  o_status :: "json gomap option"
  o_body :: body

definition new_obj :: "string \<Rightarrow> string \<Rightarrow> string gomap \<Rightarrow> body \<Rightarrow> kobj" where
  "new_obj ns name labels b = \<lparr>o_namespace = ns, o_name = name, o_labels = labels,
     o_resourceVersion = '''', o_generation = 0, o_status = None, o_body = b\<rparr>"

section \<open>Calls\<close>

datatype kerr = KNotFound string | KError string

fun kerr_err :: "kerr \<Rightarrow> err" where
  "kerr_err (KNotFound m) = DriverErr m"
| "kerr_err (KError m) = DriverErr m"

record 'k kube =
  k_get :: "kind \<Rightarrow> string \<Rightarrow> string \<Rightarrow> 'k \<Rightarrow> (kerr + kobj) \<times> 'k"
  k_create :: "kind \<Rightarrow> string \<Rightarrow> kobj \<Rightarrow> 'k \<Rightarrow> kerr option \<times> 'k"
  k_update :: "kind \<Rightarrow> string \<Rightarrow> kobj \<Rightarrow> 'k \<Rightarrow> kerr option \<times> 'k"
  k_update_status :: "kind \<Rightarrow> string \<Rightarrow> kobj \<Rightarrow> 'k \<Rightarrow> kerr option \<times> 'k"
  k_delete :: "kind \<Rightarrow> string \<Rightarrow> string \<Rightarrow> 'k \<Rightarrow> kerr option \<times> 'k"
  k_list :: "kind \<Rightarrow> string \<Rightarrow> string \<Rightarrow> 'k \<Rightarrow> (kerr + kobj list) \<times> 'k"
  k_patch :: "kind \<Rightarrow> string \<Rightarrow> string \<Rightarrow> string \<Rightarrow> 'k \<Rightarrow> kerr option \<times> 'k"

type_synonym key = "kind \<times> string \<times> string"
type_synonym content = "string gomap \<times> body"

definition content :: "kobj \<Rightarrow> content" where
  "content ob = (o_labels ob, o_body ob)"

text \<open>
  What the API documents: reads change nothing and report what is there; a successful create found
  nothing there, a successful update something, and both leave what was sent; a call that fails
  leaves everything; each call touches its own object only.
\<close>

definition get_law :: "'k kube \<Rightarrow> ('k \<Rightarrow> key \<Rightarrow> content option) \<Rightarrow> bool" where
  "get_law K view \<longleftrightarrow> (\<forall>kd ns n s r s'. k_get K kd ns n s = (r, s') \<longrightarrow> view s' = view s \<and>
     (\<forall>ob. r = Inr ob \<longrightarrow> view s (kd, ns, n) = Some (content ob)) \<and>
     (\<forall>m. r = Inl (KNotFound m) \<longrightarrow> view s (kd, ns, n) = None))"

definition create_law :: "'k kube \<Rightarrow> ('k \<Rightarrow> key \<Rightarrow> content option) \<Rightarrow> bool" where
  "create_law K view \<longleftrightarrow> (\<forall>kd ns ob s r s'. k_create K kd ns ob s = (r, s') \<longrightarrow>
     (r = None \<longrightarrow> view s (kd, ns, o_name ob) = None \<and>
        view s' = (view s)((kd, ns, o_name ob) \<mapsto> content ob)) \<and>
     (r \<noteq> None \<longrightarrow> view s' = view s))"

definition update_law :: "'k kube \<Rightarrow> ('k \<Rightarrow> key \<Rightarrow> content option) \<Rightarrow> bool" where
  "update_law K view \<longleftrightarrow> (\<forall>kd ns ob s r s'. k_update K kd ns ob s = (r, s') \<longrightarrow>
     (r = None \<longrightarrow> view s (kd, ns, o_name ob) \<noteq> None \<and>
        view s' = (view s)((kd, ns, o_name ob) \<mapsto> content ob)) \<and>
     (r \<noteq> None \<longrightarrow> view s' = view s))"

definition status_law :: "'k kube \<Rightarrow> ('k \<Rightarrow> key \<Rightarrow> content option) \<Rightarrow> bool" where
  "status_law K view \<longleftrightarrow> (\<forall>kd ns ob s r s'. k_update_status K kd ns ob s = (r, s') \<longrightarrow> view s' = view s)"

definition delete_law :: "'k kube \<Rightarrow> ('k \<Rightarrow> key \<Rightarrow> content option) \<Rightarrow> bool" where
  "delete_law K view \<longleftrightarrow> (\<forall>kd ns n s r s'. k_delete K kd ns n s = (r, s') \<longrightarrow>
     (r = None \<longrightarrow> view s' = (view s)((kd, ns, n) := None)) \<and>
     (r \<noteq> None \<longrightarrow> view s' = view s))"

definition list_law :: "'k kube \<Rightarrow> ('k \<Rightarrow> key \<Rightarrow> content option) \<Rightarrow> bool" where
  "list_law K view \<longleftrightarrow> (\<forall>kd ns sel s r s'. k_list K kd ns sel s = (r, s') \<longrightarrow> view s' = view s \<and>
     (\<forall>obs. r = Inr obs \<longrightarrow> (\<forall>ob \<in> set obs. view s (kd, ns, o_name ob) = Some (content ob))) \<and>
     (\<forall>obs. r = Inr obs \<longrightarrow> sel = '''' \<longrightarrow>
        (\<forall>n c. view s (kd, ns, n) = Some c \<longrightarrow> (\<exists>ob \<in> set obs. o_name ob = n))))"

definition patch_law :: "'k kube \<Rightarrow> ('k \<Rightarrow> key \<Rightarrow> content option) \<Rightarrow> bool" where
  "patch_law K view \<longleftrightarrow> (\<forall>kd ns n p s r s'. k_patch K kd ns n p s = (r, s') \<longrightarrow>
     (\<forall>k. k \<noteq> (kd, ns, n) \<longrightarrow> view s' k = view s k) \<and>
     (view s' (kd, ns, n) = None \<longleftrightarrow> view s (kd, ns, n) = None))"

definition kube_laws :: "'k kube \<Rightarrow> ('k \<Rightarrow> key \<Rightarrow> content option) \<Rightarrow> bool" where
  "kube_laws K view \<longleftrightarrow> get_law K view \<and> create_law K view \<and> update_law K view \<and>
     status_law K view \<and> delete_law K view \<and> list_law K view \<and> patch_law K view"

lemma k_get_view: "kube_laws K view \<Longrightarrow> k_get K kd ns n s = (r, s') \<Longrightarrow> view s' = view s"
  unfolding kube_laws_def get_law_def by blast

lemma k_get_found:
  "kube_laws K view \<Longrightarrow> k_get K kd ns n s = (Inr ob, s') \<Longrightarrow> view s (kd, ns, n) = Some (content ob)"
  unfolding kube_laws_def get_law_def by blast

lemma k_get_missing:
  "kube_laws K view \<Longrightarrow> k_get K kd ns n s = (Inl (KNotFound m), s') \<Longrightarrow> view s (kd, ns, n) = None"
  unfolding kube_laws_def get_law_def by blast

lemma k_create_ok:
  "kube_laws K view \<Longrightarrow> k_create K kd ns ob s = (None, s') \<Longrightarrow>
     view s (kd, ns, o_name ob) = None \<and> view s' = (view s)((kd, ns, o_name ob) \<mapsto> content ob)"
  unfolding kube_laws_def create_law_def by blast

lemma k_create_err: "kube_laws K view \<Longrightarrow> k_create K kd ns ob s = (Some e, s') \<Longrightarrow> view s' = view s"
  unfolding kube_laws_def create_law_def by blast

lemma k_update_ok:
  "kube_laws K view \<Longrightarrow> k_update K kd ns ob s = (None, s') \<Longrightarrow>
     view s (kd, ns, o_name ob) \<noteq> None \<and> view s' = (view s)((kd, ns, o_name ob) \<mapsto> content ob)"
  unfolding kube_laws_def update_law_def by blast

lemma k_update_err: "kube_laws K view \<Longrightarrow> k_update K kd ns ob s = (Some e, s') \<Longrightarrow> view s' = view s"
  unfolding kube_laws_def update_law_def by blast

lemma k_status_view: "kube_laws K view \<Longrightarrow> k_update_status K kd ns ob s = (r, s') \<Longrightarrow> view s' = view s"
  unfolding kube_laws_def status_law_def by blast

lemma k_delete_ok:
  "kube_laws K view \<Longrightarrow> k_delete K kd ns n s = (None, s') \<Longrightarrow> view s' = (view s)((kd, ns, n) := None)"
  unfolding kube_laws_def delete_law_def by blast

lemma k_delete_err: "kube_laws K view \<Longrightarrow> k_delete K kd ns n s = (Some e, s') \<Longrightarrow> view s' = view s"
  unfolding kube_laws_def delete_law_def by blast

lemma k_delete_either:
  "kube_laws K view \<Longrightarrow> k_delete K kd ns n s = (r, s') \<Longrightarrow>
     view s' = view s \<or> view s' = (view s)((kd, ns, n) := None)"
  by (cases r) (auto dest: k_delete_ok k_delete_err)

lemma k_list_view: "kube_laws K view \<Longrightarrow> k_list K kd ns sel s = (r, s') \<Longrightarrow> view s' = view s"
  unfolding kube_laws_def list_law_def by blast

lemma k_list_items:
  "kube_laws K view \<Longrightarrow> k_list K kd ns sel s = (Inr obs, s') \<Longrightarrow> ob \<in> set obs \<Longrightarrow>
     view s (kd, ns, o_name ob) = Some (content ob)"
  unfolding kube_laws_def list_law_def by blast

lemma k_list_all:
  "kube_laws K view \<Longrightarrow> k_list K kd ns '''' s = (Inr obs, s') \<Longrightarrow> view s (kd, ns, n) = Some c \<Longrightarrow>
     \<exists>ob \<in> set obs. o_name ob = n"
  unfolding kube_laws_def list_law_def by blast

lemma k_patch_view:
  "kube_laws K view \<Longrightarrow> k_patch K kd ns n p s = (r, s') \<Longrightarrow> k \<noteq> (kd, ns, n) \<Longrightarrow> view s' k = view s k"
  unfolding kube_laws_def patch_law_def by blast

section \<open>A server in memory\<close>

text \<open>
  An instance of the laws, for the examples: the objects in a list by key.  Listing ignores the
  selector unless it is empty.
\<close>

type_synonym mem = "(key \<times> kobj) list"

definition mem_put :: "key \<Rightarrow> kobj \<Rightarrow> mem \<Rightarrow> mem" where
  "mem_put k ob m = map (\<lambda>(j, x). if j = k then (j, ob\<lparr>o_status := o_status x\<rparr>) else (j, x)) m"

definition mem_kube :: "mem kube" where
  "mem_kube = \<lparr>
     k_get = (\<lambda>kd ns n m. case map_of m (kd, ns, n) of
                None \<Rightarrow> (Inl (KNotFound n), m) | Some ob \<Rightarrow> (Inr ob, m)),
     k_create = (\<lambda>kd ns ob m. case map_of m (kd, ns, o_name ob) of
                None \<Rightarrow> (None, ((kd, ns, o_name ob), ob) # m) | Some _ \<Rightarrow> (Some (KError ''already exists''), m)),
     k_update = (\<lambda>kd ns ob m. case map_of m (kd, ns, o_name ob) of
                None \<Rightarrow> (Some (KNotFound (o_name ob)), m) | Some _ \<Rightarrow> (None, mem_put (kd, ns, o_name ob) ob m)),
     k_update_status = (\<lambda>kd ns ob m. (None, map (\<lambda>(j, x).
                if j = (kd, ns, o_name ob) then (j, x\<lparr>o_status := o_status ob\<rparr>) else (j, x)) m)),
     k_delete = (\<lambda>kd ns n m. case map_of m (kd, ns, n) of
                None \<Rightarrow> (Some (KNotFound n), m)
              | Some _ \<Rightarrow> (None, filter (\<lambda>p. fst p \<noteq> (kd, ns, n)) m)),
     k_list = (\<lambda>kd ns sel m.
                (Inr (if sel = '''' then map (\<lambda>p. (snd p)\<lparr>o_name := snd (snd (fst p))\<rparr>)
                        (filter (\<lambda>p. fst (fst p) = kd \<and> fst (snd (fst p)) = ns \<and>
                                     map_of m (fst p) = Some (snd p)) m) else []), m)),
     k_patch = (\<lambda>kd ns n p m. (None, m))\<rparr>"

definition mem_view :: "mem \<Rightarrow> key \<Rightarrow> content option" where
  "mem_view m k = map_option content (map_of m k)"

lemma map_of_map_values:
  "map_of (map (\<lambda>(j, x). if j = k then (j, f x) else (j, x)) m) i =
     (if i = k then map_option f (map_of m i) else map_of m i)"
  by (induction m) auto

lemma map_of_filter_key: "map_of (filter (\<lambda>p. fst p \<noteq> k) m) i = (if i = k then None else map_of m i)"
  by (induction m) auto

lemma mem_laws: "kube_laws mem_kube mem_view"
proof -
  have put: "mem_view (mem_put k ob m) = (if map_of m k = None then mem_view m else (mem_view m)(k \<mapsto> content ob))"
    for k ob m
    by (auto simp: mem_view_def mem_put_def map_of_map_values content_def fun_eq_iff)
  have listed: "\<exists>p \<in> set m. fst p = k \<and> map_of m k = Some (snd p)" if "mem_view m k = Some c" for m k c
    using that map_of_SomeD [of m k] by (auto simp: mem_view_def) force
  have "list_law mem_kube mem_view"
    unfolding list_law_def
  proof (intro allI impI conjI ballI)
    fix kd ns sel s r s' assume run: "k_list mem_kube kd ns sel s = (r, s')"
    then show "mem_view s' = mem_view s" by (simp add: mem_kube_def)
    {
      fix obs ob assume "r = Inr obs" "ob \<in> set obs"
      with run show "mem_view s (kd, ns, o_name ob) = Some (content ob)"
        by (auto simp: mem_kube_def mem_view_def content_def split: if_splits)
    next
      fix obs n c assume "r = Inr obs" "sel = ''''" "mem_view s (kd, ns, n) = Some c"
      with run listed [of s "(kd, ns, n)" c] show "\<exists>ob \<in> set obs. o_name ob = n"
        by (fastforce simp: mem_kube_def)
    }
  qed
  moreover have "status_law mem_kube mem_view"
    by (auto simp: status_law_def mem_kube_def mem_view_def map_of_map_values content_def [abs_def]
        fun_eq_iff option.map_comp comp_def)
  moreover have "delete_law mem_kube mem_view"
    by (auto simp: delete_law_def mem_kube_def mem_view_def map_of_filter_key fun_eq_iff split: option.splits)
  moreover have "get_law mem_kube mem_view"
    by (auto simp: get_law_def mem_kube_def mem_view_def split: option.splits)
  moreover have "create_law mem_kube mem_view"
    by (auto simp: create_law_def mem_kube_def mem_view_def fun_eq_iff split: option.splits)
  moreover have "update_law mem_kube mem_view"
    by (auto simp: update_law_def mem_kube_def put split: option.splits) (simp_all add: mem_view_def)
  moreover have "patch_law mem_kube mem_view"
    by (auto simp: patch_law_def mem_kube_def)
  ultimately show ?thesis by (simp add: kube_laws_def)
qed

end
