(* ===== verification/Controller.thy ===== *)
theory Controller
  imports Kube
begin

text \<open>
  \<open>k8s/controller\<close>: the sub-resources of a worker (\<open>worker.go\<close>), the \<open>WorkerApp\<close> objects, and the
  reconcile loop with its event handlers (\<open>worker.controller.go\<close>, \<open>controller.go\<close>).  \<open>globals\<close> holds
  the package variables of \<open>k8s/basic.go\<close> that may be unset.
\<close>

record globals =
  g_K8sClient :: bool
  g_DynamicClient :: bool
  g_Domain :: string

definition CombinatorNamespace :: string where "CombinatorNamespace = ''combinator''"
definition IngressNamespace :: string where "IngressNamespace = ''ingress''"
definition WorkerNamespace :: string where "WorkerNamespace = ''worker''"

section \<open>Workers\<close>

record WorkerAppSpec =
  WorkerID :: string
  OwnerID :: string
  OwnerSK :: string
  Image :: string
  Port :: int

definition WorkerName :: "string \<Rightarrow> string \<Rightarrow> string" where
  "WorkerName workerID ownerID = ''w-'' @ workerID @ ''-'' @ ownerID"

definition spec_Name :: "WorkerAppSpec \<Rightarrow> string" where
  "spec_Name w = WorkerName (WorkerID w) (OwnerID w)"

definition spec_Labels :: "WorkerAppSpec \<Rightarrow> string gomap" where
  "spec_Labels w = [(''app'', spec_Name w), (''owner-id'', OwnerID w), (''worker-id'', WorkerID w)]"

definition EnvConfigMapName :: "WorkerAppSpec \<Rightarrow> string" where
  "EnvConfigMapName w = spec_Name w @ ''-env''"

definition SecretName :: "WorkerAppSpec \<Rightarrow> string" where
  "SecretName w = spec_Name w @ ''-secret''"

definition CombinatorEndpoint :: string where
  "CombinatorEndpoint = ''http://combinator.'' @ CombinatorNamespace @ ''.svc.cluster.local:8899''"

text \<open>\<open>int32(w.Port)\<close> keeps the low 32 bits.\<close>

definition int32 :: "int \<Rightarrow> 32 word" where
  "int32 i = word_of_int i"

definition worker_deployment :: "WorkerAppSpec \<Rightarrow> deployment" where
  "worker_deployment w =
     \<lparr>dp_replicas = 1, dp_selector = [(''app'', spec_Name w)], dp_labels = spec_Labels w,
      dp_affinity = \<lparr>af_weight = 100, af_match = [(''app'', ''combinator'')],
        af_namespaces = [CombinatorNamespace], af_topology = ''kubernetes.io/hostname''\<rparr>,
      dp_container = spec_Name w, dp_image = Image w, dp_port = int32 (Port w),
      dp_env = [(''COMBINATOR_API_ENDPOINT'', CombinatorEndpoint), (''RAYSAIL_UID'', OwnerID w),
                (''RAYSAIL_SECRET_KEY'', OwnerSK w)],
      dp_env_from = [ConfigMapRef (EnvConfigMapName w), SecretRef (SecretName w)]\<rparr>"

definition worker_service :: "WorkerAppSpec \<Rightarrow> service" where
  "worker_service w =
     \<lparr>sv_type = '''', sv_selector = [(''app'', spec_Name w)], sv_ports = [(int32 (Port w), ''TCP'')],
      sv_external = ''''\<rparr>"

definition worker_host :: "string \<Rightarrow> WorkerAppSpec \<Rightarrow> string" where
  "worker_host domain w = WorkerID w @ ''-'' @ OwnerID w @ ''.worker.'' @ domain"

definition worker_route :: "string \<Rightarrow> WorkerAppSpec \<Rightarrow> json gomap" where
  "worker_route domain w =
     [(''apiVersion'', JStr ''traefik.io/v1alpha1''), (''kind'', JStr ''IngressRoute''),
      (''spec'', JObj [
        (''entryPoints'', JArr [JStr ''websecure'']),
        (''routes'', JArr [JObj [
           (''kind'', JStr ''Rule''),
           (''match'', JStr (''Host('' @ [char_of (96 :: nat)] @ worker_host domain w @ [char_of (96 :: nat)] @ '')'')),
           (''services'', JArr [JObj [(''name'', JStr (spec_Name w)),
              (''namespace'', JStr WorkerNamespace), (''port'', JNum (Port w))]])]]),
        (''tls'', JObj [(''secretName'', JStr ''worker-tls'')])])]"

text \<open>Get, then create when it is not found (and update when it is there).\<close>

definition ensure :: "'k kube \<Rightarrow> bool \<Rightarrow> kind \<Rightarrow> string \<Rightarrow> (string \<Rightarrow> kobj) \<Rightarrow> 'k \<Rightarrow> err option \<times> 'k" where
  "ensure K upd kd ns ob s =
     (case k_get K kd ns (o_name (ob '''')) s of
        (Inl (KNotFound _), s1) \<Rightarrow>
          (case k_create K kd ns (ob '''') s1 of (r, s2) \<Rightarrow> (map_option kerr_err r, s2))
      | (Inl e, s1) \<Rightarrow> (Some (kerr_err e), s1)
      | (Inr existing, s1) \<Rightarrow>
          (if upd
           then (case k_update K kd ns (ob (o_resourceVersion existing)) s1 of
                   (r, s2) \<Rightarrow> (map_option kerr_err r, s2))
           else (None, s1)))"

definition worker_obj :: "WorkerAppSpec \<Rightarrow> string \<Rightarrow> string \<Rightarrow> body \<Rightarrow> kobj" where
  "worker_obj w ns name b = new_obj ns name (spec_Labels w) b"

definition not_initialized :: "string \<Rightarrow> err" where
  "not_initialized c = Errorf (c @ '' client not initialized'')"

definition EnsureDeployment :: "globals \<Rightarrow> 'k kube \<Rightarrow> WorkerAppSpec \<Rightarrow> 'k \<Rightarrow> err option \<times> 'k" where
  "EnsureDeployment g K w s =
     (if \<not> g_K8sClient g then (Some (not_initialized ''k8s''), s)
      else ensure K True Deployments WorkerNamespace
        (\<lambda>_. worker_obj w WorkerNamespace (spec_Name w) (Deployment (worker_deployment w))) s)"

definition EnsureService :: "globals \<Rightarrow> 'k kube \<Rightarrow> WorkerAppSpec \<Rightarrow> 'k \<Rightarrow> err option \<times> 'k" where
  "EnsureService g K w s =
     (if \<not> g_K8sClient g then (Some (not_initialized ''k8s''), s)
      else ensure K False Services WorkerNamespace
        (\<lambda>_. worker_obj w WorkerNamespace (spec_Name w) (Service (worker_service w))) s)"

definition EnsureConfigMap :: "globals \<Rightarrow> 'k kube \<Rightarrow> WorkerAppSpec \<Rightarrow> 'k \<Rightarrow> err option \<times> 'k" where
  "EnsureConfigMap g K w s =
     (if \<not> g_K8sClient g then (Some (not_initialized ''k8s''), s)
      else ensure K False ConfigMaps WorkerNamespace
        (\<lambda>_. worker_obj w WorkerNamespace (EnvConfigMapName w) (ConfigMap (Some []))) s)"

definition EnsureSecret :: "globals \<Rightarrow> 'k kube \<Rightarrow> WorkerAppSpec \<Rightarrow> 'k \<Rightarrow> err option \<times> 'k" where
  "EnsureSecret g K w s =
     (if \<not> g_K8sClient g then (Some (not_initialized ''k8s''), s)
      else ensure K False Secrets WorkerNamespace
        (\<lambda>_. worker_obj w WorkerNamespace (SecretName w) (Secret ''Opaque'' (Some []))) s)"

definition EnsureIngressRoute :: "globals \<Rightarrow> 'k kube \<Rightarrow> WorkerAppSpec \<Rightarrow> 'k \<Rightarrow> err option \<times> 'k" where
  "EnsureIngressRoute g K w s =
     (if \<not> g_DynamicClient g then (Some (not_initialized ''dynamic''), s)
      else ensure K True IngressRoutes IngressNamespace
        (\<lambda>rv. (worker_obj w IngressNamespace (spec_Name w) (Dyn (worker_route (g_Domain g) w)))
                \<lparr>o_resourceVersion := rv\<rparr>) s)"

text \<open>The results of the deletes are dropped.\<close>

definition DeleteAll :: "globals \<Rightarrow> 'k kube \<Rightarrow> WorkerAppSpec \<Rightarrow> 'k \<Rightarrow> 'k" where
  "DeleteAll g K w s =
     (let s1 = (if g_K8sClient g
                then snd (k_delete K Secrets WorkerNamespace (SecretName w)
                     (snd (k_delete K ConfigMaps WorkerNamespace (EnvConfigMapName w)
                     (snd (k_delete K Services WorkerNamespace (spec_Name w)
                     (snd (k_delete K Deployments WorkerNamespace (spec_Name w) s)))))))
                else s)
      in if g_DynamicClient g
         then snd (k_delete K IngressRoutes IngressNamespace (spec_Name w) s1)
         else s1)"

definition label_of :: "kobj \<Rightarrow> string \<Rightarrow> string" where
  "label_of ob k = (case map_of (o_labels ob) k of None \<Rightarrow> '''' | Some v \<Rightarrow> v)"

text \<open>An item that is no deployment has no container: indexing it panics (\<open>None\<close>).\<close>

definition listed_worker :: "kobj \<Rightarrow> WorkerAppSpec option" where
  "listed_worker ob =
     (case o_body ob of
        Deployment d \<Rightarrow> Some \<lparr>WorkerID = label_of ob ''worker-id'', OwnerID = label_of ob ''owner-id'',
                              OwnerSK = '''', Image = dp_image d, Port = 0\<rparr>
      | _ \<Rightarrow> None)"

definition worker_selector :: "string \<Rightarrow> string \<Rightarrow> string" where
  "worker_selector workerId ownerId =
     join '','' ((if workerId \<noteq> '''' then [''worker-id='' @ workerId] else []) @
                 (if ownerId \<noteq> '''' then [''owner-id='' @ ownerId] else []))"

definition ListWorkerDeployments :: "globals \<Rightarrow> 'k kube \<Rightarrow> string \<Rightarrow> string \<Rightarrow> 'k \<Rightarrow>
    (err + WorkerAppSpec option list) \<times> 'k" where
  "ListWorkerDeployments g K workerId ownerId s =
     (if \<not> g_K8sClient g then (Inl (not_initialized ''k8s''), s)
      else case k_list K Deployments WorkerNamespace (worker_selector workerId ownerId) s of
        (Inl e, s1) \<Rightarrow> (Inl (kerr_err e), s1)
      | (Inr items, s1) \<Rightarrow> (Inr (map listed_worker items), s1))"

section \<open>WorkerApp objects\<close>

text \<open>\<open>%v\<close> of a value of unstructured JSON; a missing member is nil.\<close>

fun fmt_v :: "json \<Rightarrow> string" where
  "fmt_v JNull = ''<nil>''"
| "fmt_v (JBool b) = (if b then ''true'' else ''false'')"
| "fmt_v (JNum i) = dec_int i"
| "fmt_v (JFrac t) = t"
| "fmt_v (JStr s) = s"
| "fmt_v (JArr js) = ''['' @ join '' '' (map fmt_v js) @ '']''"
| "fmt_v (JObj ms) = ''map['' @ join '' '' (map (\<lambda>(k, j). k @ '':'' @ fmt_v j) ms) @ '']''"

definition member :: "json gomap \<Rightarrow> string \<Rightarrow> json" where
  "member ms k = (case map_of ms k of None \<Rightarrow> JNull | Some j \<Rightarrow> j)"

definition dyn_members :: "kobj \<Rightarrow> json gomap" where
  "dyn_members u = (case o_body u of Dyn ms \<Rightarrow> ms | _ \<Rightarrow> [])"

definition workerFromUnstructured :: "kobj \<Rightarrow> WorkerAppSpec option" where
  "workerFromUnstructured u =
     (case member (dyn_members u) ''spec'' of
        JObj spec \<Rightarrow> Some
          \<lparr>WorkerID = fmt_v (member spec ''workerID''), OwnerID = fmt_v (member spec ''ownerID''),
           OwnerSK = fmt_v (member spec ''ownerSK''), Image = fmt_v (member spec ''image''),
           Port = (case member spec ''port'' of JNum i \<Rightarrow> i | _ \<Rightarrow> 0)\<rparr>
      | _ \<Rightarrow> None)"

definition worker_app :: "string \<Rightarrow> WorkerAppSpec \<Rightarrow> kobj" where
  "worker_app name w = new_obj WorkerNamespace name []
     (Dyn [(''apiVersion'', JStr ''console.app238.com/v1''), (''kind'', JStr ''WorkerApp''),
           (''spec'', JObj [(''image'', JStr (Image w)), (''ownerID'', JStr (OwnerID w)),
              (''ownerSK'', JStr (OwnerSK w)), (''port'', JNum (Port w)),
              (''workerID'', JStr (WorkerID w))])])"

text \<open>Any error of the get leads to a create.\<close>

definition CreateWorkerAppCR :: "'k kube \<Rightarrow> string \<Rightarrow> WorkerAppSpec \<Rightarrow> 'k \<Rightarrow> err option \<times> 'k" where
  "CreateWorkerAppCR K name w s =
     (case k_get K WorkerApps WorkerNamespace name s of
        (Inl _, s1) \<Rightarrow> (case k_create K WorkerApps WorkerNamespace (worker_app name w) s1 of
                          (r, s2) \<Rightarrow> (map_option kerr_err r, s2))
      | (Inr existing, s1) \<Rightarrow>
          (case k_update K WorkerApps WorkerNamespace
                  ((worker_app name w)\<lparr>o_resourceVersion := o_resourceVersion existing\<rparr>) s1 of
             (r, s2) \<Rightarrow> (map_option kerr_err r, s2)))"

definition DeleteWorkerAppCR :: "'k kube \<Rightarrow> string \<Rightarrow> 'k \<Rightarrow> err option \<times> 'k" where
  "DeleteWorkerAppCR K name s =
     (case k_delete K WorkerApps WorkerNamespace name s of (r, s1) \<Rightarrow> (map_option kerr_err r, s1))"

section \<open>Reconcile\<close>

definition updateStatus :: "'k kube \<Rightarrow> kobj \<Rightarrow> string \<Rightarrow> string \<Rightarrow> 'k \<Rightarrow> 'k" where
  "updateStatus K u phase msg s =
     (case k_get K WorkerApps (o_namespace u) (o_name u) s of
        (Inl _, s1) \<Rightarrow> s1
      | (Inr latest, s1) \<Rightarrow>
          (let status = (case o_status latest of None \<Rightarrow> [] | Some ms \<Rightarrow> ms);
               status' = map_put ''message'' (JStr msg) (map_put ''phase'' (JStr phase) status)
           in snd (k_update_status K WorkerApps (o_namespace u)
                     (latest\<lparr>o_status := Some status'\<rparr>) s1)))"

text \<open>The five steps in their order, up to the first error.\<close>

fun run_steps :: "('k \<Rightarrow> err option \<times> 'k) list \<Rightarrow> 'k \<Rightarrow> err option \<times> 'k" where
  "run_steps [] s = (None, s)"
| "run_steps (f # fs) s = (case f s of (Some e, s1) \<Rightarrow> (Some e, s1) | (None, s1) \<Rightarrow> run_steps fs s1)"

definition ensure_all :: "globals \<Rightarrow> 'k kube \<Rightarrow> WorkerAppSpec \<Rightarrow> 'k \<Rightarrow> err option \<times> 'k" where
  "ensure_all g K w = run_steps [EnsureConfigMap g K w, EnsureSecret g K w, EnsureDeployment g K w,
     EnsureService g K w, EnsureIngressRoute g K w]"

definition reconcile :: "globals \<Rightarrow> 'k kube \<Rightarrow> kobj \<Rightarrow> 'k \<Rightarrow> 'k" where
  "reconcile g K u s =
     (case workerFromUnstructured u of
        None \<Rightarrow> s
      | Some w \<Rightarrow>
          (case ensure_all g K w (updateStatus K u ''Deploying'' '''' s) of
             (Some e, s1) \<Rightarrow> updateStatus K u ''Failed'' (err_text e) s1
           | (None, s1) \<Rightarrow> updateStatus K u ''Running'' '''' s1))"

section \<open>Event handlers\<close>

text \<open>
  What an informer hands to a handler: an object, or the tombstone of one whose deletion was missed
  (\<open>cache.DeletedFinalStateUnknown\<close>), which none of the handlers recognises.
\<close>

datatype event_obj = Live kobj | Tombstone string kobj

definition onAdd :: "globals \<Rightarrow> 'k kube \<Rightarrow> event_obj \<Rightarrow> 'k \<Rightarrow> 'k" where
  "onAdd g K ev s = (case ev of Live u \<Rightarrow> reconcile g K u s | Tombstone _ _ \<Rightarrow> s)"

definition onUpdate :: "globals \<Rightarrow> 'k kube \<Rightarrow> event_obj \<Rightarrow> event_obj \<Rightarrow> 'k \<Rightarrow> 'k" where
  "onUpdate g K oldObj newObj s =
     (case (oldObj, newObj) of
        (Live oldU, Live newU) \<Rightarrow>
          (if o_generation oldU = o_generation newU then s else reconcile g K newU s)
      | _ \<Rightarrow> s)"

definition onDelete :: "globals \<Rightarrow> 'k kube \<Rightarrow> event_obj \<Rightarrow> 'k \<Rightarrow> 'k" where
  "onDelete g K ev s =
     (case ev of
        Live u \<Rightarrow> (case workerFromUnstructured u of None \<Rightarrow> s | Some w \<Rightarrow> DeleteAll g K w s)
      | Tombstone _ _ \<Rightarrow> s)"

text \<open>\<open>crCache\<close> is the informer's store of \<open>WorkerApp\<close> objects, by namespace and name.\<close>

definition onSubResourceDelete :: "globals \<Rightarrow> 'k kube \<Rightarrow> (string \<Rightarrow> kobj option) \<Rightarrow> event_obj \<Rightarrow> 'k \<Rightarrow> 'k" where
  "onSubResourceDelete g K crCache ev s =
     (case ev of
        Tombstone _ _ \<Rightarrow> s
      | Live ob \<Rightarrow>
          (let appName = label_of ob ''app''
           in if appName = '''' then s
              else case crCache (WorkerNamespace @ ''/'' @ appName) of
                     None \<Rightarrow> s | Some u \<Rightarrow> reconcile g K u s))"

definition restart_patch :: "int \<Rightarrow> string" where
  "restart_patch now =
     ''{\"spec\":{\"template\":{\"metadata\":{\"annotations\":{\"console.app238.com/restartedAt\":\"'' @
     dec_int now @ ''\"}}}}}''"

definition restartDeployment :: "globals \<Rightarrow> 'k kube \<Rightarrow> int \<Rightarrow> string \<Rightarrow> 'k \<Rightarrow> 'k" where
  "restartDeployment g K now name s =
     (if \<not> g_K8sClient g then s
      else snd (k_patch K Deployments WorkerNamespace name (restart_patch now) s))"

definition onConfigUpdate :: "globals \<Rightarrow> 'k kube \<Rightarrow> int \<Rightarrow> event_obj \<Rightarrow> event_obj \<Rightarrow> 'k \<Rightarrow> 'k" where
  "onConfigUpdate g K now oldObj newObj s =
     (case (oldObj, newObj) of
        (Live old, Live cur) \<Rightarrow>
          (if o_resourceVersion old = o_resourceVersion cur then s
           else let appName = label_of cur ''app''
                in if appName = '''' then s else restartDeployment g K now appName s)
      | _ \<Rightarrow> s)"

section \<open>What a reconcile does\<close>

definition put_want :: "(key \<Rightarrow> content option) \<Rightarrow> key \<times> bool \<times> content \<Rightarrow> (key \<Rightarrow> content option)" where
  "put_want v q = (case q of (k, upd, c) \<Rightarrow> if upd \<or> v k = None then v(k \<mapsto> c) else v)"

text \<open>The sub-resources of a worker in their order, with whether an existing one is updated.\<close>

definition wanted :: "globals \<Rightarrow> WorkerAppSpec \<Rightarrow> (key \<times> bool \<times> content) list" where
  "wanted g w =
     [((ConfigMaps, WorkerNamespace, EnvConfigMapName w), False, (spec_Labels w, ConfigMap (Some []))),
      ((Secrets, WorkerNamespace, SecretName w), False, (spec_Labels w, Secret ''Opaque'' (Some []))),
      ((Deployments, WorkerNamespace, spec_Name w), True, (spec_Labels w, Deployment (worker_deployment w))),
      ((Services, WorkerNamespace, spec_Name w), False, (spec_Labels w, Service (worker_service w))),
      ((IngressRoutes, IngressNamespace, spec_Name w), True,
         (spec_Labels w, Dyn (worker_route (g_Domain g) w)))]"

lemma ensure_view:
  assumes laws: "kube_laws K view" and n: "\<And>rv. o_name (ob rv) = n" and c: "\<And>rv. content (ob rv) = c"
    and run: "ensure K upd kd ns ob s = (r, s')"
  shows "view s' = (if r = None then put_want (view s) ((kd, ns, n), upd, c) else view s)"
proof -
  obtain g s1 where get: "k_get K kd ns n s = (g, s1)" by (cases "k_get K kd ns n s")
  note v1 = k_get_view [OF laws get]
  show ?thesis
  proof (cases g)
    case (Inr ex)
    with get have "view s (kd, ns, n) = Some (content ex)" using k_get_found [OF laws] by blast
    show ?thesis
    proof (cases upd)
      case True
      obtain q s2 where u: "k_update K kd ns (ob (o_resourceVersion ex)) s1 = (q, s2)"
        by (cases "k_update K kd ns (ob (o_resourceVersion ex)) s1")
      with run get Inr True n have "r = map_option kerr_err q" "s' = s2" by (auto simp: ensure_def)
      with u v1 n c True show ?thesis
        using k_update_ok [OF laws, of kd ns "ob (o_resourceVersion ex)" s1 s2]
          k_update_err [OF laws, of kd ns "ob (o_resourceVersion ex)" s1 _ s2]
        by (cases q) (auto simp: put_want_def)
    next
      case False
      with run get Inr n v1 \<open>view s (kd, ns, n) = Some (content ex)\<close> show ?thesis
        by (auto simp: ensure_def put_want_def)
    qed
  next
    case (Inl e)
    show ?thesis
    proof (cases e)
      case (KNotFound m)
      with get Inl have none: "view s (kd, ns, n) = None" using k_get_missing [OF laws] by blast
      obtain q s2 where u: "k_create K kd ns (ob []) s1 = (q, s2)" by (cases "k_create K kd ns (ob []) s1")
      with run get Inl KNotFound n have "r = map_option kerr_err q" "s' = s2" by (auto simp: ensure_def)
      with u v1 n c none show ?thesis
        using k_create_ok [OF laws, of kd ns "ob []" s1 s2] k_create_err [OF laws, of kd ns "ob []" s1 _ s2]
        by (cases q) (auto simp: put_want_def)
    next
      case (KError m)
      with run get Inl n v1 show ?thesis by (auto simp: ensure_def)
    qed
  qed
qed

text \<open>Steps that each put one wanted object, or nothing when they fail, put a prefix of them.\<close>

definition puts :: "('k \<Rightarrow> key \<Rightarrow> content option) \<Rightarrow> ('k \<Rightarrow> err option \<times> 'k) \<Rightarrow> key \<times> bool \<times> content \<Rightarrow> bool" where
  "puts view f q \<longleftrightarrow> (\<forall>s r s'. f s = (r, s') \<longrightarrow> view s' = (if r = None then put_want (view s) q else view s))"

lemma run_steps_prefix:
  assumes "list_all2 (puts view) fs qs" and "run_steps fs s = (r, s')"
  shows "\<exists>n \<le> length qs. view s' = foldl put_want (view s) (take n qs) \<and> (r = None \<longrightarrow> n = length qs)"
  using assms
proof (induction fs qs arbitrary: s rule: list_all2_induct)
  case Nil
  then show ?case by simp
next
  case (Cons f fs q qs)
  obtain r1 s1 where f: "f s = (r1, s1)" by (cases "f s")
  show ?case
  proof (cases r1)
    case None
    with f Cons.hyps have v: "view s1 = put_want (view s) q" by (auto simp: puts_def)
    from None f Cons.prems have "run_steps fs s1 = (r, s')" by simp
    from Cons.IH [OF this] obtain n where
      "n \<le> length qs" "view s' = foldl put_want (view s1) (take n qs)" "r = None \<longrightarrow> n = length qs" by blast
    then show ?thesis using v by (intro exI [of _ "Suc n"]) simp
  next
    case (Some e)
    with f Cons have "view s1 = view s" "s' = s1" "r = Some e" by (auto simp: puts_def)
    then show ?thesis by (intro exI [of _ 0]) simp
  qed
qed

lemma not_ready_puts: "puts view (\<lambda>s. (Some e, s)) q"
  by (simp add: puts_def)

lemma ensure_puts:
  assumes "kube_laws K view" "\<And>rv. o_name (ob rv) = n" "\<And>rv. content (ob rv) = c"
  shows "puts view (\<lambda>s. if b then (Some e, s) else ensure K upd kd ns ob s) ((kd, ns, n), upd, c)"
  using ensure_view [OF assms] by (simp add: puts_def)

lemmas ensure_defs = EnsureConfigMap_def [abs_def] EnsureSecret_def [abs_def]
  EnsureDeployment_def [abs_def] EnsureService_def [abs_def] EnsureIngressRoute_def [abs_def]

lemma ensure_all_prefix:
  assumes laws: "kube_laws K view" and run: "ensure_all g K w s = (r, s')"
  shows "\<exists>n \<le> 5. view s' = foldl put_want (view s) (take n (wanted g w)) \<and> (r = None \<longrightarrow> n = 5)"
proof -
  have "list_all2 (puts view) [EnsureConfigMap g K w, EnsureSecret g K w, EnsureDeployment g K w,
     EnsureService g K w, EnsureIngressRoute g K w] (wanted g w)"
    unfolding wanted_def ensure_defs
    by (intro list_all2_Cons [THEN iffD2] conjI ensure_puts laws list.rel_intros(1) list_all2_Nil [THEN iffD2])
      (simp_all add: worker_obj_def new_obj_def content_def)
  moreover have "length (wanted g w) = 5" by (simp add: wanted_def)
  ultimately show ?thesis using run_steps_prefix [OF _ run [unfolded ensure_all_def]] by metis
qed

lemma updateStatus_view: "kube_laws K view \<Longrightarrow> view (updateStatus K u ph m s) = view s"
proof -
  assume laws: "kube_laws K view"
  obtain r s1 where get: "k_get K WorkerApps (o_namespace u) (o_name u) s = (r, s1)"
    by (cases "k_get K WorkerApps (o_namespace u) (o_name u) s")
  note v = k_get_view [OF laws get]
  have "view (snd (k_update_status K WorkerApps ns ob s1)) = view s1" for ns ob
    using k_status_view [OF laws] by (metis prod.collapse)
  with get v show ?thesis by (simp add: updateStatus_def Let_def split: sum.splits)
qed

lemma reconcile_view:
  assumes laws: "kube_laws K view" and w: "workerFromUnstructured u = Some w"
  shows "\<exists>n \<le> 5. view (reconcile g K u s) = foldl put_want (view s) (take n (wanted g w)) \<and>
    (fst (ensure_all g K w (updateStatus K u ''Deploying'' '''' s)) = None \<longrightarrow> n = 5)"
proof -
  let ?s = "updateStatus K u ''Deploying'' '''' s"
  obtain r s1 where run: "ensure_all g K w ?s = (r, s1)" by (cases "ensure_all g K w ?s")
  from ensure_all_prefix [OF laws run] obtain n where
    n: "n \<le> 5" "view s1 = foldl put_want (view ?s) (take n (wanted g w))" "r = None \<longrightarrow> n = 5" by blast
  have "view (reconcile g K u s) = view s1"
    using w run updateStatus_view [OF laws] by (simp add: reconcile_def split: option.splits)
  with n run updateStatus_view [OF laws] show ?thesis by (intro exI [of _ n]) simp
qed

lemma put_want_other: "k \<notin> fst ` set qs \<Longrightarrow> foldl put_want v qs k = v k"
  by (induction qs arbitrary: v) (auto simp: put_want_def)

lemma put_want_present: "v k \<noteq> None \<Longrightarrow> foldl put_want v qs k \<noteq> None"
  by (induction qs arbitrary: v) (auto simp: put_want_def split: prod.splits)

lemma put_want_at:
  "distinct (map fst qs) \<Longrightarrow> (k, upd, c) \<in> set qs \<Longrightarrow>
     foldl put_want v qs k = (if upd \<or> v k = None then Some c else v k)"
proof (induction qs arbitrary: v)
  case (Cons q qs)
  show ?case
  proof (cases "q = (k, upd, c)")
    case True
    with Cons.prems have "k \<notin> fst ` set qs" by auto
    with True show ?thesis by (simp add: put_want_other) (simp add: put_want_def)
  next
    case False
    with Cons.prems have "(k, upd, c) \<in> set qs" "fst q \<noteq> k" by (auto simp: image_iff)
    with Cons.IH [of "put_want v q"] Cons.prems show ?thesis
      by (cases q) (auto simp: put_want_def)
  qed
qed simp

lemma wanted_distinct: "distinct (map fst (wanted g w))"
  by (simp add: wanted_def)

lemma wanted_keys:
  "k \<in> fst ` set (wanted g w) \<longleftrightarrow>
     k = (ConfigMaps, WorkerNamespace, EnvConfigMapName w) \<or> k = (Secrets, WorkerNamespace, SecretName w) \<or>
     k = (Deployments, WorkerNamespace, spec_Name w) \<or> k = (Services, WorkerNamespace, spec_Name w) \<or>
     k = (IngressRoutes, IngressNamespace, spec_Name w)"
  by (auto simp: wanted_def)

lemma put_wants_twice:
  assumes "distinct (map fst qs)"
  shows "foldl put_want (foldl put_want v qs) qs = foldl put_want v qs"
proof
  fix k
  show "foldl put_want (foldl put_want v qs) qs k = foldl put_want v qs k"
  proof (cases "k \<in> fst ` set qs")
    case True
    then obtain upd c where "(k, upd, c) \<in> set qs" by auto
    then show ?thesis using put_want_at [OF assms] by auto
  next
    case False
    then show ?thesis by (simp add: put_want_other)
  qed
qed

section \<open>Names\<close>

lemma WorkerName_inject:
  assumes "CHR ''-'' \<notin> set u" and "CHR ''-'' \<notin> set u'"
  shows "WorkerName wid u = WorkerName wid' u' \<longleftrightarrow> wid = wid' \<and> u = u'"
  using assms split_last_sep [of wid "CHR ''-''" u wid' u'] by (auto simp: WorkerName_def)

lemma suffixed_inject:
  "EnvConfigMapName w = EnvConfigMapName w' \<longleftrightarrow> spec_Name w = spec_Name w'"
  "SecretName w = SecretName w' \<longleftrightarrow> spec_Name w = spec_Name w'"
  by (simp_all add: EnvConfigMapName_def SecretName_def)

lemma DeleteAll_view:
  assumes laws: "kube_laws K view"
  shows "view (DeleteAll g K w s) k = view s k \<or> (k \<in> fst ` set (wanted g w) \<and> view (DeleteAll g K w s) k = None)"
proof -
  have del: "view (snd (k_delete K kd ns n t)) j = view t j \<or>
      (j = (kd, ns, n) \<and> view (snd (k_delete K kd ns n t)) j = None)" for kd ns n t j
    using k_delete_either [OF laws, of kd ns n t "fst (k_delete K kd ns n t)" "snd (k_delete K kd ns n t)"]
    by (auto split: if_splits)
  define a where "a = snd (k_delete K Deployments WorkerNamespace (spec_Name w) s)"
  define b where "b = snd (k_delete K Services WorkerNamespace (spec_Name w) a)"
  define c where "c = snd (k_delete K ConfigMaps WorkerNamespace (EnvConfigMapName w) b)"
  define d where "d = snd (k_delete K Secrets WorkerNamespace (SecretName w) c)"
  have "view d k = view s k \<or> (k \<in> fst ` set (wanted g w) \<and> view d k = None)"
    unfolding wanted_keys
    using del [of Deployments WorkerNamespace "spec_Name w" s k]
      del [of Services WorkerNamespace "spec_Name w" a k]
      del [of ConfigMaps WorkerNamespace "EnvConfigMapName w" b k]
      del [of Secrets WorkerNamespace "SecretName w" c k]
    unfolding a_def [symmetric] b_def [symmetric] c_def [symmetric] d_def [symmetric] by auto
  moreover have "DeleteAll g K w s =
      (let s1 = (if g_K8sClient g then d else s)
       in if g_DynamicClient g then snd (k_delete K IngressRoutes IngressNamespace (spec_Name w) s1) else s1)"
    by (simp add: DeleteAll_def a_def b_def c_def d_def)
  ultimately show ?thesis
    using del [of IngressRoutes IngressNamespace "spec_Name w" "if g_K8sClient g then d else s" k]
    unfolding wanted_keys by (auto simp: Let_def split: if_splits)
qed

lemma worker_app_roundtrip: "workerFromUnstructured (worker_app name w) = Some w"
  by (simp add: workerFromUnstructured_def worker_app_def new_obj_def dyn_members_def member_def)

section \<open>Properties\<close>

definition ready :: globals where
  "ready = \<lparr>g_K8sClient = True, g_DynamicClient = True, g_Domain = ''example.com''\<rparr>"

definition example_worker :: WorkerAppSpec where
  "example_worker = \<lparr>WorkerID = ''w1'', OwnerID = ''u1'', OwnerSK = ''sk'', Image = ''img'', Port = 8080\<rparr>"

text \<open>
  C5: A reconcile works through the worker's five sub-resources in a fixed order (env, secret,
  deployment, service, route) and stops at the first failing call: what is on the server
  afterwards is a prefix of them put in place, all five when no call failed.  The env, the secret and
  the service are only ever created, the deployment and the route are brought up to date.
\<close>

theorem reconcile_prefix:
  assumes "kube_laws K view" and "workerFromUnstructured u = Some w"
  shows "\<exists>n \<le> 5. view (reconcile g K u s) = foldl put_want (view s) (take n (wanted g w)) \<and>
    (fst (ensure_all g K w (updateStatus K u ''Deploying'' '''' s)) = None \<longrightarrow> n = 5)"
  using assms by (rule reconcile_view)

theorem reconcile_prefix_witness:
  "mem_view (reconcile ready mem_kube (worker_app ''w-w1-u1'' example_worker) [])
     (Deployments, ''worker'', ''w-w1-u1'') =
   Some (spec_Labels example_worker, Deployment (worker_deployment example_worker))"
proof -
  have "fst (ensure_all ready mem_kube example_worker
      (updateStatus mem_kube (worker_app ''w-w1-u1'' example_worker) ''Deploying'' '''' [])) = None"
    by (simp add: ensure_all_def ensure_defs ready_def ensure_def mem_kube_def updateStatus_def
        worker_obj_def new_obj_def worker_app_def EnvConfigMapName_def SecretName_def WorkerNamespace_def
        IngressNamespace_def)
  then have "mem_view (reconcile ready mem_kube (worker_app ''w-w1-u1'' example_worker) []) =
      foldl put_want (mem_view []) (wanted ready example_worker)"
    using reconcile_prefix [OF mem_laws worker_app_roundtrip [of "''w-w1-u1''" example_worker], of ready "[]"]
    by (auto simp: wanted_def)
  then show ?thesis
    by (simp add: wanted_def put_want_def mem_view_def spec_Name_def WorkerName_def WorkerNamespace_def
        example_worker_def)
qed



text \<open>
  A service that exists keeps its old port: after a reconcile whose calls all succeed the
  deployment and the route have the worker's port, and the service the one it had.
\<close>

theorem service_port_is_stale:
  assumes "kube_laws K view" and "ensure_all g K w s = (None, s1)"
    and "view s (Services, WorkerNamespace, spec_Name w) = Some old"
  shows "view s1 (Services, WorkerNamespace, spec_Name w) = Some old \<and>
    view s1 (Deployments, WorkerNamespace, spec_Name w) =
      Some (spec_Labels w, Deployment (worker_deployment w)) \<and>
    view s1 (IngressRoutes, IngressNamespace, spec_Name w) =
      Some (spec_Labels w, Dyn (worker_route (g_Domain g) w))"
proof -
  have v: "view s1 = foldl put_want (view s) (wanted g w)"
    using ensure_all_prefix [OF assms(1,2)] by (auto simp: wanted_def)
  show ?thesis
    unfolding v using assms(3)
      put_want_at [OF wanted_distinct [of g w], of "(Services, WorkerNamespace, spec_Name w)" False]
      put_want_at [OF wanted_distinct [of g w], of "(Deployments, WorkerNamespace, spec_Name w)" True]
      put_want_at [OF wanted_distinct [of g w], of "(IngressRoutes, IngressNamespace, spec_Name w)" True]
    by (simp add: wanted_def)
qed

theorem service_port_is_stale_witness:
  "mem_view (snd (ensure_all ready mem_kube (example_worker\<lparr>Port := 9090\<rparr>)
     (snd (ensure_all ready mem_kube example_worker []))))
     (Services, WorkerNamespace, spec_Name (example_worker\<lparr>Port := 9090\<rparr>)) =
   Some (spec_Labels example_worker, Service (worker_service example_worker))"
proof -
  let ?s1 = "snd (ensure_all ready mem_kube example_worker [])"
  let ?w = "example_worker\<lparr>Port := 9090\<rparr>"
  have "ensure_all ready mem_kube ?w ?s1 = (None, snd (ensure_all ready mem_kube ?w ?s1))"
    by (simp add: ensure_all_def ensure_defs ready_def ensure_def mem_kube_def mem_put_def
        worker_obj_def new_obj_def EnvConfigMapName_def SecretName_def WorkerNamespace_def
        IngressNamespace_def spec_Name_def WorkerName_def example_worker_def)
  moreover have "mem_view ?s1 (Services, WorkerNamespace, spec_Name ?w) =
      Some (spec_Labels example_worker, Service (worker_service example_worker))"
    by (simp add: ensure_all_def ensure_defs ready_def ensure_def mem_kube_def mem_put_def mem_view_def
        content_def worker_obj_def new_obj_def EnvConfigMapName_def SecretName_def WorkerNamespace_def
        IngressNamespace_def spec_Name_def WorkerName_def example_worker_def)
  ultimately show ?thesis using service_port_is_stale [OF mem_laws] by blast
qed

text \<open>
  Two workers whose owners' ids hold no hyphen have the same resource name only when they are
  the same worker of the same owner, so the sub-resources of different workers never collide.
\<close>

theorem worker_names_distinct:
  assumes "CHR ''-'' \<notin> set (OwnerID w)" and "CHR ''-'' \<notin> set (OwnerID w')"
    and "(WorkerID w, OwnerID w) \<noteq> (WorkerID w', OwnerID w')"
  shows "fst ` set (wanted g w) \<inter> fst ` set (wanted g w') = {}"
proof -
  have "spec_Name w \<noteq> spec_Name w'"
    using assms WorkerName_inject [of "OwnerID w" "OwnerID w'"] by (auto simp: spec_Name_def)
  then show ?thesis
    using suffixed_inject [of w w'] unfolding disjoint_iff wanted_keys by auto
qed

theorem worker_names_distinct_witness:
  "fst ` set (wanted ready example_worker) \<inter>
   fst ` set (wanted ready (example_worker\<lparr>WorkerID := ''w1-u1''\<rparr>)) = {}"
  by (rule worker_names_distinct) (simp_all add: example_worker_def)

text \<open>
  Deleting a worker removes sub-resources of that worker only: every other object is as it was,
  and each of the five is either gone or, when its delete failed, as it was.
\<close>

theorem delete_all_only_own:
  assumes "kube_laws K view"
  shows "view (DeleteAll g K w s) k = view s k \<or>
    (k \<in> fst ` set (wanted g w) \<and> view (DeleteAll g K w s) k = None)"
  using assms by (rule DeleteAll_view)

theorem delete_all_only_own_witness:
  "mem_view (DeleteAll ready mem_kube example_worker []) (Deployments, ''worker'', ''w-w2-u1'') =
   mem_view [] (Deployments, ''worker'', ''w-w2-u1'')"
  using delete_all_only_own [OF mem_laws, of ready example_worker "[]" "(Deployments, ''worker'', ''w-w2-u1'')"]
  by (simp add: wanted_keys spec_Name_def WorkerName_def example_worker_def mem_view_def)

text \<open>
  An update that does not change the generation (a status write), a deletion reported as a
  tombstone, and a config update without a new resource version do nothing at all.
\<close>

theorem ignored_events:
  "(o_generation a = o_generation b \<longrightarrow> onUpdate g K (Live a) (Live b) s = s) \<and>
   onDelete g K (Tombstone key a) s = s \<and>
   onSubResourceDelete g K crCache (Tombstone key a) s = s \<and>
   (o_resourceVersion a = o_resourceVersion b \<longrightarrow> onConfigUpdate g K now (Live a) (Live b) s = s)"
  by (simp add: onUpdate_def onDelete_def onSubResourceDelete_def onConfigUpdate_def)

theorem ignored_events_witness:
  "onUpdate ready mem_kube (Live (worker_app ''x'' example_worker)) (Live (worker_app ''y'' example_worker)) [] = []"
  using ignored_events [of "worker_app ''x'' example_worker" "worker_app ''y'' example_worker"
      ready mem_kube "[]"]
  by (simp add: worker_app_def new_obj_def)

text \<open>
  The object that the deploy job writes for a worker is read back by the controller as the
  same worker, whatever its fields; a hand-written object without the optional secret key gives its
  containers the key \<open><nil>\<close>.
\<close>

theorem worker_app_is_read_back:
  "workerFromUnstructured (worker_app name w) = Some w \<and>
   map_option OwnerSK (workerFromUnstructured
     (new_obj ns name labels (Dyn [(''spec'', JObj (map_del ''ownerSK'' spec))]))) = Some ''<nil>''"
  by (intro conjI worker_app_roundtrip)
    (simp add: workerFromUnstructured_def new_obj_def dyn_members_def member_def map_del_get)

end
