(* ===== verification/World.thy ===== *)
theory World
  imports DbLayer RdbOps Controller Identity
begin

text \<open>
  What the jobs and handlers of the program act on: the package variables (database, RDB manager,
  Kubernetes clients), the DNS answers and the requests sent to pods.  Each component's operations
  are lifted to it.
\<close>

record 'k world =
  wd_globals :: globals
  wd_db :: db
  wd_rdb :: "rdb option"
  wd_kube :: 'k
  wd_dns :: "nat \<Rightarrow> string \<Rightarrow> string list option"
  wd_lookups :: nat
  wd_posts :: "(string \<times> json) list"

text \<open>The answer to the \<open>n\<close>-th \<open>net.LookupTXT\<close> is \<open>wd_dns n\<close>; \<open>None\<close> is an error.\<close>

definition LookupTXT :: "string \<Rightarrow> 'k world \<Rightarrow> string list option \<times> 'k world" where
  "LookupTXT name s = (wd_dns s (wd_lookups s) name, s\<lparr>wd_lookups := wd_lookups s + 1\<rparr>)"

definition on_db :: "'a dbop \<Rightarrow> 'k world \<Rightarrow> (err + 'a) \<times> 'k world" where
  "on_db op s = (case op (wd_db s) of (r, d) \<Rightarrow> (r, s\<lparr>wd_db := d\<rparr>))"

text \<open>An operation whose result is dropped.\<close>

definition do_db :: "'a dbop \<Rightarrow> 'k world \<Rightarrow> 'k world" where
  "do_db op s = snd (on_db op s)"

definition on_kube :: "('k \<Rightarrow> 'a \<times> 'k) \<Rightarrow> 'k world \<Rightarrow> 'a \<times> 'k world" where
  "on_kube f s = (case f (wd_kube s) of (r, k) \<Rightarrow> (r, s\<lparr>wd_kube := k\<rparr>))"

definition do_kube :: "('k \<Rightarrow> 'a \<times> 'k) \<Rightarrow> 'k world \<Rightarrow> 'k world" where
  "do_kube f s = snd (on_kube f s)"

text \<open>An operation of the RDB manager, which must not be nil.\<close>

definition on_rdb :: "'a rdbop \<Rightarrow> rdb \<Rightarrow> 'k world \<Rightarrow> (err + 'a) \<times> 'k world" where
  "on_rdb op m s = (case op m of (r, m') \<Rightarrow> (r, s\<lparr>wd_rdb := Some m'\<rparr>))"

lemma on_db_sel [simp]:
  "wd_globals (snd (on_db op s)) = wd_globals s" "wd_rdb (snd (on_db op s)) = wd_rdb s"
  "wd_kube (snd (on_db op s)) = wd_kube s" "wd_dns (snd (on_db op s)) = wd_dns s"
  "wd_lookups (snd (on_db op s)) = wd_lookups s" "wd_posts (snd (on_db op s)) = wd_posts s"
  "wd_db (snd (on_db op s)) = snd (op (wd_db s))" "fst (on_db op s) = fst (op (wd_db s))"
  by (simp_all add: on_db_def case_prod_beta)

lemma do_db_sel [simp]:
  "wd_globals (do_db op s) = wd_globals s" "wd_rdb (do_db op s) = wd_rdb s"
  "wd_kube (do_db op s) = wd_kube s" "wd_dns (do_db op s) = wd_dns s"
  "wd_lookups (do_db op s) = wd_lookups s" "wd_posts (do_db op s) = wd_posts s"
  "wd_db (do_db op s) = snd (op (wd_db s))"
  by (simp_all add: do_db_def)

lemma do_kube_sel [simp]:
  "wd_globals (do_kube f s) = wd_globals s" "wd_rdb (do_kube f s) = wd_rdb s"
  "wd_db (do_kube f s) = wd_db s" "wd_dns (do_kube f s) = wd_dns s"
  "wd_lookups (do_kube f s) = wd_lookups s" "wd_posts (do_kube f s) = wd_posts s"
  "wd_kube (do_kube f s) = snd (f (wd_kube s))"
  by (simp_all add: do_kube_def on_kube_def case_prod_beta)

end
