(* ===== verification/Domains.thy ===== *)
theory Domains
  imports World
begin

text \<open>
  \<open>k8s/customdomain.go\<close> and \<open>handlers/jobs/customdomain.jobs.go\<close>: custom domains, their verification by
  a TXT record and the periodic check.  The goroutine that verifies is the function
  \<open>StartVerification\<close>; its twelve rounds are its fuel.
\<close>

definition DomainStatusPending :: string where "DomainStatusPending = ''pending''"
definition DomainStatusSuccess :: string where "DomainStatusSuccess = ''success''"
definition DomainStatusError :: string where "DomainStatusError = ''error''"

definition generateVerifyToken :: "bytes \<Rightarrow> string" where
  "generateVerifyToken b = concat (map hex_byte (take 16 b))"

text \<open>\<open>b1\<close> and \<open>b2\<close> are the random bytes of the two tokens, \<open>now\<close> the clock.\<close>

definition NewCustomDomain :: "bytes \<Rightarrow> bytes \<Rightarrow> int \<Rightarrow> string \<Rightarrow> string \<Rightarrow> string \<Rightarrow> 'k world \<Rightarrow>
    (err + custom_domain) \<times> 'k world" where
  "NewCustomDomain b1 b2 now userUID domain target s =
     (let cdid = take 8 (generateVerifyToken b1);
          token = generateVerifyToken b2;
          txtName = ''_combinator-verify.'' @ domain;
          txtValue = ''combinator-verify='' @ token
      in case on_db (CreateCustomDomain cdid userUID domain target txtName txtValue DomainStatusPending) s of
           (Inl e, s1) \<Rightarrow> (Inl e, s1)
         | (Inr _, s1) \<Rightarrow>
             (Inr (new_domain 0 cdid userUID domain target txtName txtValue DomainStatusPending now), s1))"

text \<open>The first record equal to the expected value ends the loop.\<close>

fun has_record :: "string \<Rightarrow> string list \<Rightarrow> bool" where
  "has_record v [] = False"
| "has_record v (r # rs) = (if r = v then True else has_record v rs)"

definition VerifyTXT :: "custom_domain \<Rightarrow> 'k world \<Rightarrow> bool \<times> 'k world" where
  "VerifyTXT cd s =
     (case LookupTXT (cd_TXTName cd) s of
        (None, s1) \<Rightarrow> (False, s1)
      | (Some records, s1) \<Rightarrow> (has_record (cd_TXTValue cd) records, s1))"

definition domain_name :: "string \<Rightarrow> string" where
  "domain_name cdid = ''custom-domain-'' @ cdid"

definition domain_labels :: "custom_domain \<Rightarrow> string gomap" where
  "domain_labels cd = [(''app'', ''custom-domain''), (''user-uid'', cd_UserUID cd)]"

definition domain_service :: "custom_domain \<Rightarrow> kobj" where
  "domain_service cd = new_obj IngressNamespace (domain_name (cd_CDID cd)) (domain_labels cd)
     (Service \<lparr>sv_type = ''ExternalName'', sv_selector = [], sv_ports = [], sv_external = cd_Target cd\<rparr>)"

definition domain_certificate :: "custom_domain \<Rightarrow> kobj" where
  "domain_certificate cd = new_obj IngressNamespace (domain_name (cd_CDID cd)) (domain_labels cd)
     (Dyn [(''apiVersion'', JStr ''cert-manager.io/v1''), (''kind'', JStr ''Certificate''),
       (''spec'', JObj [(''dnsNames'', JArr [JStr (cd_Domain cd)]),
          (''issuerRef'', JObj [(''kind'', JStr ''ClusterIssuer''), (''name'', JStr ''cert-issuer'')]),
          (''secretName'', JStr (''custom-domain-tls-'' @ cd_CDID cd))])])"

definition domain_route :: "custom_domain \<Rightarrow> kobj" where
  "domain_route cd = new_obj IngressNamespace (domain_name (cd_CDID cd)) (domain_labels cd)
     (Dyn [(''apiVersion'', JStr ''traefik.io/v1alpha1''), (''kind'', JStr ''IngressRoute''),
       (''spec'', JObj [(''entryPoints'', JArr [JStr ''websecure'']),
          (''routes'', JArr [JObj [(''kind'', JStr ''Rule''),
             (''match'', JStr (''Host('' @ [char_of (96 :: nat)] @ cd_Domain cd @ [char_of (96 :: nat)] @ '')'')),
             (''services'', JArr [JObj [(''name'', JStr (domain_name (cd_CDID cd))), (''port'', JNum 443)]])]]),
          (''tls'', JObj [(''secretName'', JStr (''custom-domain-tls-'' @ cd_CDID cd))])])])"

definition CreateIngressRoute :: "'k kube \<Rightarrow> custom_domain \<Rightarrow> 'k world \<Rightarrow> err option \<times> 'k world" where
  "CreateIngressRoute K cd s =
     (if \<not> g_DynamicClient (wd_globals s) \<or> \<not> g_K8sClient (wd_globals s)
      then (Some (not_initialized ''k8s''), s)
      else case on_kube (k_create K Services IngressNamespace (domain_service cd)) s of
        (Some e, s1) \<Rightarrow> (Some (Wrap ''create service failed'' (kerr_err e)), s1)
      | (None, s1) \<Rightarrow>
          (case on_kube (k_create K Certificates IngressNamespace (domain_certificate cd)) s1 of
             (Some e, s2) \<Rightarrow> (Some (Wrap ''create certificate failed'' (kerr_err e)), s2)
           | (None, s2) \<Rightarrow>
               (case on_kube (k_create K IngressRoutes IngressNamespace (domain_route cd)) s2 of
                  (r, s3) \<Rightarrow> (map_option kerr_err r, s3))))"

fun verify_rounds :: "nat \<Rightarrow> 'k kube \<Rightarrow> custom_domain \<Rightarrow> 'k world \<Rightarrow> custom_domain \<times> 'k world" where
  "verify_rounds 0 K cd s =
     (cd\<lparr>cd_Status := DomainStatusError\<rparr>, do_db (UpdateCustomDomainStatus (cd_CDID cd) DomainStatusError) s)"
| "verify_rounds (Suc n) K cd s =
     (case VerifyTXT cd s of
        (True, s1) \<Rightarrow>
          (let cd' = cd\<lparr>cd_Status := DomainStatusSuccess\<rparr>;
               s2 = do_db (UpdateCustomDomainStatus (cd_CDID cd) DomainStatusSuccess) s1
           in (cd', snd (CreateIngressRoute K cd' s2)))
      | (False, s1) \<Rightarrow> verify_rounds n K cd s1)"

definition StartVerification :: "'k kube \<Rightarrow> custom_domain \<Rightarrow> 'k world \<Rightarrow> custom_domain \<times> 'k world" where
  "StartVerification K cd s = verify_rounds 12 K cd s"

text \<open>The \<open>k8s\<close> package's own getters hide the error.\<close>

definition k8s_GetCustomDomain :: "string \<Rightarrow> 'k world \<Rightarrow> custom_domain option \<times> 'k world" where
  "k8s_GetCustomDomain cdid s =
     (case on_db (GetCustomDomain cdid) s of (Inl _, s1) \<Rightarrow> (None, s1) | (Inr cd, s1) \<Rightarrow> (Some cd, s1))"

definition k8s_ListCustomDomains :: "string \<Rightarrow> 'k world \<Rightarrow> custom_domain list \<times> 'k world" where
  "k8s_ListCustomDomains userUID s =
     (case on_db (ListCustomDomains userUID) s of (Inl _, s1) \<Rightarrow> ([], s1) | (Inr cds, s1) \<Rightarrow> (cds, s1))"

definition k8s_DeleteCustomDomain :: "'k kube \<Rightarrow> string \<Rightarrow> 'k world \<Rightarrow> err option \<times> 'k world" where
  "k8s_DeleteCustomDomain K cdid s =
     (case on_db (DeleteCustomDomain cdid) s of
        (Inl e, s1) \<Rightarrow> (Some e, s1)
      | (Inr _, s1) \<Rightarrow>
          (let name = domain_name cdid; g = wd_globals s1;
               s2 = (if g_K8sClient g then do_kube (k_delete K Services IngressNamespace name) s1 else s1);
               s3 = (if g_DynamicClient g
                     then do_kube (k_delete K Certificates IngressNamespace name)
                            (do_kube (k_delete K IngressRoutes IngressNamespace name) s2)
                     else s2)
           in (None, s3)))"

section \<open>The periodic check\<close>

fun check_domains :: "custom_domain list \<Rightarrow> 'k world \<Rightarrow> 'k world" where
  "check_domains [] s = s"
| "check_domains (cd # cds) s =
     (case LookupTXT (cd_TXTName cd) s of
        (None, s1) \<Rightarrow> check_domains cds (do_db (UpdateCustomDomainStatus (cd_CDID cd) ''error'') s1)
      | (Some records, s1) \<Rightarrow>
          (if has_record (cd_TXTValue cd) records then check_domains cds s1
           else check_domains cds (do_db (UpdateCustomDomainStatus (cd_CDID cd) ''error'') s1)))"

definition domainCheck_Do :: "'k world \<Rightarrow> err option \<times> 'k world" where
  "domainCheck_Do s =
     (case on_db ListAllSuccessDomains s of
        (Inl e, s1) \<Rightarrow> (Some e, s1)
      | (Inr domains, s1) \<Rightarrow> (None, check_domains domains s1))"

section \<open>Verification\<close>

lemma has_record_iff: "has_record v rs \<longleftrightarrow> v \<in> set rs"
  by (induction rs) auto

text \<open>Whether the \<open>i\<close>-th lookup from now on finds the record.\<close>

definition answered :: "custom_domain \<Rightarrow> 'k world \<Rightarrow> nat \<Rightarrow> bool" where
  "answered cd s i =
     (case wd_dns s (wd_lookups s + i) (cd_TXTName cd) of
        None \<Rightarrow> False | Some rs \<Rightarrow> cd_TXTValue cd \<in> set rs)"

lemma VerifyTXT_res:
  "VerifyTXT cd s = (answered cd s 0, s\<lparr>wd_lookups := wd_lookups s + 1\<rparr>)"
  by (simp add: VerifyTXT_def LookupTXT_def answered_def has_record_iff split: option.splits)

lemma answered_next: "answered cd (s\<lparr>wd_lookups := wd_lookups s + 1\<rparr>) i = answered cd s (Suc i)"
  by (simp add: answered_def)

lemma CreateIngressRoute_db: "wd_db (snd (CreateIngressRoute K cd s)) = wd_db s \<and>
    wd_lookups (snd (CreateIngressRoute K cd s)) = wd_lookups s"
  by (auto simp: CreateIngressRoute_def on_kube_def split: prod.splits option.splits)

lemma less_Suc_ex: "(\<exists>i < Suc n. P i) \<longleftrightarrow> P 0 \<or> (\<exists>i < n. P (Suc i))"
  by (metis Suc_less_eq less_Suc_eq_0_disj)

lemma verify_rounds_res:
  "cd_Status (fst (verify_rounds n K cd s)) =
     (if \<exists>i < n. answered cd s i then DomainStatusSuccess else DomainStatusError) \<and>
   wd_db (snd (verify_rounds n K cd s)) =
     snd (UpdateCustomDomainStatus (cd_CDID cd) (cd_Status (fst (verify_rounds n K cd s))) (wd_db s)) \<and>
   wd_lookups (snd (verify_rounds n K cd s)) \<le> wd_lookups s + n"
proof (induction n arbitrary: s)
  case 0
  then show ?case by simp
next
  case (Suc n)
  let ?s = "s\<lparr>wd_lookups := wd_lookups s + 1\<rparr>"
  show ?case
  proof (cases "answered cd s 0")
    case True
    then show ?thesis
      by (simp add: VerifyTXT_res Let_def CreateIngressRoute_db less_Suc_ex)
  next
    case False
    have "verify_rounds (Suc n) K cd s = verify_rounds n K cd ?s" by (simp add: VerifyTXT_res False)
    moreover have "(\<exists>i < Suc n. answered cd s i) = (\<exists>i < n. answered cd ?s i)"
      using False by (simp only: less_Suc_ex answered_next) simp
    ultimately show ?thesis using Suc.IH [of ?s] by simp
  qed
qed

text \<open>Without both clients nothing is created for a verified domain.\<close>

lemma verify_rounds_no_client:
  "\<not> g_DynamicClient (wd_globals s) \<Longrightarrow> wd_kube (snd (verify_rounds n K cd s)) = wd_kube s"
proof (induction n arbitrary: s)
  case 0
  then show ?case by simp
next
  case (Suc n)
  then show ?case
    using Suc.IH [of "s\<lparr>wd_lookups := wd_lookups s + 1\<rparr>"]
    by (simp add: VerifyTXT_res Let_def CreateIngressRoute_def split: bool.splits)
qed

section \<open>The periodic check\<close>

definition to_error :: "custom_domain \<Rightarrow> custom_domain" where
  "to_error c = c\<lparr>cd_Status := ''error''\<rparr>"

definition errors_in :: "string set \<Rightarrow> custom_domain list \<Rightarrow> custom_domain list" where
  "errors_in B rs = update_where (\<lambda>c. cd_CDID c \<in> B) to_error rs"

lemma to_error_sel [simp]: "cd_CDID (to_error c) = cd_CDID c" "to_error (to_error c) = to_error c"
  by (simp_all add: to_error_def)

lemma errors_in_twice: "errors_in A (errors_in B rs) = errors_in (A \<union> B) rs"
  by (simp add: errors_in_def update_where_def comp_def)

lemma errors_in_empty: "errors_in {} rs = rs"
  by (simp add: errors_in_def update_where_def)

lemma status_error_cases:
  assumes "UpdateCustomDomainStatus cdid ''error'' d = (r, d')"
  shows "tab d' = tab d \<or> tab d' = (tab d)\<lparr>t_domains := errors_in {cdid} (t_domains (tab d))\<rparr>"
proof (cases r)
  case (Inl e)
  with assms show ?thesis unfolding UpdateCustomDomainStatus_def by (auto dest: sql_exec_err)
next
  case (Inr u)
  have "(\<lambda>c. c\<lparr>cd_Status := ''error''\<rparr>) = to_error" by (rule ext) (simp add: to_error_def)
  with Inr assms show ?thesis unfolding UpdateCustomDomainStatus_def
    by (auto dest!: sql_exec_Inr simp: errors_in_def)
qed

lemma status_error_no_fault:
  "db_faults d = [] \<Longrightarrow> UpdateCustomDomainStatus cdid ''error'' d =
     (Inr (), d\<lparr>tab := (tab d)\<lparr>t_domains := errors_in {cdid} (t_domains (tab d))\<rparr>\<rparr>)"
proof -
  have "(\<lambda>c. c\<lparr>cd_Status := ''error''\<rparr>) = to_error" by (rule ext) (simp add: to_error_def)
  then show "db_faults d = [] \<Longrightarrow> ?thesis"
    by (simp add: UpdateCustomDomainStatus_def sql_exec_def run_stmt_def errors_in_def)
qed

lemma check_step:
  "check_domains (cd # cds) s = check_domains cds
     (if answered cd s 0 then s\<lparr>wd_lookups := wd_lookups s + 1\<rparr>
      else do_db (UpdateCustomDomainStatus (cd_CDID cd) ''error'') (s\<lparr>wd_lookups := wd_lookups s + 1\<rparr>))"
  by (simp add: LookupTXT_def answered_def has_record_iff split: option.splits)

lemma check_domains_cases:
  "\<exists>B \<subseteq> cd_CDID ` set cds. tab (wd_db (check_domains cds s)) =
     (tab (wd_db s))\<lparr>t_domains := errors_in B (t_domains (tab (wd_db s)))\<rparr>"
proof (induction cds arbitrary: s)
  case Nil
  show ?case by (intro exI [of _ "{}"]) (simp add: errors_in_empty)
next
  case (Cons cd cds)
  let ?s = "if answered cd s 0 then s\<lparr>wd_lookups := wd_lookups s + 1\<rparr>
      else do_db (UpdateCustomDomainStatus (cd_CDID cd) ''error'') (s\<lparr>wd_lookups := wd_lookups s + 1\<rparr>)"
  have "tab (wd_db ?s) = tab (wd_db s) \<or>
      tab (wd_db ?s) = (tab (wd_db s))\<lparr>t_domains := errors_in {cd_CDID cd} (t_domains (tab (wd_db s)))\<rparr>"
    using status_error_cases [of "cd_CDID cd" "wd_db s" _ "snd (UpdateCustomDomainStatus (cd_CDID cd) ''error'' (wd_db s))"]
    by (cases "UpdateCustomDomainStatus (cd_CDID cd) ''error'' (wd_db s)") simp
  moreover have "(tab (wd_db s))\<lparr>t_domains := errors_in {} (t_domains (tab (wd_db s)))\<rparr> = tab (wd_db s)"
    by (simp add: errors_in_empty)
  ultimately obtain A where A: "A \<subseteq> {cd_CDID cd}"
    "tab (wd_db ?s) = (tab (wd_db s))\<lparr>t_domains := errors_in A (t_domains (tab (wd_db s)))\<rparr>"
    by (metis empty_subsetI order_refl)
  from Cons.IH [of ?s] obtain B where B: "B \<subseteq> cd_CDID ` set cds"
    "tab (wd_db (check_domains cds ?s)) =
       (tab (wd_db ?s))\<lparr>t_domains := errors_in B (t_domains (tab (wd_db ?s)))\<rparr>" by blast
  have "check_domains (cd # cds) s = check_domains cds ?s" by (rule check_step)
  with A B show ?case by (intro exI [of _ "B \<union> A"]) (auto simp: errors_in_twice)
qed

lemma check_domains_exact:
  assumes "db_faults (wd_db s) = []" and "\<And>n. wd_dns s n = ans"
  shows "t_domains (tab (wd_db (check_domains cds s))) =
    errors_in {cd_CDID cd | cd. cd \<in> set cds \<and>
        \<not> (case ans (cd_TXTName cd) of None \<Rightarrow> False | Some rs \<Rightarrow> cd_TXTValue cd \<in> set rs)}
      (t_domains (tab (wd_db s)))"
  using assms
proof (induction cds arbitrary: s)
  case Nil
  then show ?case by (simp add: errors_in_empty)
next
  case (Cons cd cds)
  let ?t = "s\<lparr>wd_lookups := wd_lookups s + 1\<rparr>"
  let ?s = "if answered cd s 0 then ?t
      else do_db (UpdateCustomDomainStatus (cd_CDID cd) ''error'') ?t"
  let ?ok = "\<lambda>cd. case ans (cd_TXTName cd) of None \<Rightarrow> False | Some rs \<Rightarrow> cd_TXTValue cd \<in> set rs"
  have ok: "answered cd s 0 = ?ok cd" by (simp add: answered_def Cons.prems)
  have s: "db_faults (wd_db ?s) = []" "\<And>n. wd_dns ?s n = ans"
    using Cons.prems by (auto simp: status_error_no_fault)
  have t: "t_domains (tab (wd_db ?s)) = errors_in (if ?ok cd then {} else {cd_CDID cd}) (t_domains (tab (wd_db s)))"
    using Cons.prems(1) ok by (simp add: status_error_no_fault errors_in_empty)
  have "{cd_CDID c | c. c \<in> set (cd # cds) \<and> \<not> ?ok c} =
      {cd_CDID c | c. c \<in> set cds \<and> \<not> ?ok c} \<union> (if ?ok cd then {} else {cd_CDID cd})" by auto
  with Cons.IH [OF s] t check_step [of cd cds s] show ?case by (simp only: errors_in_twice)
qed

lemma success_list:
  assumes "ListAllSuccessDomains d = (r, d')"
  shows "tab d' = tab d" and "r = Inr ds \<Longrightarrow> ds = filter (\<lambda>c. cd_Status c = ''success'') (t_domains (tab d))"
    and "db_faults d = [] \<Longrightarrow> d' = d \<and> r = Inr (filter (\<lambda>c. cd_Status c = ''success'') (t_domains (tab d)))"
  using assms sql_query_tab [OF assms [unfolded ListAllSuccessDomains_def]]
  by (auto simp: ListAllSuccessDomains_def sql_query_def run_stmt_def dest: sql_query_ok
      split: list.splits option.splits)

lemma same_cdid: "distinct (map cd_CDID rs) \<Longrightarrow> c \<in> set rs \<Longrightarrow> c' \<in> set rs \<Longrightarrow> cd_CDID c = cd_CDID c' \<Longrightarrow> c = c'"
  by (metis distinct_map inj_onD)

section \<open>Properties\<close>

text \<open>
  C34: Verification ends after at most twelve lookups, with success exactly when one of the next
  twelve answers holds the expected record; the status it ends with is what it writes to the database.
\<close>

theorem verification_outcome:
  "cd_Status (fst (StartVerification K cd s)) =
     (if \<exists>i < 12. answered cd s i then ''success'' else ''error'') \<and>
   wd_db (snd (StartVerification K cd s)) =
     snd (UpdateCustomDomainStatus (cd_CDID cd) (cd_Status (fst (StartVerification K cd s))) (wd_db s)) \<and>
   wd_lookups (snd (StartVerification K cd s)) \<le> wd_lookups s + 12"
  using verify_rounds_res [of 12 K cd s]
  by (simp add: StartVerification_def DomainStatusSuccess_def DomainStatusError_def)

text \<open>
  In a process without a Kubernetes client, which the outer gateway that serves the domain routes
  is, a verified domain becomes successful and nothing is created for it.
\<close>

theorem verified_without_route:
  assumes "\<not> g_DynamicClient (wd_globals s)" and "answered cd s 0"
  shows "cd_Status (fst (StartVerification K cd s)) = ''success'' \<and>
    wd_kube (snd (StartVerification K cd s)) = wd_kube s"
  using assms verify_rounds_res [of 12 K cd s] verify_rounds_no_client [of s 12 K cd]
  by (auto simp: StartVerification_def DomainStatusSuccess_def)

definition example_domain :: custom_domain where
  "example_domain = new_domain 0 ''c1'' ''u1'' ''a.org'' ''t'' ''_combinator-verify.a.org'' ''v'' ''success'' 0"

definition outer_world :: "mem world" where
  "outer_world = \<lparr>wd_globals = \<lparr>g_K8sClient = False, g_DynamicClient = False, g_Domain = ''example.com''\<rparr>,
     wd_db = (empty_db 0 [])\<lparr>tab := empty_tables\<lparr>t_domains := [example_domain]\<rparr>\<rparr>, wd_rdb = None,
     wd_kube = [], wd_dns = (\<lambda>_ _. Some [''v'']), wd_lookups = 0, wd_posts = []\<rparr>"

theorem verified_without_route_witness:
  "wd_kube (snd (StartVerification mem_kube example_domain outer_world)) = []"
proof -
  have "\<not> g_DynamicClient (wd_globals outer_world)" "answered example_domain outer_world 0"
    by (simp_all add: outer_world_def answered_def example_domain_def new_domain_def)
  from verified_without_route [OF this, of mem_kube] show ?thesis by (simp add: outer_world_def)
qed

text \<open>
  The periodic check, whatever the database and the DNS do, turns some successful domains into
  erroneous ones and changes nothing else: no domain ever becomes successful by it.
\<close>

theorem check_only_fails:
  assumes "db_ok (wd_db s)"
  shows "list_all2 (\<lambda>c c'. c' = c \<or> (cd_Status c = ''success'' \<and> c' = c\<lparr>cd_Status := ''error''\<rparr>))
      (t_domains (tab (wd_db s))) (t_domains (tab (wd_db (snd (domainCheck_Do s))))) \<and>
    (tab (wd_db (snd (domainCheck_Do s))))\<lparr>t_domains := []\<rparr> = (tab (wd_db s))\<lparr>t_domains := []\<rparr>"
proof -
  let ?rs = "t_domains (tab (wd_db s))"
  obtain r d' where l: "ListAllSuccessDomains (wd_db s) = (r, d')"
    by (cases "ListAllSuccessDomains (wd_db s)")
  note d' = success_list(1) [OF l]
  show ?thesis
  proof (cases r)
    case (Inl e)
    with l d' show ?thesis by (simp add: domainCheck_Do_def on_db_def list_all2_same)
  next
    case (Inr ds)
    then have ds: "ds = filter (\<lambda>c. cd_Status c = ''success'') ?rs" using success_list(2) [OF l] by simp
    let ?s = "s\<lparr>wd_db := d'\<rparr>"
    from check_domains_cases [of ds ?s] obtain B where B: "B \<subseteq> cd_CDID ` set ds"
      "tab (wd_db (check_domains ds ?s)) = (tab d')\<lparr>t_domains := errors_in B (t_domains (tab d'))\<rparr>" by auto
    have fin: "snd (domainCheck_Do s) = check_domains ds ?s"
      using l Inr by (simp add: domainCheck_Do_def on_db_def)
    have "cd_Status c = ''success''" if "c \<in> set ?rs" "cd_CDID c \<in> B" for c
      using that B(1) ds assms same_cdid [of ?rs c] by (auto simp: db_ok_def tables_ok_def)
    then have "list_all2 (\<lambda>c c'. c' = c \<or> (cd_Status c = ''success'' \<and> c' = c\<lparr>cd_Status := ''error''\<rparr>))
        ?rs (errors_in B ?rs)"
      by (auto simp: errors_in_def update_where_def to_error_def list_all2_conv_all_nth)
    with B(2) d' fin show ?thesis by simp
  qed
qed

theorem check_only_fails_witness:
  "length (t_domains (tab (wd_db (snd (domainCheck_Do outer_world))))) = 1"
proof -
  have "ids tb (tab (wd_db outer_world)) = (if tb = Domains then [0] else [])" for tb
    by (cases tb) (simp_all add: outer_world_def empty_db_def empty_tables_def example_domain_def new_domain_def)
  then have "db_ok (wd_db outer_world)"
    by (simp add: db_ok_def seq_ok_def) (simp add: outer_world_def tables_ok_def empty_db_def empty_tables_def)
  from check_only_fails [OF this] have "length (t_domains (tab (wd_db outer_world))) =
      length (t_domains (tab (wd_db (snd (domainCheck_Do outer_world)))))"
    by (auto dest: list_all2_lengthD)
  then show ?thesis by (simp add: outer_world_def)
qed

text \<open>
  When no statement fails and the DNS answers the same throughout, the check marks exactly the
  successful domains whose record is missing.
\<close>

theorem check_exact:
  assumes "db_ok (wd_db s)" and "db_faults (wd_db s) = []" and "\<And>n. wd_dns s n = ans"
  shows "t_domains (tab (wd_db (snd (domainCheck_Do s)))) =
    map (\<lambda>c. if cd_Status c = ''success'' \<and>
                  \<not> (case ans (cd_TXTName c) of None \<Rightarrow> False | Some rs \<Rightarrow> cd_TXTValue c \<in> set rs)
              then c\<lparr>cd_Status := ''error''\<rparr> else c) (t_domains (tab (wd_db s)))"
proof -
  let ?rs = "t_domains (tab (wd_db s))" and ?ds = "filter (\<lambda>c. cd_Status c = ''success'') (t_domains (tab (wd_db s)))"
  let ?bad = "\<lambda>cd. \<not> (case ans (cd_TXTName cd) of None \<Rightarrow> False | Some rs \<Rightarrow> cd_TXTValue cd \<in> set rs)"
  have "ListAllSuccessDomains (wd_db s) = (Inr ?ds, wd_db s)"
    using success_list(3) [of "wd_db s"] assms(2) by (metis prod.collapse)
  then have run: "snd (domainCheck_Do s) = check_domains ?ds s"
    by (simp add: domainCheck_Do_def on_db_def)
  have eq: "t_domains (tab (wd_db (snd (domainCheck_Do s)))) =
      errors_in {cd_CDID cd | cd. cd \<in> set ?ds \<and> ?bad cd} ?rs"
    unfolding run by (rule check_domains_exact [OF assms(2,3)])
  have "cd_CDID c \<in> {cd_CDID cd | cd. cd \<in> set ?ds \<and> ?bad cd} \<longleftrightarrow> cd_Status c = ''success'' \<and> ?bad c"
    if "c \<in> set ?rs" for c
    using that same_cdid [of ?rs c] assms(1) by (auto simp: db_ok_def tables_ok_def)
  then show ?thesis unfolding eq errors_in_def update_where_def to_error_def by (intro map_cong) auto
qed

theorem check_exact_witness:
  "t_domains (tab (wd_db (snd (domainCheck_Do (outer_world\<lparr>wd_dns := (\<lambda>_ _. None)\<rparr>))))) =
   [example_domain\<lparr>cd_Status := ''error''\<rparr>]"
proof -
  let ?w = "outer_world\<lparr>wd_dns := (\<lambda>_ _. None)\<rparr>"
  have "ids tb (tab (wd_db ?w)) = (if tb = Domains then [0] else [])" for tb
    by (cases tb) (simp_all add: outer_world_def empty_db_def empty_tables_def example_domain_def new_domain_def)
  then have "db_ok (wd_db ?w)"
    by (simp add: db_ok_def seq_ok_def) (simp add: outer_world_def tables_ok_def empty_db_def empty_tables_def)
  moreover have "db_faults (wd_db ?w) = []" by (simp add: outer_world_def empty_db_def)
  ultimately show ?thesis
    using check_exact [of ?w "\<lambda>_. None"]
    by (simp add: outer_world_def example_domain_def new_domain_def)
qed

end
