(* ===== verification/JobRuns.thy ===== *)
theory JobRuns
  imports Domains JobCodec
begin

text \<open>
  \<open>handlers/jobs\<close>: what each job does (\<open>Do\<close>), on the whole world.  \<open>K\<close> is the Kubernetes API and
  \<open>ord\<close> the order in which Go iterates over a set of user ids.
\<close>

section \<open>Registration, workers\<close>

definition registerUser_Do :: "string \<Rightarrow> 'k world \<Rightarrow> err option \<times> 'k world" where
  "registerUser_Do uid s =
     (case wd_rdb s of None \<Rightarrow> (None, s) | Some m \<Rightarrow> (None, snd (on_rdb (InitUserRDB uid) m s)))"

text \<open>The deploy jobs run in the inner gateway, which does not start without a Kubernetes client.\<close>

definition deployWorker_Do :: "'k kube \<Rightarrow> int \<Rightarrow> 'k world \<Rightarrow> err option \<times> 'k world" where
  "deployWorker_Do K versionID s =
     (case on_db (GetDeployVersionWithWorker versionID) s of
        (Inl e, s1) \<Rightarrow>
          (Some (Wrap (''get version '' @ dec_int versionID) e),
           do_db (UpdateDeployVersionStatus versionID ''error'' (err_text e)) s1)
      | (Inr (v, w, sk), s1) \<Rightarrow>
          (case on_kube (CreateWorkerAppCR K (WorkerName (w_WID w) (w_UserUID w))
                  \<lparr>WorkerID = w_WID w, OwnerID = w_UserUID w, OwnerSK = sk, Image = v_Image v,
                   Port = v_Port v\<rparr>) s1 of
             (Some e, s2) \<Rightarrow>
               (Some (Wrap (''create CR for version '' @ dec_int versionID) e),
                do_db (UpdateWorkerStatus (w_WID w) ''error'')
                  (do_db (UpdateDeployVersionStatus versionID ''error'' (err_text e)) s2))
           | (None, s2) \<Rightarrow> (None, do_db (DeployVersionSuccess versionID (w_ID w)) s2)))"

text \<open>The two sync jobs: the object they read gets the job's map as its data.\<close>

definition with_data :: "string gomap option \<Rightarrow> kobj \<Rightarrow> kobj" where
  "with_data m ob = ob\<lparr>o_body := (case o_body ob of
     ConfigMap _ \<Rightarrow> ConfigMap m | Secret ty _ \<Rightarrow> Secret ty m | b \<Rightarrow> b)\<rparr>"

definition sync_data :: "'k kube \<Rightarrow> kind \<Rightarrow> string \<Rightarrow> string \<Rightarrow> string \<Rightarrow> string gomap option \<Rightarrow>
    'k world \<Rightarrow> err option \<times> 'k world" where
  "sync_data K kd name wid msg m s =
     (if \<not> g_K8sClient (wd_globals s) then (None, s)
      else case on_kube (k_get K kd WorkerNamespace name) s of
        (Inl _, s1) \<Rightarrow> (None, s1)
      | (Inr ob, s1) \<Rightarrow>
          (case on_kube (k_update K kd WorkerNamespace (with_data m ob)) s1 of
             (Some e, s2) \<Rightarrow> (Some (Wrap msg (kerr_err e)), do_db (UpdateWorkerStatus wid ''error'') s2)
           | (None, s2) \<Rightarrow> (None, do_db (UpdateWorkerStatus wid ''active'') s2)))"

definition syncEnv_Do :: "'k kube \<Rightarrow> string \<Rightarrow> string \<Rightarrow> string gomap option \<Rightarrow> 'k world \<Rightarrow>
    err option \<times> 'k world" where
  "syncEnv_Do K wid uid m =
     sync_data K ConfigMaps (WorkerName wid uid @ ''-env'') wid ''sync env configmap'' m"

text \<open>The secret's data is a fresh map, so a nil map becomes an empty one.\<close>

definition syncSecret_Do :: "'k kube \<Rightarrow> string \<Rightarrow> string \<Rightarrow> string gomap option \<Rightarrow> 'k world \<Rightarrow>
    err option \<times> 'k world" where
  "syncSecret_Do K wid uid m =
     sync_data K Secrets (WorkerName wid uid @ ''-secret'') wid ''sync secret'' (Some (or_empty m))"

definition deleteWorkerCR_Do :: "'k kube \<Rightarrow> string \<Rightarrow> string \<Rightarrow> 'k world \<Rightarrow> err option \<times> 'k world" where
  "deleteWorkerCR_Do K wid uid s = on_kube (DeleteWorkerAppCR K (WorkerName wid uid)) s"

section \<open>Combinator resources\<close>

definition webhook_payload :: "string \<Rightarrow> string \<Rightarrow> string \<Rightarrow> json" where
  "webhook_payload userUID resourceID resourceType =
     JObj [(''resource_id'', JStr resourceID), (''resource_type'', JStr resourceType),
           (''user_uid'', JStr userUID)]"

text \<open>One request to every running pod that has an address; whether it arrives is only logged.\<close>

definition pod_url :: "kobj \<Rightarrow> string option" where
  "pod_url ob =
     (case o_body ob of
        Pod p \<Rightarrow> (if pd_phase p \<noteq> ''Running'' \<or> pd_ip p = '''' then None
                  else Some (''http://'' @ pd_ip p @ '':8890/webhook''))
      | _ \<Rightarrow> None)"

fun pod_urls :: "kobj list \<Rightarrow> string list" where
  "pod_urls [] = []"
| "pod_urls (ob # obs) = (case pod_url ob of None \<Rightarrow> pod_urls obs | Some u \<Rightarrow> u # pod_urls obs)"

definition notifyAllCombinatorPods :: "'k kube \<Rightarrow> string \<Rightarrow> string \<Rightarrow> string \<Rightarrow> 'k world \<Rightarrow>
    err option \<times> 'k world" where
  "notifyAllCombinatorPods K userUID resourceID resourceType s =
     (if \<not> g_K8sClient (wd_globals s) then (Some (Errorf ''k8s client not available''), s)
      else case on_kube (k_list K Pods ''combinator'' ''app=combinator'') s of
        (Inl e, s1) \<Rightarrow> (Some (Wrap ''failed to list combinator pods'' (kerr_err e)), s1)
      | (Inr items, s1) \<Rightarrow>
          (None, s1\<lparr>wd_posts := wd_posts s1 @
             map (\<lambda>u. (u, webhook_payload userUID resourceID resourceType)) (pod_urls items)\<rparr>))"

definition createRDB_Do :: "string \<Rightarrow> string \<Rightarrow> 'k world \<Rightarrow> err option \<times> 'k world" where
  "createRDB_Do uid rid s =
     (case wd_rdb s of
        None \<Rightarrow> (Some (Errorf ''cockroachdb not available''),
                 do_db (UpdateCombinatorResourceStatus uid ''rdb'' rid ''error'' ''cockroachdb not available'') s)
      | Some m \<Rightarrow>
          (case on_rdb (InitUserRDB uid) m s of
             (Inl e, s1) \<Rightarrow> (Some (Wrap ''init user rdb'' e),
                 do_db (UpdateCombinatorResourceStatus uid ''rdb'' rid ''error'' (err_text e)) s1)
           | (Inr _, s1) \<Rightarrow>
               (case on_rdb (CreateSchema uid rid) (the (wd_rdb s1)) s1 of
                  (Inl e, s2) \<Rightarrow> (Some (Wrap ''create schema'' e),
                      do_db (UpdateCombinatorResourceStatus uid ''rdb'' rid ''error'' (err_text e)) s2)
                | (Inr _, s2) \<Rightarrow>
                    (None, do_db (UpdateCombinatorResourceStatus uid ''rdb'' rid ''active'' '''') s2))))"

definition deleteRDB_Do :: "'k kube \<Rightarrow> string \<Rightarrow> string \<Rightarrow> 'k world \<Rightarrow> err option \<times> 'k world" where
  "deleteRDB_Do K uid rid s =
     (let s1 = (case wd_rdb s of None \<Rightarrow> s | Some m \<Rightarrow> snd (on_rdb (DeleteSchema uid rid) m s))
      in (None, snd (notifyAllCombinatorPods K uid rid ''rdb'' s1)))"

definition createKV_Do :: "string \<Rightarrow> string \<Rightarrow> 'k world \<Rightarrow> err option \<times> 'k world" where
  "createKV_Do uid rid s =
     (None, do_db (UpdateCombinatorResourceStatus uid ''kv'' rid ''active'' '''') s)"

definition deleteKV_Do :: "'k kube \<Rightarrow> string \<Rightarrow> string \<Rightarrow> 'k world \<Rightarrow> err option \<times> 'k world" where
  "deleteKV_Do K uid rid s = (None, snd (notifyAllCombinatorPods K uid rid ''kv'' s))"

section \<open>The user audit\<close>

definition userPageSize :: nat where
  "userPageSize = 1000"

text \<open>The page loop: it ends because a full page leaves fewer users to read.\<close>

function load_pages :: "nat \<Rightarrow> string list \<Rightarrow> string list dbop" where
  "load_pages off acc d =
     (case ListUserUIDsPaged userPageSize off d of
        (Inl e, d') \<Rightarrow> (Inl e, d')
      | (Inr uids, d') \<Rightarrow>
          (if length uids < userPageSize then (Inr (fold add_new uids acc), d')
           else load_pages (off + userPageSize) (fold add_new uids acc) d'))"
  by pat_completeness auto
termination
  by (relation "measure (\<lambda>(off, acc, d). length (t_users (tab d)) - off)")
    (auto dest: uids.full_page_progress [OF sym] simp: userPageSize_def)

declare load_pages.simps [simp del]

definition loadAllUserUIDs :: "string list dbop" where
  "loadAllUserUIDs = load_pages 0 []"

definition owner_of_item :: "kobj \<Rightarrow> string" where
  "owner_of_item item =
     (case member (dyn_members item) ''spec'' of
        JObj spec \<Rightarrow> (case member spec ''ownerID'' of JStr s \<Rightarrow> s | _ \<Rightarrow> '''')
      | _ \<Rightarrow> '''')"

fun cleanOrphanWorkers :: "'k kube \<Rightarrow> string list \<Rightarrow> kobj list \<Rightarrow> 'k world \<Rightarrow> 'k world" where
  "cleanOrphanWorkers K userSet [] s = s"
| "cleanOrphanWorkers K userSet (item # items) s =
     (let ownerID = owner_of_item item
      in if ownerID = '''' \<or> ownerID \<in> set userSet then cleanOrphanWorkers K userSet items s
         else cleanOrphanWorkers K userSet items (do_kube (DeleteWorkerAppCR K (o_name item)) s))"

fun checkUserRDBInitialization :: "string list \<Rightarrow> string list \<Rightarrow> rdb \<Rightarrow> rdb" where
  "checkUserRDBInitialization [] existingDBs m = m"
| "checkUserRDBInitialization (uid # uids) existingDBs m =
     (if DatabaseName uid \<in> set existingDBs then checkUserRDBInitialization uids existingDBs m
      else checkUserRDBInitialization uids existingDBs (snd (InitUserRDB uid m)))"

fun cleanOrphanRDBs :: "string list \<Rightarrow> string list \<Rightarrow> rdb \<Rightarrow> rdb" where
  "cleanOrphanRDBs userSet [] m = m"
| "cleanOrphanRDBs userSet (dbName # dbs) m =
     (if dbName \<in> set (map DatabaseName userSet) then cleanOrphanRDBs userSet dbs m
      else cleanOrphanRDBs userSet dbs (snd (DropDatabase dbName m)))"

text \<open>A list of databases that is nil (an error, or no row at all) skips both database steps.\<close>

definition userAudit_Do :: "'k kube \<Rightarrow> (string list \<Rightarrow> string list) \<Rightarrow> 'k world \<Rightarrow> err option \<times> 'k world" where
  "userAudit_Do K ord s =
     (if \<not> g_K8sClient (wd_globals s) \<or> \<not> g_DynamicClient (wd_globals s) then (None, s)
      else case on_db loadAllUserUIDs s of
        (Inl e, s1) \<Rightarrow> (Some e, s1)
      | (Inr userSet, s1) \<Rightarrow>
          (case on_kube (k_list K WorkerApps WorkerNamespace '''') s1 of
             (Inl e, s2) \<Rightarrow> (Some (Wrap ''list worker CRs'' (kerr_err e)), s2)
           | (Inr workerCRs, s2) \<Rightarrow>
               (case wd_rdb s2 of
                  None \<Rightarrow> (None, cleanOrphanWorkers K userSet workerCRs s2)
                | Some m \<Rightarrow>
                    (case RootListUserDatabases m of
                       (r, m1) \<Rightarrow>
                         (let existingDBs = (case r of Inl _ \<Rightarrow> [] | Inr dbs \<Rightarrow> dbs);
                              m2 = (if existingDBs = [] then m1
                                    else checkUserRDBInitialization (ord userSet) existingDBs m1);
                              s3 = cleanOrphanWorkers K userSet workerCRs (s2\<lparr>wd_rdb := Some m2\<rparr>);
                              m3 = (if existingDBs = [] then m2 else cleanOrphanRDBs userSet existingDBs m2)
                          in (None, s3\<lparr>wd_rdb := Some m3\<rparr>))))))"

section \<open>Every job\<close>

definition job_Do :: "'k kube \<Rightarrow> (string list \<Rightarrow> string list) \<Rightarrow> job \<Rightarrow> 'k world \<Rightarrow> err option \<times> 'k world" where
  "job_Do K ord j s =
     (case j of
        RegisterUserJob uid \<Rightarrow> registerUser_Do uid s
      | UserAuditJob \<Rightarrow> userAudit_Do K ord s
      | DeployWorkerJob wid uid v \<Rightarrow> deployWorker_Do K v s
      | DeleteWorkerCRJob wid uid \<Rightarrow> deleteWorkerCR_Do K wid uid s
      | SyncEnvJob wid uid m \<Rightarrow> syncEnv_Do K wid uid m s
      | SyncSecretJob wid uid m \<Rightarrow> syncSecret_Do K wid uid m s
      | CreateRDBJob uid name rid \<Rightarrow> createRDB_Do uid rid s
      | DeleteRDBJob uid rid \<Rightarrow> deleteRDB_Do K uid rid s
      | CreateKVJob uid rid \<Rightarrow> createKV_Do uid rid s
      | DeleteKVJob uid rid \<Rightarrow> deleteKV_Do K uid rid s
      | DomainCheckJob \<Rightarrow> domainCheck_Do s)"

section \<open>Jobs keep the invariants\<close>

definition world_ok :: "'k world \<Rightarrow> bool" where
  "world_ok s \<longleftrightarrow> db_ok (wd_db s) \<and> (\<forall>m. wd_rdb s = Some m \<longrightarrow> pool_ok m)"

lemma keeps_snd: "keeps_ok op \<Longrightarrow> db_ok d \<Longrightarrow> db_ok (snd (op d))"
  by (simp add: keeps_ok_def)

definition keeps_pool :: "'a rdbop \<Rightarrow> bool" where
  "keeps_pool op \<longleftrightarrow> (\<forall>s. pool_ok s \<longrightarrow> pool_ok (snd (op s)))"

lemma keeps_poolD: "keeps_pool op \<Longrightarrow> pool_ok s \<Longrightarrow> pool_ok (snd (op s))"
  by (simp add: keeps_pool_def)

lemma get_keeps_pool: "keeps_pool (getOrCreateUserDB u)"
  unfolding keeps_pool_def using getOrCreate_ok(1) by (metis prod.collapse)

lemma root_keeps_pool: "keeps_pool tryGetRootDB"
  unfolding keeps_pool_def using tryGetRootDB_ok by (metis prod.collapse)

lemma server_keeps_pool: "keeps_pool (on_server h f)"
  unfolding keeps_pool_def using on_server_pool_ok by (metis prod.collapse)

lemma bind_keeps_pool: "keeps_pool op \<Longrightarrow> (\<And>x. keeps_pool (k x)) \<Longrightarrow> keeps_pool (rdb_bind op k)"
  unfolding keeps_pool_def rdb_bind_def
  by (simp split: prod.splits sum.splits) (metis snd_conv)

lemma exec_keeps_pool: "keeps_pool (db_Exec h st)" "keeps_pool (db_Query h q)"
  by (simp_all add: db_Exec_def db_Query_def server_keeps_pool)

lemmas pool_keepers = get_keeps_pool root_keeps_pool exec_keeps_pool bind_keeps_pool

lemma rdb_ops_keep_pool:
  "keeps_pool (CreateSchema u sid)" "keeps_pool (DeleteSchema u sid)" "keeps_pool (InitUserRDB u)"
  "keeps_pool (DropDatabase n)" "keeps_pool RootListUserDatabases"
  unfolding CreateSchema_def DeleteSchema_def InitUserRDB_def DropDatabase_def
    RootListUserDatabases_def
  by (intro pool_keepers)+

lemma on_rdb_ok:
  "world_ok s \<Longrightarrow> pool_ok m \<Longrightarrow> keeps_pool op \<Longrightarrow> world_ok (snd (on_rdb op m s)) \<and>
     (\<exists>m'. wd_rdb (snd (on_rdb op m s)) = Some m' \<and> pool_ok m')"
  by (auto simp: on_rdb_def world_ok_def case_prod_beta keeps_poolD)

lemma do_db_ok: "world_ok s \<Longrightarrow> keeps_ok op \<Longrightarrow> world_ok (do_db op s)"
  by (simp add: world_ok_def keeps_snd)

lemma on_db_ok: "world_ok s \<Longrightarrow> keeps_ok op \<Longrightarrow> on_db op s = (r, s') \<Longrightarrow> world_ok s'"
  by (auto simp: on_db_def world_ok_def case_prod_beta keeps_snd)

lemma do_kube_ok: "world_ok s \<Longrightarrow> world_ok (do_kube f s)"
  by (simp add: world_ok_def)

lemma on_kube_ok: "world_ok s \<Longrightarrow> on_kube f s = (r, s') \<Longrightarrow> world_ok s'"
  by (auto simp: world_ok_def on_kube_def case_prod_beta)

lemma load_pages_keeps: "keeps_ok (load_pages off acc)"
proof (rule keeps_okI)
  fix d r d' assume "load_pages off acc d = (r, d')" "db_ok d"
  then show "db_ok d' \<and> (\<forall>tb. db_seq d tb \<le> db_seq d' tb)"
  proof (induction off acc d arbitrary: r d' rule: load_pages.induct)
    case (1 off acc d)
    obtain q d1 where q: "ListUserUIDsPaged userPageSize off d = (q, d1)"
      by (cases "ListUserUIDsPaged userPageSize off d")
    have d1: "db_ok d1" "\<And>tb. db_seq d tb \<le> db_seq d1 tb"
      using keeps_okD [OF user_ops_keep(5) q] keeps_seqD [OF user_ops_keep(5) q] "1.prems"(2) by auto
    show ?case
    proof (cases q)
      case (Inl e)
      with "1.prems"(1) q d1 show ?thesis by (subst (asm) load_pages.simps) auto
    next
      case (Inr uids)
      show ?thesis
      proof (cases "length uids < userPageSize")
        case True
        with "1.prems"(1) q Inr d1 show ?thesis by (subst (asm) load_pages.simps) auto
      next
        case False
        with "1.prems"(1) q Inr have "load_pages (off + userPageSize) (fold add_new uids acc) d1 = (r, d')"
          by (subst (asm) load_pages.simps) simp
        from "1.IH" [OF q [symmetric] Inr False this d1(1)] d1(2) show ?thesis by (meson order_trans)
      qed
    qed
  qed
qed

lemma cleanOrphanWorkers_ok: "world_ok s \<Longrightarrow> world_ok (cleanOrphanWorkers K us items s)"
  by (induction items arbitrary: s) (simp_all add: Let_def do_kube_ok)

lemma checkInit_pool: "pool_ok m \<Longrightarrow> pool_ok (checkUserRDBInitialization us dbs m)"
  by (induction us arbitrary: m) (simp_all add: keeps_poolD rdb_ops_keep_pool)

lemma cleanRDBs_pool: "pool_ok m \<Longrightarrow> pool_ok (cleanOrphanRDBs us dbs m)"
  by (induction dbs arbitrary: m) (simp_all add: keeps_poolD rdb_ops_keep_pool)

lemma check_domains_ok: "world_ok s \<Longrightarrow> world_ok (check_domains cds s)"
proof (induction cds arbitrary: s)
  case (Cons cd cds)
  have "world_ok (s\<lparr>wd_lookups := n\<rparr>)" for n using Cons.prems by (simp add: world_ok_def)
  then show ?case unfolding check_step
    by (intro Cons.IH) (simp add: do_db_ok domain_ops_keep)
qed simp

lemma notify_ok: "world_ok s \<Longrightarrow> world_ok (snd (notifyAllCombinatorPods K u rid ty s))"
  by (auto simp: notifyAllCombinatorPods_def world_ok_def on_kube_def split: prod.splits sum.splits)

lemma sync_data_ok: "world_ok s \<Longrightarrow> world_ok (snd (sync_data K kd name wid msg m s))"
  by (auto simp: sync_data_def split: prod.splits sum.splits option.splits
      intro!: do_db_ok worker_ops_keep dest: on_kube_ok)

lemma deployWorker_ok: "world_ok s \<Longrightarrow> world_ok (snd (deployWorker_Do K v s))"
  by (auto simp: deployWorker_Do_def split: prod.splits sum.splits option.splits
      intro!: do_db_ok worker_ops_keep version_ops_keep tx_ops_keep
      dest: on_kube_ok on_db_ok [OF _ version_ops_keep(3)])

lemma createRDB_ok: "world_ok s \<Longrightarrow> world_ok (snd (createRDB_Do u rid s))"
proof (cases "wd_rdb s")
  case None
  then show "world_ok s \<Longrightarrow> ?thesis"
    by (simp add: createRDB_Do_def do_db_ok resource_ops_keep)
next
  case (Some m)
  assume ok: "world_ok s"
  with Some have m: "pool_ok m" by (simp add: world_ok_def)
  obtain r1 s1 where i: "on_rdb (InitUserRDB u) m s = (r1, s1)" by (cases "on_rdb (InitUserRDB u) m s")
  from on_rdb_ok [OF ok m, of "InitUserRDB u"] i obtain m1 where
    s1: "world_ok s1" "wd_rdb s1 = Some m1" "pool_ok m1" by (auto simp: rdb_ops_keep_pool)
  obtain r2 s2 where c: "on_rdb (CreateSchema u rid) m1 s1 = (r2, s2)" by (cases "on_rdb (CreateSchema u rid) m1 s1")
  from on_rdb_ok [OF s1(1,3), of "CreateSchema u rid"] c have "world_ok s2"
    by (auto simp: rdb_ops_keep_pool)
  with i s1 c Some show ?thesis
    by (auto simp: createRDB_Do_def split: sum.splits intro!: do_db_ok resource_ops_keep)
qed

lemma userAudit_ok: "world_ok s \<Longrightarrow> world_ok (snd (userAudit_Do K ord s))"
proof -
  assume ok: "world_ok s"
  obtain r1 s1 where l: "on_db loadAllUserUIDs s = (r1, s1)" by (cases "on_db loadAllUserUIDs s")
  have s1: "world_ok s1" using on_db_ok [OF ok _ l] load_pages_keeps by (simp add: loadAllUserUIDs_def)
  obtain r2 s2 where k: "on_kube (k_list K WorkerApps WorkerNamespace []) s1 = (r2, s2)"
    by (cases "on_kube (k_list K WorkerApps WorkerNamespace []) s1")
  have s2: "world_ok s2" using on_kube_ok [OF s1 k] .
  have fin: "world_ok (t\<lparr>wd_rdb := Some m\<rparr>)" if "world_ok t" "pool_ok m" for t :: "'a world" and m
    using that by (simp add: world_ok_def)
  have list_ok: "pool_ok m1" if "RootListUserDatabases m = (q, m1)" "pool_ok m" for q m m1
    using keeps_poolD [OF rdb_ops_keep_pool(5) that(2)] that(1) by simp
  have pm: "pool_ok m" if "wd_rdb s2 = Some m" for m using s2 that by (simp add: world_ok_def)
  show ?thesis
    using ok l k s1 s2
    by (auto simp: userAudit_Do_def Let_def split: sum.splits option.splits prod.splits
        intro!: cleanOrphanWorkers_ok fin cleanRDBs_pool checkInit_pool dest: list_ok [OF _ pm])
qed

lemma registerUser_ok: "world_ok s \<Longrightarrow> world_ok (snd (registerUser_Do u s))"
  using on_rdb_ok [of s _ "InitUserRDB u"] rdb_ops_keep_pool(3)
  by (auto simp: registerUser_Do_def world_ok_def split: option.splits)

lemma deleteRDB_ok: "world_ok s \<Longrightarrow> world_ok (snd (deleteRDB_Do K u rid s))"
  using on_rdb_ok [of s _ "DeleteSchema u rid"] rdb_ops_keep_pool(2)
  by (auto simp: deleteRDB_Do_def Let_def world_ok_def [of s] split: option.splits intro!: notify_ok)

lemma domainCheck_ok: "world_ok s \<Longrightarrow> world_ok (snd (domainCheck_Do s))"
  by (auto simp: domainCheck_Do_def split: prod.splits sum.splits
      intro!: check_domains_ok dest: on_db_ok [OF _ domain_ops_keep(6)])

lemma job_Do_ok: "world_ok s \<Longrightarrow> world_ok (snd (job_Do K ord j s))"
  by (cases j)
    (auto simp: job_Do_def registerUser_ok userAudit_ok deployWorker_ok sync_data_ok createRDB_ok
      deleteRDB_ok domainCheck_ok notify_ok syncEnv_Do_def syncSecret_Do_def createKV_Do_def
      deleteKV_Do_def deleteWorkerCR_Do_def do_db_ok resource_ops_keep on_kube_def case_prod_beta
      world_ok_def [of s] world_ok_def [of "s\<lparr>wd_kube := k\<rparr>" for k])

end
