(* ===== verification/JobProps.thy ===== *)
theory JobProps
  imports JobRuns
begin

text \<open>
  What the jobs of \<open>handlers/jobs\<close> achieve: the user audit reads every user, spares the databases
  of registered users and, over a healthy root connection, leaves exactly theirs; the worker and
  combinator jobs report their outcome in the database.
\<close>

section \<open>Reading the users\<close>

abbreviation user_ids :: "db \<Rightarrow> string set" where
  "user_ids d \<equiv> usr_UID ` set (t_users (tab d))"

lemma set_fold_add_new: "set (fold add_new xs acc) = set acc \<union> set xs"
  by (induction xs arbitrary: acc) (auto simp: add_new_def)

lemma distinct_fold_add_new: "distinct acc \<Longrightarrow> distinct (fold add_new xs acc)"
  by (induction xs arbitrary: acc) (auto simp: add_new_def)

lemma load_pages_all:
  assumes "load_pages off acc d = (Inr l, d')"
    and "set acc = set (take off (sort (map usr_UID (t_users (tab d)))))" and "distinct acc"
  shows "set l = user_ids d \<and> distinct l"
  using assms
proof (induction off acc d rule: load_pages.induct)
  case (1 off acc d)
  obtain q d1 where q: "ListUserUIDsPaged userPageSize off d = (q, d1)"
    by (cases "ListUserUIDsPaged userPageSize off d")
  from "1.prems"(1) q obtain uids where u: "q = Inr uids"
    by (subst (asm) load_pages.simps) (auto split: sum.splits)
  note page = q [unfolded u]
  show ?case
  proof (cases "length uids < userPageSize")
    case True
    with "1.prems"(1) page have "l = fold add_new uids acc" by (subst (asm) load_pages.simps) simp
    then show ?thesis
      using uids.short_page_last [OF page True] "1.prems"(2,3)
      by (simp add: set_fold_add_new distinct_fold_add_new)
  next
    case False
    with "1.prems"(1) page have r: "load_pages (off + userPageSize) (fold add_new uids acc) d1 = (Inr l, d')"
      by (subst (asm) load_pages.simps) simp
    have c: "set (take (off + userPageSize) (sort (map usr_UID (t_users (tab d1))))) =
        set acc \<union> set uids"
      using uids.full_page_prefix [OF page] "1.prems"(2) by simp
    have "t_users (tab d1) = t_users (tab d)"
      using page by (auto simp: ListUserUIDsPaged_def dest: sql_query_tab)
    with "1.IH" [OF q [symmetric] u False r] c "1.prems"(3) show ?thesis
      by (simp add: set_fold_add_new distinct_fold_add_new)
  qed
qed

lemma load_pages_err:
  "load_pages off acc d = (Inl e, d') \<Longrightarrow> \<exists>m. Some m \<in> set (db_faults d) \<and> e = DriverErr m"
proof (induction off acc d rule: load_pages.induct)
  case (1 off acc d)
  obtain q d1 where q: "ListUserUIDsPaged userPageSize off d = (q, d1)"
    by (cases "ListUserUIDsPaged userPageSize off d")
  have fs: "set (db_faults d1) \<subseteq> set (db_faults d)"
    "\<And>e. q = Inl e \<Longrightarrow> \<exists>m. Some m \<in> set (db_faults d) \<and> e = DriverErr m"
    using q by (auto simp: ListUserUIDsPaged_def sql_query_def run_stmt_def
        split: list.splits option.splits)
  show ?case
  proof (cases q)
    case (Inl e')
    with "1.prems" q fs(2) show ?thesis by (subst (asm) load_pages.simps) auto
  next
    case (Inr uids)
    with "1.prems" q have full: "\<not> length uids < userPageSize"
      "load_pages (off + userPageSize) (fold add_new uids acc) d1 = (Inl e, d')"
      by (subst (asm) load_pages.simps, simp split: if_splits)+
    from "1.IH" [OF q [symmetric] Inr full] fs(1) show ?thesis by blast
  qed
qed

lemma loadAllUserUIDs_err:
  "loadAllUserUIDs d = (Inl e, d') \<Longrightarrow> \<exists>m. Some m \<in> set (db_faults d) \<and> e = DriverErr m"
  unfolding loadAllUserUIDs_def by (rule load_pages_err)

lemma loadAllUserUIDs_all:
  "loadAllUserUIDs d = (Inr l, d') \<Longrightarrow> set l = user_ids d \<and> distinct l"
  unfolding loadAllUserUIDs_def by (erule load_pages_all) simp_all

section \<open>The databases through an audit\<close>

definition rdb_names :: "rdb \<Rightarrow> string list" where
  "rdb_names m = c_databases (server m)"

lemma init_names: "set (rdb_names m) \<subseteq> set (rdb_names (snd (InitUserRDB u m)))"
proof -
  have ex: "set (rdb_names s) \<subseteq> set (rdb_names s')"
    if "db_Exec h st s = (r, s')" "st \<in> {CreateDatabase d, CreateUserStmt v, GrantDatabase d v}"
    for h st s r s' d v
    using that by (cases r) (auto simp: rdb_names_def contents_def add_new_def
        dest!: db_Exec_ok db_Exec_err split: if_splits)
  obtain r s' where i: "InitUserRDB u m = (r, s')" by (cases "InitUserRDB u m")
  then have "set (rdb_names m) \<subseteq> set (rdb_names s')" unfolding InitUserRDB_def
    by (elim rdb_bind_cases)
      (auto simp: rdb_names_def dest!: ex tryGetRootDB_server [THEN arg_cong [of _ _ c_databases]],
       blast+)
  with i show ?thesis by simp
qed

lemma drop_names: "set (rdb_names m) - {n} \<subseteq> set (rdb_names (snd (DropDatabase n m)))"
  by (cases "DropDatabase n m"; cases "fst (DropDatabase n m)")
    (auto simp: rdb_names_def contents_def dest!: DropDatabase_effect DropDatabase_err)

lemma checkInit_names: "set (rdb_names m) \<subseteq> set (rdb_names (checkUserRDBInitialization us dbs m))"
proof (induction us arbitrary: m)
  case (Cons u us)
  then show ?case using init_names [of m u] by auto
qed simp

lemma cleanRDBs_names:
  "set (rdb_names m) - (set dbs - database ` set us) \<subseteq> set (rdb_names (cleanOrphanRDBs us dbs m))"
proof (induction dbs arbitrary: m)
  case (Cons n dbs)
  show ?case
  proof (cases "n \<in> database ` set us")
    case True
    then show ?thesis using Cons.IH [of m] by (auto simp: DatabaseName_def [abs_def])
  next
    case False
    then have "n \<notin> set (map DatabaseName us)" by (auto simp: DatabaseName_def [abs_def])
    then show ?thesis using Cons.IH [of "snd (DropDatabase n m)"] drop_names [of m n] False
      by (auto simp del: set_map)
  qed
qed simp

lemma clean_workers_rdb [simp]: "wd_rdb (cleanOrphanWorkers K us items s) = wd_rdb s"
  by (induction items arbitrary: s) (simp_all add: Let_def)

lemma on_kube_rdb: "on_kube f s = (r, s') \<Longrightarrow> wd_rdb s' = wd_rdb s"
  by (auto simp: on_kube_def split: prod.splits)

lemma on_db_rdb: "on_db f s = (r, s') \<Longrightarrow> wd_rdb s' = wd_rdb s"
  by (auto simp: on_db_def split: prod.splits)

text \<open>The manager after an audit: as it was up to the listing, or with both database steps run.\<close>

lemma audit_rdb:
  assumes "wd_rdb s = Some m"
  obtains m' where "wd_rdb (snd (userAudit_Do K ord s)) = Some m'" "contents (server m') = contents (server m)"
  | us m1 dbs where "set us = user_ids (wd_db s)" "RootListUserDatabases m = (Inr dbs, m1)" "dbs \<noteq> []"
    "wd_rdb (snd (userAudit_Do K ord s)) =
       Some (cleanOrphanRDBs us dbs (checkUserRDBInitialization (ord us) dbs m1))"
proof -
  let ?off = "\<not> g_K8sClient (wd_globals s) \<or> \<not> g_DynamicClient (wd_globals s)"
  obtain r1 s1 where l: "on_db loadAllUserUIDs s = (r1, s1)" by (cases "on_db loadAllUserUIDs s")
  obtain r2 s2 where k: "on_kube (k_list K WorkerApps WorkerNamespace []) s1 = (r2, s2)"
    by (cases "on_kube (k_list K WorkerApps WorkerNamespace []) s1")
  have m12: "wd_rdb s1 = Some m" "wd_rdb s2 = Some m"
    using on_db_rdb [OF l] on_kube_rdb [OF k] assms by simp_all
  show thesis
  proof (cases "?off \<or> (\<exists>e. r1 = Inl e) \<or> (\<exists>e. r2 = Inl e)")
    case True
    with assms l k m12 have "wd_rdb (snd (userAudit_Do K ord s)) = Some m"
      by (auto simp: userAudit_Do_def split: sum.splits)
    then show ?thesis by (rule that(1)) simp
  next
    case False
    then obtain us items where r: "r1 = Inr us" "r2 = Inr items" "\<not> ?off" by (cases r1; cases r2) auto
    obtain q m1 where q: "RootListUserDatabases m = (q, m1)" by (cases "RootListUserDatabases m")
    have us: "set us = user_ids (wd_db s)"
      using loadAllUserUIDs_all l r by (auto simp: on_db_def split: prod.splits)
    show ?thesis
    proof (cases "\<exists>dbs. q = Inr dbs \<and> dbs \<noteq> []")
      case True
      then obtain dbs where "q = Inr dbs" "dbs \<noteq> []" by auto
      then show ?thesis using l k r q m12 us
        by (intro that(2) [of us dbs m1]) (auto simp: userAudit_Do_def Let_def)
    next
      case False
      have "contents (server m1) = contents (server m)"
        using q unfolding RootListUserDatabases_def
        by (elim rdb_bind_cases) (auto dest!: tryGetRootDB_server db_Query_contents)
      then show ?thesis using l k r q m12 False
        by (intro that(1) [of m1]) (auto simp: userAudit_Do_def Let_def split: sum.splits)
    qed
  qed
qed

section \<open>A healthy root connection\<close>

definition root_up :: "rdb \<Rightarrow> bool" where
  "root_up m \<longleftrightarrow> (\<exists>h cur. rootDB m = Some h \<and> map_of (handles m) h = Some cur) \<and>
     ping_script m = [] \<and> c_faults (server m) = []"

lemma root_up_get:
  assumes "root_up m"
  obtains h cur where "tryGetRootDB m = (Inr h, m)" "map_of (handles m) h = Some cur"
proof -
  from assms obtain h cur where h: "rootDB m = Some h" "map_of (handles m) h = Some cur"
    by (auto simp: root_up_def)
  then have "h \<in> fst ` set (handles m)" by (metis domI dom_map_of_conv_image_fst)
  with assms h(1) have "tryGetRootDB m = (Inr h, m)"
    by (auto simp: tryGetRootDB_def root_check_def ping_def root_up_def)
  from that [OF this h(2)] show thesis .
qed

lemma root_up_exec:
  assumes "root_up m" "map_of (handles m) h = Some cur"
  obtains m' where "db_Exec h st m = (Inr (), m')" "root_up m'" "handles m' = handles m"
    "contents (server m') = contents (stmt_effect cur st (server m))"
proof -
  let ?m = "m\<lparr>server := (stmt_effect cur st (server m\<lparr>c_faults := []\<rparr>))
    \<lparr>c_log := c_log (server m) @ [(cur, stmt_text st)]\<rparr>\<rparr>"
  have "db_Exec h st m = (Inr (), ?m)" "c_faults (stmt_effect cur st (server m)) = []"
    using assms by (auto simp: db_Exec_def on_server_def root_up_def Let_def) (cases st; simp)
  moreover from this have "root_up ?m" using assms(1) by (auto simp: root_up_def) (cases st; simp)
  ultimately show thesis by (intro that [of ?m]) (cases st; simp add: contents_def)+
qed

lemma root_up_init:
  assumes "root_up m"
  obtains m' where "InitUserRDB u m = (Inr (), m')" "root_up m'"
    "rdb_names m' = add_new (database u) (rdb_names m)"
proof -
  from assms obtain h cur where h: "tryGetRootDB m = (Inr h, m)" "map_of (handles m) h = Some cur"
    by (rule root_up_get)
  obtain m1 where 1: "db_Exec h (CreateDatabase (database u)) m = (Inr (), m1)" "root_up m1"
    "handles m1 = handles m" by (rule root_up_exec [OF assms h(2)])
  obtain m2 where 2: "db_Exec h (CreateUserStmt (username u)) m1 = (Inr (), m2)" "root_up m2"
    "handles m2 = handles m1" by (rule root_up_exec [OF 1(2)]) (use h 1 in auto)
  obtain m3 where 3: "db_Exec h (GrantDatabase (database u) (username u)) m2 = (Inr (), m3)" "root_up m3"
    by (rule root_up_exec [OF 2(2)]) (use h 1 2 in auto)
  have "InitUserRDB u m = (Inr (), m3)"
    by (simp add: InitUserRDB_def rdb_bind_def h 1 2 3)
  with 3 that InitUserRDB_effect [OF this] show thesis by (simp add: rdb_names_def contents_def)
qed

lemma root_up_drop:
  assumes "root_up m"
  obtains m' where "DropDatabase n m = (Inr (), m')" "root_up m'"
    "rdb_names m' = removeAll n (rdb_names m)"
proof -
  from assms obtain h cur where h: "tryGetRootDB m = (Inr h, m)" "map_of (handles m) h = Some cur"
    by (rule root_up_get)
  obtain m1 where 1: "db_Exec h (DropDatabaseStmt n) m = (Inr (), m1)" "root_up m1"
    by (rule root_up_exec [OF assms h(2)])
  have "DropDatabase n m = (Inr (), m1)" by (simp add: DropDatabase_def rdb_bind_def h 1)
  with 1 that DropDatabase_effect [OF this] show thesis by (simp add: rdb_names_def contents_def)
qed

lemma root_up_list:
  assumes "root_up m"
  obtains m' where "RootListUserDatabases m = (Inr (filter (like ''db_%'') (rdb_names m)), m')"
    "root_up m'" "rdb_names m' = rdb_names m"
proof -
  from assms obtain h cur where h: "tryGetRootDB m = (Inr h, m)" "map_of (handles m) h = Some cur"
    by (rule root_up_get)
  have "RootListUserDatabases m = (Inr (filter (like ''db_%'') (rdb_names m)),
      m\<lparr>server := server m\<lparr>c_faults := []\<rparr>\<rparr>)"
    using assms h by (auto simp: RootListUserDatabases_def rdb_bind_def db_Query_def on_server_def
        root_up_def rdb_names_def Let_def)
  then show thesis by (rule that) (use assms in \<open>auto simp: root_up_def rdb_names_def\<close>)
qed

lemma checkInit_up:
  "root_up m \<Longrightarrow> root_up (checkUserRDBInitialization us dbs m) \<and>
     set (rdb_names (checkUserRDBInitialization us dbs m)) =
       set (rdb_names m) \<union> (database ` set us - set dbs)"
proof (induction us arbitrary: m)
  case (Cons u us)
  obtain m' where i: "InitUserRDB u m = (Inr (), m')" "root_up m'"
    "rdb_names m' = add_new (database u) (rdb_names m)" using Cons.prems by (rule root_up_init)
  then show ?case using Cons.IH [OF Cons.prems] Cons.IH [OF i(2)]
    by (auto simp: DatabaseName_def add_new_def)
qed simp

lemma cleanRDBs_up:
  "root_up m \<Longrightarrow> set (rdb_names (cleanOrphanRDBs us dbs m)) =
     set (rdb_names m) - (set dbs - database ` set us)"
proof (induction dbs arbitrary: m)
  case (Cons n dbs)
  obtain m' where i: "DropDatabase n m = (Inr (), m')" "root_up m'"
    "rdb_names m' = removeAll n (rdb_names m)" using Cons.prems by (rule root_up_drop)
  have keep: "n \<in> set (map DatabaseName us) \<longleftrightarrow> n \<in> database ` set us"
    by (auto simp: DatabaseName_def [abs_def])
  show ?case
  proof (cases "n \<in> database ` set us")
    case True
    with keep Cons.IH [OF Cons.prems] show ?thesis by (auto simp del: set_map)
  next
    case False
    with keep Cons.IH [OF i(2)] i show ?thesis by (auto simp del: set_map)
  qed
qed simp

lemma database_like: "like ''db_%'' (database u)"
  by (simp add: database_def like_percent)

section \<open>The worker objects through an audit\<close>

definition owner_of_body :: "body \<Rightarrow> string" where
  "owner_of_body b = owner_of_item (new_obj '''' '''' [] b)"

lemma owner_of_item_body: "owner_of_item ob = owner_of_body (o_body ob)"
  by (simp add: owner_of_item_def owner_of_body_def new_obj_def dyn_members_def)

lemma clean_workers_view:
  assumes laws: "kube_laws K view"
  shows "view (wd_kube (cleanOrphanWorkers K us items s)) k = view (wd_kube s) k \<or>
    (\<exists>ob \<in> set items. k = (WorkerApps, WorkerNamespace, o_name ob) \<and>
       owner_of_item ob \<noteq> '''' \<and> owner_of_item ob \<notin> set us)"
proof (induction items arbitrary: s)
  case (Cons item items)
  obtain r t where d: "DeleteWorkerAppCR K (o_name item) (wd_kube s) = (r, t)"
    by (cases "DeleteWorkerAppCR K (o_name item) (wd_kube s)")
  then have "view t = view (wd_kube s) \<or>
      view t = (view (wd_kube s))((WorkerApps, WorkerNamespace, o_name item) := None)"
    by (auto simp: DeleteWorkerAppCR_def split: prod.splits dest!: k_delete_either [OF laws])
  then show ?case
    using Cons.IH [of s] Cons.IH [of "do_kube (DeleteWorkerAppCR K (o_name item)) s"] d
    by (auto simp: Let_def split: if_splits)
qed simp

lemma do_kube_rdb: "do_kube f (s\<lparr>wd_rdb := x\<rparr>) = (do_kube f s)\<lparr>wd_rdb := x\<rparr>"
  by (simp add: do_kube_def on_kube_def case_prod_beta)

lemma clean_workers_kube:
  "wd_kube (cleanOrphanWorkers K us items (s\<lparr>wd_rdb := x\<rparr>)) = wd_kube (cleanOrphanWorkers K us items s)"
  by (induction items arbitrary: s) (simp_all add: Let_def do_kube_rdb)

text \<open>The objects after an audit: only those of owners that are not registered may differ.\<close>

lemma audit_view:
  assumes laws: "kube_laws K view"
    and diff: "view (wd_kube (snd (userAudit_Do K ord s))) k \<noteq> view (wd_kube s) k"
  obtains c where "fst k = WorkerApps" "view (wd_kube s) k = Some c"
    "owner_of_body (snd c) \<noteq> ''''" "owner_of_body (snd c) \<notin> user_ids (wd_db s)"
proof -
  obtain r1 s1 where l: "on_db loadAllUserUIDs s = (r1, s1)" by (cases "on_db loadAllUserUIDs s")
  obtain r2 s2 where q: "on_kube (k_list K WorkerApps WorkerNamespace []) s1 = (r2, s2)"
    by (cases "on_kube (k_list K WorkerApps WorkerNamespace []) s1")
  have k1: "wd_kube s1 = wd_kube s" using l by (auto simp: on_db_def split: prod.splits)
  have k2: "view (wd_kube s2) = view (wd_kube s)"
    using q k1 by (auto simp: on_kube_def split: prod.splits dest: k_list_view [OF laws])
  have dead: "\<not> (\<not> g_K8sClient (wd_globals s) \<or> \<not> g_DynamicClient (wd_globals s))"
  proof
    assume "\<not> g_K8sClient (wd_globals s) \<or> \<not> g_DynamicClient (wd_globals s)"
    then have "snd (userAudit_Do K ord s) = s" unfolding userAudit_Do_def by simp
    with diff show False by simp
  qed
  from dead diff l k1 obtain us where us: "r1 = Inr us"
    by (cases r1) (auto simp: userAudit_Do_def)
  from dead diff l us q k2 obtain items where items: "r2 = Inr items"
    by (cases r2) (auto simp: userAudit_Do_def)
  have "wd_kube (snd (userAudit_Do K ord s)) = wd_kube (cleanOrphanWorkers K us items s2)"
    using dead l q us items
    by (auto simp: userAudit_Do_def Let_def clean_workers_kube split: option.splits prod.splits)
  then obtain ob where ob: "ob \<in> set items" "k = (WorkerApps, WorkerNamespace, o_name ob)"
    "owner_of_item ob \<noteq> ''''" "owner_of_item ob \<notin> set us"
    using clean_workers_view [OF laws, of us items s2 k] diff k2 by metis
  have "view (wd_kube s) k = Some (content ob)"
    using q items k1 ob(1,2) by (auto simp: on_kube_def split: prod.splits dest: k_list_items [OF laws])
  moreover have "set us = user_ids (wd_db s)"
    using loadAllUserUIDs_all l us by (auto simp: on_db_def split: prod.splits)
  ultimately show thesis using ob by (intro that [of "content ob"]) (auto simp: content_def owner_of_item_body)
qed

section \<open>Properties\<close>

text \<open>
  C31: The page loop of the audit ends; it fails only when a query does, and otherwise its set holds
  every user and nothing else, however many pages there are.
\<close>

theorem users_all_loaded:
  "case loadAllUserUIDs d of
     (Inl e, _) \<Rightarrow> \<exists>m. Some m \<in> set (db_faults d) \<and> e = DriverErr m
   | (Inr us, _) \<Rightarrow> distinct us \<and> set us = usr_UID ` set (t_users (tab d))"
  using loadAllUserUIDs_all loadAllUserUIDs_err by (auto split: prod.splits sum.splits)



section \<open>Deploying and syncing\<close>

lemma create_app_outcome:
  assumes laws: "kube_laws K view" and "CreateWorkerAppCR K n w k = (r, k')"
  shows "view k' = (if r = None then (view k)((WorkerApps, WorkerNamespace, n) \<mapsto>
    content (worker_app n w)) else view k)"
  using assms(2)
  by (auto simp: CreateWorkerAppCR_def content_def worker_app_def new_obj_def
      split: prod.splits sum.splits
      dest!: k_get_view [OF laws] k_create_ok [OF laws] k_create_err [OF laws]
        k_update_ok [OF laws] k_update_err [OF laws])

lemma no_faults_query: "db_faults d = [] \<Longrightarrow> sql_query q d = (q (tab d), d)"
  by (simp add: sql_query_def run_stmt_def)

lemma no_faults_exec:
  "db_faults d = [] \<Longrightarrow> sql_exec (\<lambda>t. Inr ((), f t)) d = (Inr (), d\<lparr>tab := f (tab d)\<rparr>)"
  by (simp add: sql_exec_def run_stmt_def)

lemmas no_faults_ops = no_faults_query no_faults_exec DeployVersionSuccess_def in_tx_def tx_begin_def
  tx_commit_def run_stmt_def db_bind_def UpdateDeployVersionStatus_def UpdateWorkerStatus_def
  UpdateCombinatorResourceStatus_def

lemma deploy_effect:
  assumes "kube_laws K view" and "db_faults (wd_db s) = []"
    and "fst (GetDeployVersionWithWorker vid (wd_db s)) = Inr (v, w, sk)"
  shows "case deployWorker_Do K vid s of
     (None, s') \<Rightarrow>
       tab (wd_db s') = (tab (wd_db s))\<lparr>
         t_versions := update_where (\<lambda>x. v_ID x = vid) (\<lambda>x. x\<lparr>v_Status := ''success'', v_Msg := ''''\<rparr>)
           (t_versions (tab (wd_db s))),
         t_workers := update_where (\<lambda>x. w_ID x = w_ID w)
           (\<lambda>x. x\<lparr>w_ActiveVersionID := Some vid, w_Status := ''active''\<rparr>) (t_workers (tab (wd_db s)))\<rparr> \<and>
       view (wd_kube s') = (view (wd_kube s))((WorkerApps, WorkerNamespace, WorkerName (w_WID w) (w_UserUID w))
         \<mapsto> content (worker_app (WorkerName (w_WID w) (w_UserUID w))
               \<lparr>WorkerID = w_WID w, OwnerID = w_UserUID w, OwnerSK = sk, Image = v_Image v, Port = v_Port v\<rparr>))
   | (Some e, s') \<Rightarrow>
       (\<exists>e'. e = Wrap (''create CR for version '' @ dec_int vid) e' \<and>
         tab (wd_db s') = (tab (wd_db s))\<lparr>
           t_versions := update_where (\<lambda>x. v_ID x = vid) (\<lambda>x. x\<lparr>v_Status := ''error'', v_Msg := err_text e'\<rparr>)
             (t_versions (tab (wd_db s))),
           t_workers := update_where (\<lambda>x. w_WID x = w_WID w) (w_Status_update (\<lambda>_. ''error''))
             (t_workers (tab (wd_db s)))\<rparr>) \<and>
       view (wd_kube s') = view (wd_kube s)"
proof -
  define n where "n = WorkerName (w_WID w) (w_UserUID w)"
  define a where "a = \<lparr>WorkerID = w_WID w, OwnerID = w_UserUID w, OwnerSK = sk, Image = v_Image v, Port = v_Port v\<rparr>"
  have g: "on_db (GetDeployVersionWithWorker vid) s = (Inr (v, w, sk), s)"
    using assms(2,3) by (simp add: GetDeployVersionWithWorker_def no_faults_query on_db_def)
  obtain r k' where c: "CreateWorkerAppCR K n a (wd_kube s) = (r, k')"
    by (cases "CreateWorkerAppCR K n a (wd_kube s)")
  then have "on_kube (CreateWorkerAppCR K n a) s = (r, s\<lparr>wd_kube := k'\<rparr>)" by (simp add: on_kube_def)
  then show ?thesis
    using create_app_outcome [OF assms(1) c] assms(2) g
    by (cases r) (simp_all add: deployWorker_Do_def n_def [symmetric] a_def [symmetric] no_faults_ops)
qed

text \<open>
  C10: When no query fails, deploying a version ends in one of two consistent states: the version is
  successful, its worker active with it and the worker object in the cluster is the one built from
  it; or both are in error, the version with the message of the API, and no object changed.
\<close>

theorem deploy_outcome:
  assumes "kube_laws K view" and "db_faults (wd_db s) = []"
    and "fst (GetDeployVersionWithWorker vid (wd_db s)) = Inr (v, w, sk)"
  shows "case deployWorker_Do K vid s of
     (None, s') \<Rightarrow>
       tab (wd_db s') = (tab (wd_db s))\<lparr>
         t_versions := update_where (\<lambda>x. v_ID x = vid) (\<lambda>x. x\<lparr>v_Status := ''success'', v_Msg := ''''\<rparr>)
           (t_versions (tab (wd_db s))),
         t_workers := update_where (\<lambda>x. w_ID x = w_ID w)
           (\<lambda>x. x\<lparr>w_ActiveVersionID := Some vid, w_Status := ''active''\<rparr>) (t_workers (tab (wd_db s)))\<rparr> \<and>
       view (wd_kube s') = (view (wd_kube s))((WorkerApps, WorkerNamespace, WorkerName (w_WID w) (w_UserUID w))
         \<mapsto> content (worker_app (WorkerName (w_WID w) (w_UserUID w))
               \<lparr>WorkerID = w_WID w, OwnerID = w_UserUID w, OwnerSK = sk, Image = v_Image v, Port = v_Port v\<rparr>))
   | (Some e, s') \<Rightarrow>
       (\<exists>e'. e = Wrap (''create CR for version '' @ dec_int vid) e' \<and>
         tab (wd_db s') = (tab (wd_db s))\<lparr>
           t_versions := update_where (\<lambda>x. v_ID x = vid) (\<lambda>x. x\<lparr>v_Status := ''error'', v_Msg := err_text e'\<rparr>)
             (t_versions (tab (wd_db s))),
           t_workers := update_where (\<lambda>x. w_WID x = w_WID w) (w_Status_update (\<lambda>_. ''error''))
             (t_workers (tab (wd_db s)))\<rparr>) \<and>
       view (wd_kube s') = view (wd_kube s)"
  using assms by (rule deploy_effect)

lemma sync_outcome:
  assumes laws: "kube_laws K view" and "g_K8sClient (wd_globals s)" and "db_faults (wd_db s) = []"
    and r: "sync_data K kd n wid msg m s = (r, s')"
  shows "(view (wd_kube s) (kd, WorkerNamespace, n) = None \<longrightarrow>
      r = None \<and> wd_db s' = wd_db s \<and> view (wd_kube s') = view (wd_kube s)) \<and>
    (\<forall>ob k1. k_get K kd WorkerNamespace n (wd_kube s) = (Inr ob, k1) \<longrightarrow> o_name ob = n \<longrightarrow>
      t_workers (tab (wd_db s')) = update_where (\<lambda>w. w_WID w = wid)
        (w_Status_update (\<lambda>_. if r = None then ''active'' else ''error'')) (t_workers (tab (wd_db s))) \<and>
      view (wd_kube s') = (if r = None then (view (wd_kube s))((kd, WorkerNamespace, n) \<mapsto>
        (o_labels ob, o_body (with_data m ob))) else view (wd_kube s)))"
proof -
  obtain q k1 where g: "k_get K kd WorkerNamespace n (wd_kube s) = (q, k1)"
    by (cases "k_get K kd WorkerNamespace n (wd_kube s)")
  note v1 = k_get_view [OF laws g]
  show ?thesis
  proof (cases q)
    case (Inl e)
    with g v1 r assms(2) show ?thesis by (auto simp: sync_data_def on_kube_def)
  next
    case (Inr ob)
    have found: "view (wd_kube s) (kd, WorkerNamespace, n) \<noteq> None"
      using k_get_found [OF laws g [unfolded Inr]] by simp
    have nm: "o_name (with_data m ob) = o_name ob" "o_labels (with_data m ob) = o_labels ob"
      by (simp_all add: with_data_def)
    obtain p k2 where u: "k_update K kd WorkerNamespace (with_data m ob) k1 = (p, k2)"
      by (cases "k_update K kd WorkerNamespace (with_data m ob) k1")
    then have "view k2 = (if p = None then (view (wd_kube s))((kd, WorkerNamespace, o_name ob) \<mapsto>
        (o_labels ob, o_body (with_data m ob))) else view (wd_kube s))"
      using v1 nm by (auto simp: content_def dest: k_update_ok [OF laws] k_update_err [OF laws])
    with g Inr u r assms(2,3) found show ?thesis
      by (cases p) (auto simp: sync_data_def on_kube_def no_faults_ops)
  qed
qed


text \<open>
  Creating a database resource ends in the state the table reports, whatever statement or
  connection fails on the CockroachDB side: active only with the user's database and the resource's
  schema in it, otherwise in error with a message; other resources keep their rows.
\<close>

theorem create_rdb_outcome:
  assumes "db_faults (wd_db s) = []" and "wd_rdb s = Some m" and "pool_ok m"
  shows "case createRDB_Do u rid s of (r, s') \<Rightarrow>
    (\<exists>msg. t_resources (tab (wd_db s')) = update_where (is_resource u ''rdb'' rid)
       (\<lambda>x. x\<lparr>cr_Status := (if r = None then ''active'' else ''error''), cr_Msg := msg\<rparr>)
       (t_resources (tab (wd_db s)))) \<and>
    (\<exists>m'. wd_rdb s' = Some m' \<and> pool_ok m' \<and> set (c_databases (server m)) \<subseteq> set (c_databases (server m')) \<and>
       (r = None \<longrightarrow> database u \<in> set (c_databases (server m')) \<and>
          (database u, schema_name rid) \<in> set (c_schemas (server m'))))"
proof -
  obtain r1 m1 where i: "InitUserRDB u m = (r1, m1)" by (cases "InitUserRDB u m")
  have m1: "pool_ok m1" "set (rdb_names m) \<subseteq> set (rdb_names m1)"
    using keeps_poolD [OF rdb_ops_keep_pool(3) assms(3), of u] init_names [of m u] i by auto
  obtain r2 m2 where c: "CreateSchema u rid m1 = (r2, m2)" by (cases "CreateSchema u rid m1")
  have m2: "pool_ok m2" using keeps_poolD [OF rdb_ops_keep_pool(1) m1(1), of u rid] c by auto
  note ce = CreateSchema_effect [OF m1(1) c]
  have ie: "database u \<in> set (c_databases (server m1))" if "r1 = Inr ()"
    using InitUserRDB_effect [of u m "()" m1] i that by (auto simp: contents_def add_new_def)
  show ?thesis
    using assms(1,2) i c m1 m2 ce ie
    by (cases r1; cases r2)
      (auto simp: createRDB_Do_def on_rdb_def no_faults_ops do_db_def on_db_def rdb_names_def)
qed

text \<open>
  Whatever job runs, in whatever world and with whatever failures, the tables' integrity and the
  connection pool's invariant are kept.
\<close>

theorem jobs_keep_invariants:
  assumes "db_ok (wd_db s)" and "\<forall>m. wd_rdb s = Some m \<longrightarrow> pool_ok m"
  shows "db_ok (wd_db (snd (job_Do K ord j s))) \<and>
    (\<forall>m. wd_rdb (snd (job_Do K ord j s)) = Some m \<longrightarrow> pool_ok m)"
  using job_Do_ok [of s K ord j] assms by (simp add: world_ok_def)

section \<open>Examples\<close>

definition example_server :: crdb where
  "example_server = empty_server\<lparr>c_databases := [''defaultdb'', ''dbx1'', ''db_u9'']\<rparr>"

definition example_rdb :: rdb where
  "example_rdb = snd (tryGetRootDB (newRootRDBManager [] [] example_server))"

definition example_row :: worker where
  "example_row = \<lparr>w_ID = 0, w_WID = ''w1'', w_UserUID = ''u1'', w_WorkerName = ''n'', w_Status = ''loading'',
     w_ActiveVersionID = None, w_EnvJSON = Some (JObj []), w_SecretsJSON = Some (JObj []), w_CreatedAt = 0\<rparr>"

definition example_db :: db where
  "example_db = (empty_db 0 [])\<lparr>tab := empty_tables\<lparr>
     t_users := [new_user 0 ''u1'' ''a@b.c'' ''h'' ''sk'' 0],
     t_workers := [example_row],
     t_versions := [loading_version 0 0 ''img'' 8080 0]\<rparr>\<rparr>"

definition example_world :: "mem world" where
  "example_world = \<lparr>wd_globals = \<lparr>g_K8sClient = True, g_DynamicClient = True, g_Domain = ''example.com''\<rparr>,
     wd_db = example_db, wd_rdb = Some example_rdb,
     wd_kube = [((Secrets, ''worker'', ''w-w1-u1-secret''),
                   new_obj ''worker'' ''w-w1-u1-secret'' [] (Secret ''Opaque'' (Some [(''A'', ''1'')]))),
                ((WorkerApps, ''worker'', ''w9-u9''), (worker_app ''w9-u9''
                   \<lparr>WorkerID = ''w9'', OwnerID = ''u9'', OwnerSK = ''k'', Image = ''i'', Port = 1\<rparr>))],
     wd_dns = (\<lambda>_ _. None), wd_lookups = 0, wd_posts = []\<rparr>"

lemma example_rdb_up: "root_up example_rdb" "pool_ok example_rdb"
  "c_databases (server example_rdb) = [''defaultdb'', ''dbx1'', ''db_u9'']"
proof -
  show "pool_ok example_rdb"
    using keeps_poolD [OF root_keeps_pool new_pool_ok] by (simp add: example_rdb_def)
  have eq: "example_rdb = (newRootRDBManager [] [] example_server)
      \<lparr>rootDB := Some 0, handles := [(0, '''')], next_handle := 1\<rparr>"
    by (simp add: example_rdb_def tryGetRootDB_def root_check_def root_reconnect_def newRootRDBManager_def
        numeral_3_eq_3 sql_Open_def ping_def)
  show "root_up example_rdb" "c_databases (server example_rdb) = [''defaultdb'', ''dbx1'', ''db_u9'']"
    by (simp_all add: eq root_up_def newRootRDBManager_def example_server_def empty_server_def)
qed

lemma example_world_sel [simp]:
  "g_K8sClient (wd_globals example_world)" "g_DynamicClient (wd_globals example_world)"
  "wd_db example_world = example_db" "wd_rdb example_world = Some example_rdb"
  "db_faults example_db = []"
  "t_users (tab example_db) = [new_user 0 ''u1'' ''a@b.c'' ''h'' ''sk'' 0]"
  "usr_UID (new_user 0 ''u1'' ''a@b.c'' ''h'' ''sk'' 0) = ''u1''"
  by (simp_all add: example_world_def example_db_def empty_db_def new_user_def)

lemma example_db_ok: "db_ok example_db"
proof -
  have "ids tb (tab example_db) = (if tb \<in> {Users, Workers, Versions} then [0] else [])" for tb
    by (cases tb) (simp_all add: example_db_def empty_db_def empty_tables_def new_user_def loading_version_def
        example_row_def)
  then have "seq_ok example_db" by (simp add: seq_ok_def) (simp add: example_db_def empty_db_def)
  then show ?thesis
    by (simp add: db_ok_def) (simp add: example_db_def tables_ok_def empty_db_def empty_tables_def loading_version_def example_row_def)
qed



theorem deploy_outcome_witness:
  "map w_Status (t_workers (tab (wd_db (snd (deployWorker_Do mem_kube 0 example_world))))) = [''active''] \<and>
   mem_view (wd_kube (snd (deployWorker_Do mem_kube 0 example_world)))
     (WorkerApps, WorkerNamespace, WorkerName ''w1'' ''u1'') =
   Some (content (worker_app (WorkerName ''w1'' ''u1'')
     \<lparr>WorkerID = ''w1'', OwnerID = ''u1'', OwnerSK = ''sk'', Image = ''img'', Port = 8080\<rparr>))"
proof -
  have w: "w_WID example_row = ''w1''" "w_UserUID example_row = ''u1''" "w_ID example_row = 0"
    "t_workers (tab example_db) = [example_row]" "t_versions (tab example_db) = [loading_version 0 0 ''img'' 8080 0]"
    by (simp_all add: example_row_def example_db_def)
  have get: "fst (GetDeployVersionWithWorker 0 (wd_db example_world)) =
      Inr (loading_version 0 0 ''img'' 8080 0, example_row, ''sk'')"
    by (simp add: GetDeployVersionWithWorker_def no_faults_query w) (simp add: loading_version_def new_user_def)
  have ran: "fst (deployWorker_Do mem_kube 0 example_world) = None"
    using get by (simp add: deployWorker_Do_def on_db_def GetDeployVersionWithWorker_def no_faults_query w)
      (simp add: on_kube_def CreateWorkerAppCR_def mem_kube_def example_world_def WorkerName_def
        WorkerNamespace_def worker_app_def new_obj_def)
  show ?thesis
    using deploy_outcome [OF mem_laws _ get] ran w
    by (auto simp: update_where_def loading_version_def split: prod.splits)
qed


theorem create_rdb_outcome_witness:
  "\<exists>m'. wd_rdb (snd (createRDB_Do ''u1'' ''r1'' example_world)) = Some m' \<and> pool_ok m' \<and>
     ''dbx1'' \<in> set (c_databases (server m'))"
  using create_rdb_outcome [of example_world example_rdb "''u1''" "''r1''"] example_rdb_up
  by (auto split: prod.splits)

theorem jobs_keep_invariants_witness:
  "db_ok (wd_db (snd (job_Do mem_kube id (DeployWorkerJob ''w1'' ''u1'' 0) example_world)))"
  using jobs_keep_invariants [of example_world mem_kube id "DeployWorkerJob ''w1'' ''u1'' 0"]
    example_db_ok example_rdb_up(2) by simp

end
