(* ===== verification/Gateway.thy ===== *)
theory Gateway
  imports Domains JobCodec Processor
begin

text \<open>
  \<open>handlers/jobs.handler.go\<close> and what the HTTP handlers share: requests and responses, the binding
  of a JSON body, the outer gateway's state (the world, the requests it posted to the inner gateway
  and their outcomes, the mails it sent) and \<open>SendTask\<close>/\<open>AcceptTask\<close>, which carry a job from one
  gateway to the other.
\<close>

section \<open>Requests and responses\<close>

text \<open>
  \<open>q_raw\<close> is the body's bytes (\<open>None\<close> when reading fails) and \<open>q_body\<close> the JSON they denote; an absent header, parameter or
  query value is the empty string, as \<open>gin\<close> returns it.
\<close>

record request =
  q_headers :: "string \<Rightarrow> string"
  q_param :: "string \<Rightarrow> string"
  q_query :: "string \<Rightarrow> string"
  q_raw :: "string option"
  q_body :: json_text

record response =
  rs_status :: int
  rs_json :: json

definition respond :: "int \<Rightarrow> json gomap \<Rightarrow> response" where
  "respond st ms = \<lparr>rs_status = st, rs_json = JObj ms\<rparr>"

definition fails :: "int \<Rightarrow> string \<Rightarrow> response" where
  "fails st msg = respond st [(''error'', JStr msg)]"

text \<open>
  Libraries: password hashing, tokens, the validator's \<open>email\<close> rule and its error texts, and how
  the driver's times (in the server's zone) and the database's JSON columns print, and how the text of
  a time is parsed.
\<close>

record ext =
  x_bcrypt :: bcrypt
  x_jwt :: "claims jwt"
  x_is_email :: "string \<Rightarrow> bool"
  x_bind_text :: "json_text \<Rightarrow> string"
  x_time :: "int \<Rightarrow> string"
  x_parse_time :: "string \<Rightarrow> int option"
  x_json_text :: "json_text \<Rightarrow> string"

text \<open>What a request draws from \<open>crypto/rand\<close>, \<open>bcrypt\<close>'s salt and \<open>uuid.New\<close> included.\<close>

record entropy =
  en_word :: "8 word"
  en_digits :: "8 word \<times> 8 word \<times> 8 word \<times> 8 word"
  en_salt :: bytes
  en_key :: bytes
  en_id :: bytes
  en_token :: bytes
  en_uuid :: string

text \<open>Decoding into a struct: an object's members, none of them for \<open>null\<close>, otherwise an error.\<close>

definition bind_members :: "json_text \<Rightarrow> json gomap option" where
  "bind_members body =
     (case body of Some (JObj ms) \<Rightarrow> Some ms | Some JNull \<Rightarrow> Some [] | _ \<Rightarrow> None)"

text \<open>The rules \<open>required\<close> and \<open>min=n\<close> on a string; lengths count UTF-8 characters.\<close>

definition required :: "string \<Rightarrow> bool" where
  "required s \<longleftrightarrow> s \<noteq> ''''"

definition min_len :: "nat \<Rightarrow> string \<Rightarrow> bool" where
  "min_len n s \<longleftrightarrow> n \<le> rune_count s"

text \<open>A string field with its rule, a list of them, and the handler's early return.\<close>

fun bind_strs :: "(string \<times> (string \<Rightarrow> bool)) list \<Rightarrow> json gomap \<Rightarrow> string list option" where
  "bind_strs [] ms = Some []"
| "bind_strs ((f, rule) # fs) ms =
     (case field_str f ms '''' of
        None \<Rightarrow> None
      | Some v \<Rightarrow> (if rule v then map_option ((#) v) (bind_strs fs ms) else None))"

definition bind_body :: "(json gomap \<Rightarrow> 'r option) \<Rightarrow> json_text \<Rightarrow> 'r option" where
  "bind_body f body = Option.bind (bind_members body) f"

section \<open>The gateway\<close>

record mail =
  ml_From :: string
  ml_To :: "string list"
  ml_Html :: string
  ml_Subject :: string

record task_request =
  TaskType :: string
  Timestamp :: int
  Data :: "json_text option"

text \<open>
  \<open>gw_post n\<close> is the outcome of the \<open>n\<close>-th \<open>http.Post\<close> (an error, or the status of the reply),
  \<open>gw_mail n\<close> that of the \<open>n\<close>-th mail.  \<open>Data\<close> is \<open>None\<close> for no bytes, otherwise the JSON they denote.
\<close>

record 'k gateway =
  gw :: "'k world"
  gw_post :: "nat \<Rightarrow> err + int"
  gw_sent :: "(string \<times> task_request) list"
  gw_mail :: "nat \<Rightarrow> err + json"
  gw_mails :: "mail list"

type_synonym 'k handler = "'k gateway \<Rightarrow> response \<times> 'k gateway"

definition gw_db :: "'a dbop \<Rightarrow> 'k gateway \<Rightarrow> (err + 'a) \<times> 'k gateway" where
  "gw_db op g = (case on_db op (gw g) of (r, s) \<Rightarrow> (r, g\<lparr>gw := s\<rparr>))"

definition with_body :: "ext \<Rightarrow> (json gomap \<Rightarrow> 'r option) \<Rightarrow> request \<Rightarrow> ('r \<Rightarrow> 'k handler) \<Rightarrow> 'k handler" where
  "with_body x f q h g =
     (case bind_body f (q_body q) of
        None \<Rightarrow> (fails 400 (x_bind_text x (q_body q)), g)
      | Some r \<Rightarrow> h r g)"

definition ControlPlaneInnerEndpoint :: string where
  "ControlPlaneInnerEndpoint = ''http://control-plane-inner.console.svc.cluster.local:9901''"

text \<open>Times are nanoseconds; \<open>Unix()\<close> is in seconds.\<close>

definition unix :: "int \<Rightarrow> int" where
  "unix now = now div 1000000000"

definition task_of :: "int \<Rightarrow> job \<Rightarrow> task_request" where
  "task_of now j = \<lparr>TaskType = job_type j, Timestamp = unix now, Data = Some (Some (marshal_job j))\<rparr>"

definition SendTask :: "int \<Rightarrow> job \<Rightarrow> 'k gateway \<Rightarrow> err option \<times> 'k gateway" where
  "SendTask now j g =
     (let g' = g\<lparr>gw_sent := gw_sent g @ [(ControlPlaneInnerEndpoint @ ''/api/acceptTask'', task_of now j)]\<rparr>
      in case gw_post g (length (gw_sent g)) of
           Inl e \<Rightarrow> (Some (Wrap ''failed to send task'' e), g')
         | Inr st \<Rightarrow> if st \<noteq> 200 then (Some (Errorf (''task rejected with status: '' @ dec_int st)), g')
                    else (None, g'))"

section \<open>Accepting a task\<close>

text \<open>
  The body as decoded (\<open>Inl\<close> with the error's text) and the rules \<open>required\<close> of its fields;
  \<open>txt\<close> is the validator's text.
\<close>

definition bind_task :: "string \<Rightarrow> string + task_request \<Rightarrow> string + task_request" where
  "bind_task txt b =
     (case b of
        Inl m \<Rightarrow> Inl m
      | Inr r \<Rightarrow>
          if TaskType r = '''' \<or> Timestamp r = 0 \<or> Data r = None
          then Inl txt else Inr r)"

text \<open>
  Submitting to a closed queue panics; the router's recovery answers 500.  A nil job is submitted
  like any other.
\<close>

definition AcceptTask :: "string \<Rightarrow> int \<Rightarrow> string + task_request \<Rightarrow> job option processor \<Rightarrow>
    response \<times> job option processor" where
  "AcceptTask txt now b p =
     (case bind_task txt b of
        Inl m \<Rightarrow> (fails 400 m, p)
      | Inr r \<Rightarrow>
          if Timestamp r \<le> 0 then (fails 400 ''invalid timestamp'', p)
          else case CreateJob (TaskType r) (case Data r of None \<Rightarrow> None | Some t \<Rightarrow> t) of
            Inl e \<Rightarrow> (fails 400 (''failed to deserialize job: '' @ err_text e), p)
          | Inr job \<Rightarrow>
              (case Submit job p of
                 None \<Rightarrow> (\<lparr>rs_status = 500, rs_json = JNull\<rparr>, p)
               | Some p' \<Rightarrow>
                   (respond 200 [(''message'', JStr ''task accepted''), (''received_at'', JNum (unix now)),
                      (''task_type'', JStr (TaskType r)), (''timestamp'', JNum (Timestamp r))], p')))"

section \<open>Health\<close>

text \<open>\<open>db\<close> is \<open>None\<close> for a nil database, otherwise the error of its ping, if any.\<close>

definition health_db :: "int \<Rightarrow> err option option \<Rightarrow> int \<times> json gomap" where
  "health_db now db =
     (case db of
        None \<Rightarrow> (200, [(''database'', JStr ''not_initialized''), (''status'', JStr ''ok''),
                      (''timestamp'', JNum (unix now))])
      | Some (Some e) \<Rightarrow> (503, [(''database'', JStr ''unhealthy''), (''database_error'', JStr (err_text e)),
                      (''status'', JStr ''ok''), (''timestamp'', JNum (unix now))])
      | Some None \<Rightarrow> (200, [(''database'', JStr ''healthy''), (''status'', JStr ''ok''),
                      (''timestamp'', JNum (unix now))]))"

definition HealthOuter :: "int \<Rightarrow> err option option \<Rightarrow> response" where
  "HealthOuter now db = (case health_db now db of (st, ms) \<Rightarrow> respond st ms)"

definition HealthInner :: "int \<Rightarrow> err option option \<Rightarrow> bool \<Rightarrow> response" where
  "HealthInner now db k8s =
     (case health_db now db of
        (st, ms) \<Rightarrow> if st = 503 then respond st ms
                     else respond st (map_put ''kubernetes''
                            (JStr (if k8s then ''healthy'' else ''not_initialized'')) ms))"

section \<open>What the shared operations keep\<close>

lemma SendTask_frame:
  "SendTask now j g = (r, g') \<Longrightarrow> gw g' = gw g \<and> gw_mails g' = gw_mails g \<and>
     gw_sent g' = gw_sent g @ [(ControlPlaneInnerEndpoint @ ''/api/acceptTask'', task_of now j)]"
  by (auto simp: SendTask_def Let_def split: sum.splits if_splits)

lemma gw_db_sel:
  "gw_db op g = (r, g') \<Longrightarrow> gw_sent g' = gw_sent g \<and> gw_mails g' = gw_mails g \<and> gw_post g' = gw_post g"
  by (auto simp: gw_db_def on_db_def split: prod.splits)

lemma gw_db_run:
  "gw_db op g = (r, g') \<Longrightarrow> op (wd_db (gw g)) = (r, wd_db (gw g'))"
  by (auto simp: gw_db_def on_db_def split: prod.splits)

section \<open>Properties\<close>



end
