(* ===== verification/AuthApi.thy ===== *)
theory AuthApi
  imports Gateway
begin

text \<open>
  \<open>handlers/auth.handler.go\<close>: registration, login, verification codes, password reset and the two
  middlewares.  A request reads the clock once (\<open>now\<close>).
\<close>

definition SPECIAL_CODE :: string where
  "SPECIAL_CODE = ''701213''"

section \<open>Registration and login\<close>

definition token_text :: "err + string \<Rightarrow> string" where
  "token_text r = (case r of Inl _ \<Rightarrow> '''' | Inr t \<Rightarrow> t)"

text \<open>The check of the code: a response that ends the request, or the code's id.\<close>

definition register_code :: "int \<Rightarrow> string \<Rightarrow> string \<Rightarrow> 'k gateway \<Rightarrow> (response + int) \<times> 'k gateway" where
  "register_code now email code g =
     (if code = SPECIAL_CODE then (Inr 0, g)
      else case gw_db (GetVerificationCode email code) g of
        (Inl e, g1) \<Rightarrow> (Inl (fails 400 (''invalid code: '' @ err_text e)), g1)
      | (Inr (i, expiresAt), g1) \<Rightarrow>
          if expiresAt < now then (Inl (fails 400 ''code expired''), g1) else (Inr i, g1))"

definition register_user :: "ext \<Rightarrow> int \<Rightarrow> entropy \<Rightarrow> string \<Rightarrow> string \<Rightarrow> string \<Rightarrow> int \<Rightarrow> 'k handler" where
  "register_user x now rn email password code codeID g =
     (case HashPassword (x_bcrypt x) password (en_salt rn) of
        Inl e \<Rightarrow> (fails 500 (''failed to hash password: '' @ err_text e), g)
      | Inr hash \<Rightarrow>
          let secretKey = GenerateSecretKey (en_key rn) in
          case gw_db (CreateUser (GenerateUID email (en_word rn) (en_digits rn)) email hash secretKey) g of
            (Inl e, g1) \<Rightarrow> (fails 400 (''email already exists: '' @ err_text e), g1)
          | (Inr userUID, g1) \<Rightarrow>
              let g2 = (if code \<noteq> SPECIAL_CODE then snd (gw_db (MarkCodeUsed codeID) g1) else g1) in
              case SendTask now (NewRegisterUserJob userUID) g2 of
                (Some e, g3) \<Rightarrow> (fails 500 ''failed to enqueue registration task'', g3)
              | (None, g3) \<Rightarrow>
                  (respond 200 [(''email'', JStr email), (''secret_key'', JStr secretKey),
                     (''token'', JStr (token_text (GenerateToken (x_jwt x) userUID email now))),
                     (''user_id'', JStr userUID)], g3))"

definition bind_register :: "json gomap \<Rightarrow> string list option" where
  "bind_register = bind_strs [(''email'', required), (''password'', \<lambda>s. required s \<and> min_len 2 s),
     (''code'', required)]"

definition Register :: "ext \<Rightarrow> int \<Rightarrow> entropy \<Rightarrow> request \<Rightarrow> 'k handler" where
  "Register x now rn q = with_body x bind_register q (\<lambda>r g.
     case r of [email, password, code] \<Rightarrow>
       (case register_code now email code g of
          (Inl resp, g1) \<Rightarrow> (resp, g1)
        | (Inr codeID, g1) \<Rightarrow> register_user x now rn email password code codeID g1))"

definition Login :: "ext \<Rightarrow> int \<Rightarrow> request \<Rightarrow> 'k handler" where
  "Login x now q = with_body x (bind_strs [(''email'', required), (''password'', required)]) q (\<lambda>r g.
     case r of [email, password] \<Rightarrow>
       (case gw_db (GetUserByEmail email) g of
          (Inl _, g1) \<Rightarrow> (fails 401 ''invalid credentials'', g1)
        | (Inr u, g1) \<Rightarrow>
            if \<not> CheckPassword (x_bcrypt x) password (usr_PasswordHash u)
            then (fails 401 ''invalid credentials'', g1)
            else (respond 200
                    [(''token'', JStr (token_text (GenerateToken (x_jwt x) (usr_UID u) (usr_Email u) now))),
                     (''user_id'', JStr (usr_UID u))], g1)))"

section \<open>Middlewares\<close>

text \<open>The next handler gets the user id the middleware stores in the context.\<close>

definition AuthMiddleware :: "ext \<Rightarrow> int \<Rightarrow> (string \<Rightarrow> request \<Rightarrow> 'k handler) \<Rightarrow> request \<Rightarrow> 'k handler" where
  "AuthMiddleware x now h q g =
     (let auth = q_headers q ''Authorization'' in
      if auth = '''' \<or> \<not> has_prefix ''Bearer '' auth then (fails 401 ''unauthorized'', g)
      else case ValidateToken (x_jwt x) now (trim_prefix ''Bearer '' auth) of
        Inl _ \<Rightarrow> (fails 401 ''invalid token'', g)
      | Inr userID \<Rightarrow> h userID q g)"

definition SignatureMiddleware :: "(string \<Rightarrow> request \<Rightarrow> 'k handler) \<Rightarrow> request \<Rightarrow> 'k handler" where
  "SignatureMiddleware h q g =
     (let signature = q_headers q ''X-Combinator-Signature'';
          userID = q_headers q ''X-Combinator-User-ID'';
          timestamp = q_headers q ''X-Combinator-Timestamp''
      in if signature = '''' then (fails 401 ''signature required'', g)
         else if userID = '''' then (fails 401 ''user_id required'', g)
         else if timestamp = '''' then (fails 401 ''timestamp required'', g)
         else case gw_db (GetUserSecretKey userID) g of
           (Inl _, g1) \<Rightarrow> (fails 401 ''invalid user'', g1)
         | (Inr secretKey, g1) \<Rightarrow>
             (case q_raw q of
                None \<Rightarrow> (fails 400 ''failed to read body'', g1)
              | Some body \<Rightarrow>
                  (case VerifyHMACSignature secretKey (body @ timestamp) signature of
                     Some _ \<Rightarrow> (fails 401 ''invalid signature'', g1)
                   | None \<Rightarrow> h userID q g1)))"

section \<open>Codes and passwords\<close>

definition code_mail :: "string \<Rightarrow> string \<Rightarrow> mail" where
  "code_mail email code = \<lparr>ml_From = ''Combinator <combinator@enzyme.cloud>'', ml_To = [email],
     ml_Html = ''<strong>Your verification code is: '' @ code @ ''</strong>'',
     ml_Subject = code @ '' is your verification code for Combinator Console''\<rparr>"

definition send_mail :: "mail \<Rightarrow> 'k gateway \<Rightarrow> (err + json) \<times> 'k gateway" where
  "send_mail m g = (gw_mail g (length (gw_mails g)), g\<lparr>gw_mails := gw_mails g @ [m]\<rparr>)"

definition SendCode :: "ext \<Rightarrow> int \<Rightarrow> request \<Rightarrow> 'k handler" where
  "SendCode x now q = with_body x (bind_strs [(''email'', \<lambda>s. required s \<and> x_is_email x s)]) q (\<lambda>r g.
     case r of [email] \<Rightarrow>
       (let code = GenerateCode now; expiresAt = now + 10 * 60 * 1000000000 in
        case send_mail (code_mail email code) g of
          (Inl e, g1) \<Rightarrow> (fails 500 (''failed to send email, '' @ err_text e), g1)
        | (Inr sent, g1) \<Rightarrow>
            (case gw_db (SaveVerificationCode email code expiresAt) g1 of
               (Inl _, g2) \<Rightarrow> (fails 500 ''failed to save code'', g2)
             | (Inr _, g2) \<Rightarrow>
                 (respond 200 [(''code'', JStr code), (''message'', JStr ''code sent''), (''misc'', sent)], g2))))"

definition ResetPassword :: "ext \<Rightarrow> int \<Rightarrow> entropy \<Rightarrow> request \<Rightarrow> 'k handler" where
  "ResetPassword x now rn q = with_body x
     (bind_strs [(''email'', \<lambda>s. required s \<and> x_is_email x s), (''code'', required),
        (''new_password'', \<lambda>s. required s \<and> min_len 8 s)]) q (\<lambda>r g.
     case r of [email, code, newPassword] \<Rightarrow>
       (case gw_db (GetVerificationCode email code) g of
          (Inl _, g1) \<Rightarrow> (fails 400 ''invalid code'', g1)
        | (Inr (codeID, expiresAt), g1) \<Rightarrow>
            if expiresAt < now then (fails 400 ''code expired'', g1)
            else case HashPassword (x_bcrypt x) newPassword (en_salt rn) of
              Inl _ \<Rightarrow> (fails 500 ''failed to hash password'', g1)
            | Inr hash \<Rightarrow>
                (case gw_db (UpdateUserPassword email hash) g1 of
                   (Inl _, g2) \<Rightarrow> (fails 500 ''failed to update password'', g2)
                 | (Inr _, g2) \<Rightarrow>
                     (respond 200 [(''message'', JStr ''password reset successfully'')],
                      snd (gw_db (MarkCodeUsed codeID) g2)))))"

lemma bind_strs_length: "bind_strs fs ms = Some vs \<Longrightarrow> length vs = length fs"
  by (induction fs ms arbitrary: vs rule: bind_strs.induct) (auto split: option.splits if_splits)

lemma bind_body_strs_length: "bind_body (bind_strs fs) b = Some vs \<Longrightarrow> length vs = length fs"
  by (auto simp: bind_body_def bind_eq_Some_conv simp del: bind_strs.simps dest: bind_strs_length)

lemma with_body_cases:
  obtains "with_body x f q h g = (fails 400 (x_bind_text x (q_body q)), g)"
  | r where "bind_body f (q_body q) = Some r" "with_body x f q h g = h r g"
  by (cases "bind_body f (q_body q)") (auto simp: with_body_def)

section \<open>What the steps leave\<close>

abbreviation gw_tab :: "'k gateway \<Rightarrow> tables" where
  "gw_tab g \<equiv> tab (wd_db (gw g))"

lemma register_code_cases:
  assumes "register_code now email code g = (r, g1)"
  shows "gw_tab g1 = gw_tab g \<and> gw_sent g1 = gw_sent g \<and>
    (\<forall>i. r = Inr i \<longrightarrow> code = SPECIAL_CODE \<or> (\<exists>c \<in> set (t_codes (gw_tab g)). vc_Email c = email \<and>
       vc_Code c = code \<and> \<not> vc_Used c \<and> now \<le> vc_ExpiresAt c \<and> vc_ID c = i)) \<and>
    (\<forall>resp. r = Inl resp \<longrightarrow> rs_status resp = 400)"
proof (cases "code = SPECIAL_CODE")
  case True
  with assms show ?thesis by (auto simp: register_code_def)
next
  case False
  obtain v g2 where v: "gw_db (GetVerificationCode email code) g = (v, g2)"
    by (cases "gw_db (GetVerificationCode email code) g")
  have facts: "gw_tab g2 = gw_tab g" "gw_sent g2 = gw_sent g"
    using GetVerificationCode_tab [OF gw_db_run [OF v]] gw_db_sel [OF v] by auto
  have found: "\<exists>c \<in> set (t_codes (gw_tab g)). vc_Email c = email \<and> vc_Code c = code \<and>
      \<not> vc_Used c \<and> vc_ExpiresAt c = ex \<and> vc_ID c = i" if "v = Inr (i, ex)" for i ex
    using GetVerificationCode_ok [OF gw_db_run [OF v, unfolded that]] by blast
  show ?thesis
  proof (cases v)
    case (Inl e)
    with assms v False facts(1,2) show ?thesis by (auto simp: register_code_def fails_def respond_def)
  next
    case (Inr p)
    obtain i ex where p: "p = (i, ex)" by (cases p)
    with Inr found obtain c where "c \<in> set (t_codes (gw_tab g))" "vc_Email c = email" "vc_Code c = code"
      "\<not> vc_Used c" "vc_ExpiresAt c = ex" "vc_ID c = i" by blast
    with assms v False Inr p facts(1,2) show ?thesis
      by (cases "ex < now") (auto simp: register_code_def fails_def respond_def)
  qed
qed

lemma register_user_cases:
  assumes "register_user x now rn email password code i g = (r, g')"
  obtains "rs_status r \<in> {400, 500}" "t_users (gw_tab g') = t_users (gw_tab g)" "gw_sent g' = gw_sent g"
  | hash uid n t where "rs_status r \<in> {200, 500}" "\<forall>u \<in> set (t_users (gw_tab g)). usr_Email u \<noteq> email"
    "uid = GenerateUID email (en_word rn) (en_digits rn)"
    "bc_generate (x_bcrypt x) password 12 (en_salt rn) = Inr hash"
    "t_users (gw_tab g') = t_users (gw_tab g) @ [new_user n uid email hash (GenerateSecretKey (en_key rn)) t]"
    "gw_sent g' = gw_sent g @ [(ControlPlaneInnerEndpoint @ ''/api/acceptTask'', task_of now (RegisterUserJob uid))]"
proof -
  let ?uid = "GenerateUID email (en_word rn) (en_digits rn)"
  let ?sk = "GenerateSecretKey (en_key rn)"
  show thesis
  proof (cases "HashPassword (x_bcrypt x) password (en_salt rn)")
    case (Inl e)
    with assms that(1) show ?thesis by (auto simp: register_user_def fails_def respond_def)
  next
    case (Inr hash)
    obtain v g1 where c: "gw_db (CreateUser ?uid email hash ?sk) g = (v, g1)"
      by (cases "gw_db (CreateUser ?uid email hash ?sk) g")
    note run = gw_db_run [OF c] and sel = gw_db_sel [OF c]
    show ?thesis
    proof (cases v)
      case (Inl e)
      with assms Inr c run sel show ?thesis
        by (intro that(1)) (auto simp: register_user_def fails_def respond_def Let_def dest: CreateUser_err)
    next
      case (Inr uid)
      from CreateUser_ok [OF run [unfolded Inr]] obtain t where u: "uid = ?uid"
        "\<forall>u \<in> set (t_users (gw_tab g)). usr_Email u \<noteq> email"
        "t_users (gw_tab g1) = t_users (gw_tab g) @ [new_user (db_seq (wd_db (gw g)) Users) ?uid email hash ?sk t]"
        by auto
      define g2 where "g2 = (if code \<noteq> SPECIAL_CODE then snd (gw_db (MarkCodeUsed i) g1) else g1)"
      obtain m g1' where mk: "gw_db (MarkCodeUsed i) g1 = (m, g1')" by (cases "gw_db (MarkCodeUsed i) g1")
      have g2: "t_users (gw_tab g2) = t_users (gw_tab g1)" "gw_sent g2 = gw_sent g"
        using MarkCodeUsed_users [OF gw_db_run [OF mk]] gw_db_sel [OF mk] sel mk by (auto simp: g2_def)
      obtain w g3 where s: "SendTask now (RegisterUserJob ?uid) g2 = (w, g3)"
        by (cases "SendTask now (RegisterUserJob ?uid) g2")
      have "g' = g3 \<and> rs_status r \<in> {200, 500}"
        using assms \<open>HashPassword (x_bcrypt x) password (en_salt rn) = Inr hash\<close> c Inr u(1) s
        by (cases w) (auto simp: register_user_def Let_def g2_def [symmetric] fails_def respond_def)
      with u g2 SendTask_frame [OF s] \<open>HashPassword (x_bcrypt x) password (en_salt rn) = Inr hash\<close>
      show ?thesis by (intro that(2) [of ?uid hash]) (auto simp: HashPassword_def)
    qed
  qed
qed

lemma gw_query: "db_faults (wd_db (gw g)) = [] \<Longrightarrow> gw_db (sql_query q) g = (q (gw_tab g), g)"
  by (simp add: gw_db_def on_db_def sql_query_def run_stmt_def)

lemma first_row_last: "\<forall>y \<in> set ys. \<not> p y \<Longrightarrow> p x \<Longrightarrow> first_row p (ys @ [x]) = Inr x"
  by (induction ys) (auto simp: first_row_def)

lemma code_nonempty: "GenerateCode now \<noteq> ''''"
  by (auto simp: GenerateCode_def pad0_def)

definition with_tab :: "(tables \<Rightarrow> tables) \<Rightarrow> 'k gateway \<Rightarrow> 'k gateway" where
  "with_tab f g = g\<lparr>gw := (gw g)\<lparr>wd_db := (wd_db (gw g))\<lparr>tab := f (gw_tab g)\<rparr>\<rparr>\<rparr>"

lemma gw_exec:
  "db_faults (wd_db (gw g)) = [] \<Longrightarrow> gw_db (sql_exec (\<lambda>t. Inr ((), f t))) g = (Inr (), with_tab f g)"
  by (simp add: gw_db_def on_db_def sql_exec_def run_stmt_def with_tab_def)

section \<open>Properties\<close>




text \<open>
  C18: A signed request reaches its handler exactly when the user it names has a key and the
  signature is the one of that key over the body and the timestamp header, when no query fails; the
  timestamp is only hashed, never compared with the clock, so a recorded request stays valid for ever.
\<close>

theorem signature_gate:
  assumes "db_ok (wd_db (gw g))" and "db_faults (wd_db (gw g)) = []"
    and "q_headers q ''X-Combinator-User-ID'' = uid" and "q_headers q ''X-Combinator-Timestamp'' = ts"
    and "q_headers q ''X-Combinator-Signature'' = sig" and "q_raw q = Some body"
  shows "SignatureMiddleware h q g =
    (if sig \<noteq> '''' \<and> uid \<noteq> '''' \<and> ts \<noteq> '''' \<and> (\<exists>u \<in> set (t_users (gw_tab g)). usr_UID u = uid \<and>
          sig = GenerateHMACSignature (usr_SecretKey u) (body @ ts))
     then h uid q g
     else (fails 401 (if sig = '''' then ''signature required'' else if uid = '''' then ''user_id required''
             else if ts = '''' then ''timestamp required''
             else if \<exists>u \<in> set (t_users (gw_tab g)). usr_UID u = uid then ''invalid signature''
             else ''invalid user''), g))"
proof (cases "\<exists>u \<in> set (t_users (gw_tab g)). usr_UID u = uid")
  case False
  then have "first_row (\<lambda>u. usr_UID u = uid) (t_users (gw_tab g)) = Inl NoRows" by (auto simp: first_row_err)
  then have "gw_db (GetUserSecretKey uid) g = (Inl NoRows, g)"
    using assms(2) by (simp add: GetUserSecretKey_def gw_query)
  with False assms(3-6) show ?thesis by (auto simp: SignatureMiddleware_def)
next
  case True
  then obtain u where u: "u \<in> set (t_users (gw_tab g))" "usr_UID u = uid" by auto
  have uniq: "v = u" if "v \<in> set (t_users (gw_tab g))" "usr_UID v = uid" for v
    using that u assms(1) by (auto simp: db_ok_def tables_ok_def distinct_map dest: inj_onD)
  have "first_row (\<lambda>u. usr_UID u = uid) (t_users (gw_tab g)) = Inr u"
    using assms(1) u by (intro first_row_unique [where k = usr_UID]) (auto simp: db_ok_def tables_ok_def)
  then have key: "gw_db (GetUserSecretKey uid) g = (Inr (usr_SecretKey u), g)"
    using assms(2) by (simp add: GetUserSecretKey_def gw_query)
  have "(\<exists>v \<in> set (t_users (gw_tab g)). usr_UID v = uid \<and>
      sig = GenerateHMACSignature (usr_SecretKey v) (body @ ts)) \<longleftrightarrow>
      sig = GenerateHMACSignature (usr_SecretKey u) (body @ ts)"
    using u uniq by blast
  with True assms(3-6) key show ?thesis
    by (auto simp: SignatureMiddleware_def VerifyHMACSignature_def)
qed

section \<open>Examples\<close>

definition example_ext :: ext where
  "example_ext = \<lparr>x_bcrypt = \<lparr>bc_generate = (\<lambda>pw c salt. Inr pw), bc_compare = (=)\<rparr>, x_jwt = toy_jwt,
     x_is_email = (\<lambda>s. True), x_bind_text = (\<lambda>_. ''''), x_time = (\<lambda>_. ''''),
     x_parse_time = (\<lambda>_. Some 0), x_json_text = (\<lambda>_. '''')\<rparr>"

lemma example_ext_sel [simp]:
  "x_is_email example_ext e" "bc_generate (x_bcrypt example_ext) pw c salt = Inr pw"
  "bc_compare (x_bcrypt example_ext) h pw \<longleftrightarrow> h = pw"
  by (simp_all add: example_ext_def)

definition example_entropy :: entropy where
  "example_entropy = \<lparr>en_word = 0, en_digits = (0, 0, 0, 0), en_salt = [], en_key = replicate 24 0,
     en_id = replicate 8 0, en_token = replicate 16 0, en_uuid = ''00000000-0000''\<rparr>"

definition json_request :: "json gomap \<Rightarrow> request" where
  "json_request ms = \<lparr>q_headers = (\<lambda>_. ''''), q_param = (\<lambda>_. ''''), q_query = (\<lambda>_. ''''), q_raw = Some '''',
     q_body = Some (JObj ms)\<rparr>"

lemma json_request_body [simp]: "q_body (json_request ms) = Some (JObj ms)"
  by (simp add: json_request_def)

definition example_gateway :: "mem gateway" where
  "example_gateway = \<lparr>gw = outer_world, gw_post = (\<lambda>_. Inr 200), gw_sent = [], gw_mail = (\<lambda>_. Inr JNull),
     gw_mails = []\<rparr>"

lemma example_gateway_sel [simp]:
  "gw example_gateway = outer_world" "gw_post example_gateway n = Inr 200" "gw_sent example_gateway = []"
  "gw_mail example_gateway n = Inr JNull" "gw_mails example_gateway = []"
  "db_faults (wd_db outer_world) = []" "t_users (tab (wd_db outer_world)) = []"
  "t_codes (tab (wd_db outer_world)) = []"
  by (simp_all add: example_gateway_def outer_world_def empty_db_def empty_tables_def)

definition example_user_gateway :: "mem gateway" where
  "example_user_gateway = with_tab (\<lambda>t. empty_tables\<lparr>t_users := [new_user 0 ''u1'' ''a@b.c'' ''pw'' ''sk'' 0]\<rparr>)
     example_gateway"

lemma example_user_gateway_sel [simp]:
  "db_faults (wd_db (gw example_user_gateway)) = []"
  "gw_tab example_user_gateway = empty_tables\<lparr>t_users := [new_user 0 ''u1'' ''a@b.c'' ''pw'' ''sk'' 0]\<rparr>"
  "gw_mail example_user_gateway n = Inr JNull" "gw_mails example_user_gateway = []"
  by (simp_all add: example_user_gateway_def with_tab_def)

lemma example_user_gateway_ok: "db_ok (wd_db (gw example_user_gateway))"
proof -
  have "ids tb (gw_tab example_user_gateway) = (if tb = Users then [0] else [])" for tb
    by (cases tb) (simp_all add: empty_tables_def new_user_def)
  then have "seq_ok (wd_db (gw example_user_gateway))"
    by (simp add: seq_ok_def del: example_user_gateway_sel)
      (simp add: example_user_gateway_def with_tab_def outer_world_def empty_db_def)
  then show ?thesis by (simp add: db_ok_def tables_ok_def empty_tables_def)
qed




theorem signature_gate_witness:
  "rs_status (fst (SignatureMiddleware (\<lambda>u q g. (respond 200 [], g)) \<lparr>q_headers = (\<lambda>n.
      if n = ''X-Combinator-User-ID'' then ''u1'' else if n = ''X-Combinator-Timestamp'' then ''1''
      else if n = ''X-Combinator-Signature'' then GenerateHMACSignature ''sk'' (''body'' @ ''1'') else ''''),
      q_param = (\<lambda>_. ''''), q_query = (\<lambda>_. ''''), q_raw = Some ''body'', q_body = None\<rparr>
    example_user_gateway)) = 200"
proof -
  let ?q = "\<lparr>q_headers = (\<lambda>n.
      if n = ''X-Combinator-User-ID'' then ''u1'' else if n = ''X-Combinator-Timestamp'' then ''1''
      else if n = ''X-Combinator-Signature'' then GenerateHMACSignature ''sk'' (''body'' @ ''1'') else ''''),
      q_param = (\<lambda>_. ''''), q_query = (\<lambda>_. ''''), q_raw = Some ''body'', q_body = None\<rparr>"
  have "GenerateHMACSignature ''sk'' (''body'' @ ''1'') \<noteq> ''''"
    using signature_length [of "''sk''" "''body'' @ ''1''"] by auto
  then show ?thesis
    using signature_gate [OF example_user_gateway_ok, of ?q "''u1''" "''1''"
        "GenerateHMACSignature ''sk'' (''body'' @ ''1'')" "''body''"]
    by (simp add: empty_tables_def new_user_def respond_def)
qed

end
