(* ===== verification/WorkerApi.thy ===== *)
theory WorkerApi
  imports AuthApi JobProps
begin

text \<open>
  \<open>handlers/worker.handler.go\<close>: the workers of a user.  \<open>uid\<close> is the user id a middleware stored in
  the context.
\<close>

definition workerURL :: "string \<Rightarrow> string \<Rightarrow> string \<Rightarrow> string" where
  "workerURL domain workerID userUID = ''https://'' @ WorkerName workerID userUID @ ''.worker.'' @ domain"

definition g_domain :: "'k gateway \<Rightarrow> string" where
  "g_domain g = g_Domain (wd_globals (gw g))"

section \<open>JSON of the rows\<close>

definition json_version :: "int option \<Rightarrow> json" where
  "json_version v = (case v of None \<Rightarrow> JNull | Some i \<Rightarrow> JNum i)"

definition worker_item :: "string \<Rightarrow> worker \<Rightarrow> json" where
  "worker_item domain w = JObj
     [(''active_version_id'', json_version (w_ActiveVersionID w)), (''status'', JStr (w_Status w)),
      (''url'', JStr (workerURL domain (w_WID w) (w_UserUID w))), (''worker_id'', JStr (w_WID w)),
      (''worker_name'', JStr (w_WorkerName w))]"

definition worker_json :: "ext \<Rightarrow> worker \<Rightarrow> json" where
  "worker_json x w = JObj
     [(''id'', JNum (w_ID w)), (''worker_id'', JStr (w_WID w)), (''user_uid'', JStr (w_UserUID w)),
      (''worker_name'', JStr (w_WorkerName w)), (''status'', JStr (w_Status w)),
      (''active_version_id'', json_version (w_ActiveVersionID w)),
      (''env_json'', JStr (x_json_text x (w_EnvJSON w))),
      (''secrets_json'', JStr (x_json_text x (w_SecretsJSON w))),
      (''created_at'', JStr (x_time x (w_CreatedAt w)))]"

definition version_json :: "ext \<Rightarrow> worker_deploy_version \<Rightarrow> json" where
  "version_json x v = JObj
     [(''id'', JNum (v_ID v)), (''worker_id'', JNum (v_WorkerID v)), (''image'', JStr (v_Image v)),
      (''port'', JNum (v_Port v)), (''status'', JStr (v_Status v)), (''msg'', JStr (v_Msg v)),
      (''created_at'', JStr (x_time x (v_CreatedAt v)))]"

text \<open>A nil slice is \<open>null\<close>: the listing has appended no row.\<close>

definition json_slice :: "('r \<Rightarrow> json) \<Rightarrow> 'r list \<Rightarrow> json" where
  "json_slice f rs = (if rs = [] then JNull else JArr (map f rs))"

section \<open>Handlers\<close>

definition WorkerHandler_CreateWorker :: "ext \<Rightarrow> entropy \<Rightarrow> string \<Rightarrow> request \<Rightarrow> 'k handler" where
  "WorkerHandler_CreateWorker x rn uid q = with_body x (bind_strs [(''worker_name'', required)]) q (\<lambda>r g.
     case r of [name] \<Rightarrow>
       (let workerID = take 8 (en_uuid rn) in
        case gw_db (CreateWorker workerID uid name) g of
          (Inl _, g1) \<Rightarrow> (fails 500 ''failed to create worker'', g1)
        | (Inr _, g1) \<Rightarrow> (respond 200 [(''worker_id'', JStr workerID), (''worker_name'', JStr name)], g1)))"

text \<open>The error of the task is only logged.\<close>

definition WorkerHandler_DeleteWorker :: "int \<Rightarrow> string \<Rightarrow> request \<Rightarrow> 'k handler" where
  "WorkerHandler_DeleteWorker now uid q g =
     (let workerID = q_param q ''id'';
          g1 = snd (SendTask now (NewDeleteWorkerCRJob workerID uid) g)
      in case gw_db (DeleteWorkerByOwner workerID uid) g1 of
           (Inl e, g2) \<Rightarrow> (if e = ErrNotFound then fails 404 ''worker not found''
                          else fails 500 ''failed to delete worker'', g2)
         | (Inr _, g2) \<Rightarrow> (respond 200 [(''message'', JStr ''worker deleted'')], g2))"

definition WorkerHandler_ListWorkers :: "string \<Rightarrow> request \<Rightarrow> 'k handler" where
  "WorkerHandler_ListWorkers uid q g =
     (case gw_db (ListWorkersByUser uid) g of
        (Inl _, g1) \<Rightarrow> (fails 500 ''failed to list workers'', g1)
      | (Inr ws, g1) \<Rightarrow> (\<lparr>rs_status = 200, rs_json = JArr (map (worker_item (g_domain g1)) ws)\<rparr>, g1))"

definition query_offset :: "request \<Rightarrow> nat" where
  "query_offset q =
     (let v = q_query q ''offset'' in
      if v = '''' then 0 else case atoi v of None \<Rightarrow> 0 | Some n \<Rightarrow> if 0 \<le> n then nat n else 0)"

definition WorkerHandler_GetWorker :: "ext \<Rightarrow> string \<Rightarrow> request \<Rightarrow> 'k handler" where
  "WorkerHandler_GetWorker x uid q g =
     (case gw_db (GetWorkerByOwner (q_param q ''id'') uid) g of
        (Inl _, g1) \<Rightarrow> (fails 404 ''worker not found'', g1)
      | (Inr w, g1) \<Rightarrow>
          (case gw_db (ListDeployVersions (w_ID w) 10 (query_offset q)) g1 of
             (Inl _, g2) \<Rightarrow> (fails 500 ''failed to list versions'', g2)
           | (Inr vs, g2) \<Rightarrow>
               (respond 200 [(''url'', JStr (workerURL (g_domain g2) (w_WID w) (w_UserUID w))),
                  (''versions'', json_slice (version_json x) vs), (''worker'', worker_json x w)], g2)))"

definition bind_deploy :: "json gomap \<Rightarrow> (string \<times> string \<times> string \<times> int) option" where
  "bind_deploy ms =
     (case bind_strs [(''user_uid'', required), (''worker_id'', required), (''image'', required)] ms of
        Some [u, w, i] \<Rightarrow>
          (case field_int ''port'' ms 0 of
             None \<Rightarrow> None | Some p \<Rightarrow> if p = 0 then None else Some (u, w, i, p))
      | _ \<Rightarrow> None)"

text \<open>The user id of the context is not read.\<close>

definition WorkerHandler_DeployWorker :: "ext \<Rightarrow> int \<Rightarrow> string \<Rightarrow> request \<Rightarrow> 'k handler" where
  "WorkerHandler_DeployWorker x now uid q = with_body x bind_deploy q (\<lambda>(userUID, workerID, image, port) g.
     case gw_db (CreateDeployVersionForOwner workerID userUID image port) g of
       (Inl e, g1) \<Rightarrow> (if e = ErrNotFound then fails 404 ''worker not found''
                      else fails 500 ''failed to create deploy version'', g1)
     | (Inr versionID, g1) \<Rightarrow>
         (case SendTask now (NewDeployWorkerJob workerID userUID versionID) g1 of
            (Some _, g2) \<Rightarrow> (fails 500 ''failed to enqueue deploy task'', g2)
          | (None, g2) \<Rightarrow>
              (respond 200 [(''status'', JStr ''loading''), (''version_id'', JNum versionID),
                 (''worker_id'', JStr workerID)], g2)))"

subsection \<open>Environment and secrets\<close>

definition WorkerHandler_GetWorkerEnv :: "string \<Rightarrow> request \<Rightarrow> 'k handler" where
  "WorkerHandler_GetWorkerEnv uid q g =
     (case gw_db (GetWorkerEnvByOwner (q_param q ''id'') uid) g of
        (Inl _, g1) \<Rightarrow> (fails 404 ''worker not found'', g1)
      | (Inr envJSON, g1) \<Rightarrow>
          (\<lparr>rs_status = 200, rs_json = marshal_map (fst (unmarshal_map envJSON))\<rparr>, g1))"

definition bind_kv :: "json gomap \<Rightarrow> (string \<times> string \<times> bool) option" where
  "bind_kv ms =
     (case bind_strs [(''key'', required), (''value'', \<lambda>_. True)] ms of
        Some [k, v] \<Rightarrow> map_option (\<lambda>d. (k, v, d)) (field_bool ''delete'' ms False)
      | _ \<Rightarrow> None)"

definition merge_env :: "string \<times> string \<times> bool \<Rightarrow> json_text \<Rightarrow> string gomap" where
  "merge_env r envJSON =
     (case r of (key, v, del) \<Rightarrow>
        let envMap = or_empty (fst (unmarshal_map envJSON))
        in if del then map_del key envMap else map_put key v envMap)"

definition WorkerHandler_SetWorkerEnv :: "ext \<Rightarrow> int \<Rightarrow> string \<Rightarrow> request \<Rightarrow> 'k handler" where
  "WorkerHandler_SetWorkerEnv x now uid q = with_body x bind_kv q (\<lambda>r g.
     let workerID = q_param q ''id'' in
     if fst r = ''COMBINATOR_API_ENDPOINT''
     then (fails 400 ''COMBINATOR_API_ENDPOINT is managed by the system'', g)
     else case gw_db (GetWorkerEnvByOwner workerID uid) g of
       (Inl _, g1) \<Rightarrow> (fails 404 ''worker not found'', g1)
     | (Inr envJSON, g1) \<Rightarrow>
         (let envMap = merge_env r envJSON in
          case gw_db (SetWorkerEnvByOwner workerID uid (Some (marshal_map (Some envMap)))) g1 of
            (Inl _, g2) \<Rightarrow> (fails 500 ''failed to set env'', g2)
          | (Inr _, g2) \<Rightarrow>
              (case SendTask now (NewSyncEnvJob workerID uid (Some envMap)) g2 of
                 (Some _, g3) \<Rightarrow> (fails 500 ''failed to enqueue sync task'', g3)
               | (None, g3) \<Rightarrow> (\<lparr>rs_status = 200, rs_json = marshal_map (Some envMap)\<rparr>, g3))))"

definition WorkerHandler_GetWorkerSecrets :: "string \<Rightarrow> request \<Rightarrow> 'k handler" where
  "WorkerHandler_GetWorkerSecrets uid q g =
     (case gw_db (GetWorkerSecretsByOwner (q_param q ''id'') uid) g of
        (Inl _, g1) \<Rightarrow> (fails 404 ''worker not found'', g1)
      | (Inr secretsJSON, g1) \<Rightarrow>
          (\<lparr>rs_status = 200, rs_json = marshal_list (fst (unmarshal_list secretsJSON))\<rparr>, g1))"

text \<open>The search for the key, and the new list of keys (deleting from a nil list leaves it nil).\<close>

fun find_key :: "string \<Rightarrow> string list \<Rightarrow> bool" where
  "find_key k [] = False"
| "find_key k (x # xs) = (if x = k then True else find_key k xs)"

definition merge_keys :: "string \<Rightarrow> bool \<Rightarrow> string list option \<Rightarrow> string list option" where
  "merge_keys key del ks =
     (if del then map_option (filter (\<lambda>k. k \<noteq> key)) ks
      else let l = (case ks of None \<Rightarrow> [] | Some l \<Rightarrow> l)
           in if find_key key l then ks else Some (l @ [key]))"

text \<open>The task carries the value sent, whether the key is set or deleted.\<close>

definition WorkerHandler_SetWorkerSecrets :: "ext \<Rightarrow> int \<Rightarrow> string \<Rightarrow> request \<Rightarrow> 'k handler" where
  "WorkerHandler_SetWorkerSecrets x now uid q = with_body x bind_kv q (\<lambda>(key, v, del) g.
     let workerID = q_param q ''id'' in
     case gw_db (GetWorkerSecretsByOwner workerID uid) g of
       (Inl _, g1) \<Rightarrow> (fails 404 ''worker not found'', g1)
     | (Inr secretsJSON, g1) \<Rightarrow>
         (let keys = merge_keys key del (fst (unmarshal_list secretsJSON)) in
          case gw_db (SetWorkerSecretsByOwner workerID uid (Some (marshal_list keys))) g1 of
            (Inl _, g2) \<Rightarrow> (fails 500 ''failed to set secrets'', g2)
          | (Inr _, g2) \<Rightarrow>
              (case SendTask now (NewSyncSecretJob workerID uid (Some [(key, v)])) g2 of
                 (Some _, g3) \<Rightarrow> (fails 500 ''failed to enqueue sync task'', g3)
               | (None, g3) \<Rightarrow> (\<lparr>rs_status = 200, rs_json = marshal_list keys\<rparr>, g3))))"

end
