(* ===== verification/ResourceApi.thy ===== *)
theory ResourceApi
  imports WorkerApi
begin

text \<open>
  \<open>handlers/combinator.handler.go\<close>, \<open>handlers/combinator.internal.handler.go\<close> and
  \<open>handlers/customdomain.handler.go\<close>: databases and key-value stores, the combinators' own
  requests, custom domains.
\<close>

section \<open>Combinator resources\<close>

definition resource_json :: "ext \<Rightarrow> combinator_resource \<Rightarrow> json" where
  "resource_json x r = JObj
     [(''id'', JNum (cr_ID r)), (''user_uid'', JStr (cr_UserUID r)),
      (''resource_type'', JStr (cr_ResourceType r)), (''resource_id'', JStr (cr_ResourceID r)),
      (''status'', JStr (cr_Status r)), (''msg'', JStr (cr_Msg r)),
      (''created_at'', JStr (x_time x (cr_CreatedAt r)))]"

text \<open>A row and its task; both kinds of resource are created alike, with \<open>job\<close> for the id.\<close>

definition create_resource :: "int \<Rightarrow> entropy \<Rightarrow> string \<Rightarrow> string \<Rightarrow> (string \<Rightarrow> job) \<Rightarrow> 'k handler" where
  "create_resource now rn uid ty job g =
     (let resourceID = GenerateResourceUID (en_id rn) in
      case gw_db (CreateCombinatorResource uid ty resourceID) g of
        (Inl e, g1) \<Rightarrow> (fails 500 (''failed to create resource: '' @ err_text e), g1)
      | (Inr _, g1) \<Rightarrow>
          (case SendTask now (job resourceID) g1 of
             (Some _, g2) \<Rightarrow> (fails 500 ''failed to enqueue create task'', g2)
           | (None, g2) \<Rightarrow> (respond 200 [(''id'', JStr resourceID), (''status'', JStr ''loading'')], g2)))"

definition CombinatorHandler_CreateRDB :: "ext \<Rightarrow> int \<Rightarrow> entropy \<Rightarrow> string \<Rightarrow> request \<Rightarrow> 'k handler" where
  "CombinatorHandler_CreateRDB x now rn uid q = with_body x (bind_strs [(''name'', required)]) q (\<lambda>r.
     case r of [name] \<Rightarrow> create_resource now rn uid ''rdb'' (NewCreateRDBJob uid name))"

definition CombinatorHandler_CreateKV :: "int \<Rightarrow> entropy \<Rightarrow> string \<Rightarrow> request \<Rightarrow> 'k handler" where
  "CombinatorHandler_CreateKV now rn uid q = create_resource now rn uid ''kv'' (NewCreateKVJob uid)"

text \<open>A size query of the RDB manager; a nil manager or an error counts as 0.\<close>

definition rdb_size :: "int rdbop \<Rightarrow> 'k gateway \<Rightarrow> int \<times> 'k gateway" where
  "rdb_size op g =
     (case wd_rdb (gw g) of
        None \<Rightarrow> (0, g)
      | Some m \<Rightarrow> (case on_rdb op m (gw g) of
                     (Inl _, s) \<Rightarrow> (0, g\<lparr>gw := s\<rparr>) | (Inr n, s) \<Rightarrow> (n, g\<lparr>gw := s\<rparr>)))"

definition CombinatorHandler_ListRDBs :: "ext \<Rightarrow> string \<Rightarrow> request \<Rightarrow> 'k handler" where
  "CombinatorHandler_ListRDBs x uid q g =
     (case gw_db (ListCombinatorResources uid ''rdb'') g of
        (Inl e, g1) \<Rightarrow> (fails 500 (''failed to list resources: '' @ err_text e), g1)
      | (Inr rs, g1) \<Rightarrow>
          (case rdb_size (DatabaseSize uid) g1 of
             (n, g2) \<Rightarrow> (respond 200 [(''database_size'', JNum n),
                (''rdbs'', json_slice (resource_json x) rs)], g2)))"

definition CombinatorHandler_GetRDB :: "ext \<Rightarrow> string \<Rightarrow> request \<Rightarrow> 'k handler" where
  "CombinatorHandler_GetRDB x uid q g =
     (case gw_db (GetCombinatorResource uid ''rdb'' (q_param q ''id'')) g of
        (Inl _, g1) \<Rightarrow> (fails 404 ''resource not found'', g1)
      | (Inr cr, g1) \<Rightarrow>
          (case rdb_size (SchemaSize uid (cr_ResourceID cr)) g1 of
             (n, g2) \<Rightarrow> (respond 200
                [(''created_at'', JStr (x_time x (cr_CreatedAt cr))), (''id'', JNum (cr_ID cr)),
                 (''msg'', JStr (cr_Msg cr)), (''resource_id'', JStr (cr_ResourceID cr)),
                 (''schema_size'', JNum n), (''status'', JStr (cr_Status cr))], g2)))"

definition CombinatorHandler_ListKVs :: "ext \<Rightarrow> string \<Rightarrow> request \<Rightarrow> 'k handler" where
  "CombinatorHandler_ListKVs x uid q g =
     (case gw_db (ListCombinatorResources uid ''kv'') g of
        (Inl e, g1) \<Rightarrow> (fails 500 (''failed to list resources: '' @ err_text e), g1)
      | (Inr rs, g1) \<Rightarrow> (respond 200 [(''kvs'', json_slice (resource_json x) rs)], g1))"

definition delete_resource :: "int \<Rightarrow> string \<Rightarrow> string \<Rightarrow> (string \<Rightarrow> job) \<Rightarrow> request \<Rightarrow> 'k handler" where
  "delete_resource now uid ty job q g =
     (let resourceID = q_param q ''id'' in
      case gw_db (GetCombinatorResource uid ty resourceID) g of
        (Inl _, g1) \<Rightarrow> (fails 404 ''resource not found'', g1)
      | (Inr cr, g1) \<Rightarrow>
          (case gw_db (DeleteCombinatorResource uid ty resourceID) g1 of
             (Inl e, g2) \<Rightarrow> (fails 500 (''failed to delete resource: '' @ err_text e), g2)
           | (Inr _, g2) \<Rightarrow>
               (case SendTask now (job (cr_ResourceID cr)) g2 of
                  (Some _, g3) \<Rightarrow> (fails 500 ''failed to enqueue delete task'', g3)
                | (None, g3) \<Rightarrow> (respond 200 [(''message'', JStr ''deleted'')], g3))))"

definition CombinatorHandler_DeleteRDB :: "int \<Rightarrow> string \<Rightarrow> request \<Rightarrow> 'k handler" where
  "CombinatorHandler_DeleteRDB now uid q = delete_resource now uid ''rdb'' (NewDeleteRDBJob uid) q"

definition CombinatorHandler_DeleteKV :: "int \<Rightarrow> string \<Rightarrow> request \<Rightarrow> 'k handler" where
  "CombinatorHandler_DeleteKV now uid q = delete_resource now uid ''kv'' (NewDeleteKVJob uid) q"

section \<open>Requests of the combinators\<close>

definition resource_item :: "combinator_resource \<Rightarrow> json" where
  "resource_item r = JObj
     [(''resource_type'', JStr (cr_ResourceType r)), (''resource_id'', JStr (cr_ResourceID r))]"

definition RetrieveSecretByID :: "request \<Rightarrow> 'k handler" where
  "RetrieveSecretByID q g =
     (let userUID = q_query q ''user_id'' in
      case gw_db (GetUserSecretKey userUID) g of
        (Inl e, g1) \<Rightarrow> (fails 500 (''failed to get user secret: '' @ err_text e), g1)
      | (Inr secretKey, g1) \<Rightarrow>
          (case gw_db (ListActiveCombinatorResources userUID) g1 of
             (Inl e, g2) \<Rightarrow> (fails 500 (''failed to list resources: '' @ err_text e), g2)
           | (Inr rs, g2) \<Rightarrow>
               (respond 200 [(''resources'', json_slice resource_item rs),
                  (''secret_key'', JStr secretKey)], g2)))"

text \<open>A report as decoded; \<open>zero_time\<close> is Go's zero time, which the rule \<open>required\<close> refuses.\<close>

definition zero_time :: int where
  "zero_time = - 62135596800 * 1000000000"

fun field_time :: "(string \<Rightarrow> int option) \<Rightarrow> string \<Rightarrow> json gomap \<Rightarrow> int \<Rightarrow> int option" where
  "field_time p f [] v = Some v"
| "field_time p f ((k, j) # ms) v =
     (if fold_eq k f
      then (case j of JStr s \<Rightarrow> Option.bind (p s) (field_time p f ms) | JNull \<Rightarrow> field_time p f ms v | _ \<Rightarrow> None)
      else field_time p f ms v)"

definition decode_report :: "ext \<Rightarrow> json \<Rightarrow> combinator_resource_report option" where
  "decode_report x j =
     Option.bind (bind_members (Some j)) (\<lambda>ms.
     Option.bind (field_str ''id'' ms '''') (\<lambda>i.
     Option.bind (field_str ''user_id'' ms '''') (\<lambda>u.
     Option.bind (field_str ''resource_id'' ms '''') (\<lambda>r.
     Option.bind (field_str ''resource_type'' ms '''') (\<lambda>ty.
     Option.bind (field_int ''datachange'' ms 0) (\<lambda>n.
     Option.bind (field_time (x_parse_time x) ''timespan_start'' ms zero_time) (\<lambda>s.
     map_option (\<lambda>e. \<lparr>rp_ID = i, rp_UserID = u, rp_ResourceID = r, rp_ResourceType = ty,
                       rp_DataChange = n, rp_TimespanStart = s, rp_TimespanEnd = e\<rparr>)
       (field_time (x_parse_time x) ''timespan_end'' ms zero_time))))))))"

definition valid_report :: "combinator_resource_report \<Rightarrow> bool" where
  "valid_report r \<longleftrightarrow> rp_UserID r \<noteq> '''' \<and> rp_ResourceID r \<noteq> '''' \<and> rp_ResourceType r \<noteq> '''' \<and>
     rp_DataChange r \<noteq> 0 \<and> rp_TimespanStart r \<noteq> zero_time \<and> rp_TimespanEnd r \<noteq> zero_time"

fun decode_reports :: "ext \<Rightarrow> json list \<Rightarrow> combinator_resource_report list option" where
  "decode_reports x [] = Some []"
| "decode_reports x (j # js) =
     (case decode_report x j of
        None \<Rightarrow> None
      | Some r \<Rightarrow> if valid_report r then map_option ((#) r) (decode_reports x js) else None)"

definition bind_reports :: "ext \<Rightarrow> json_text \<Rightarrow> combinator_resource_report list option" where
  "bind_reports x body =
     (case body of Some (JArr js) \<Rightarrow> decode_reports x js | Some JNull \<Rightarrow> Some [] | _ \<Rightarrow> None)"

definition ReportUsage :: "ext \<Rightarrow> request \<Rightarrow> 'k handler" where
  "ReportUsage x q g =
     (case bind_reports x (q_body q) of
        None \<Rightarrow> (fails 400 (''invalid request body: '' @ x_bind_text x (q_body q)), g)
      | Some reports \<Rightarrow>
          if length reports = 0 then (fails 400 ''empty reports array'', g)
          else case gw_db (BatchSaveCombinatorResourceReports reports) g of
            (Inl e, g1) \<Rightarrow> (fails 500 (''failed to create reports: '' @ err_text e), g1)
          | (Inr _, g1) \<Rightarrow> (respond 200 [(''count'', JNum (int (length reports))),
                             (''message'', JStr ''reports processed successfully'')], g1))"

section \<open>Custom domains\<close>

text \<open>
  The answer shows the domain as created; the goroutine that verifies it then runs to its end.
\<close>

definition AddCustomDomain :: "'k kube \<Rightarrow> ext \<Rightarrow> int \<Rightarrow> entropy \<Rightarrow> string \<Rightarrow> request \<Rightarrow> 'k handler" where
  "AddCustomDomain K x now rn uid q = with_body x (bind_strs [(''domain'', required), (''target'', required)]) q
     (\<lambda>r g. case r of [domain, target] \<Rightarrow>
       (case NewCustomDomain (en_id rn) (en_token rn) now uid domain target (gw g) of
          (Inl e, s) \<Rightarrow> (fails 500 (err_text e), g\<lparr>gw := s\<rparr>)
        | (Inr cd, s) \<Rightarrow>
            (respond 200 [(''domain'', JStr (cd_Domain cd)), (''id'', JNum (cd_ID cd)),
               (''status'', JStr (cd_Status cd)), (''target'', JStr (cd_Target cd)),
               (''txt_name'', JStr (cd_TXTName cd)), (''txt_value'', JStr (cd_TXTValue cd))],
             g\<lparr>gw := snd (StartVerification K cd s)\<rparr>)))"

definition domain_json :: "ext \<Rightarrow> custom_domain \<Rightarrow> json" where
  "domain_json x cd = JObj
     [(''id'', JNum (cd_ID cd)), (''cdid'', JStr (cd_CDID cd)), (''domain'', JStr (cd_Domain cd)),
      (''target'', JStr (cd_Target cd)), (''txt_name'', JStr (cd_TXTName cd)),
      (''txt_value'', JStr (cd_TXTValue cd)), (''status'', JStr (cd_Status cd)),
      (''user_uid'', JStr (cd_UserUID cd)), (''created_at'', JStr (x_time x (cd_CreatedAt cd)))]"

definition Handler_ListCustomDomains :: "ext \<Rightarrow> string \<Rightarrow> request \<Rightarrow> 'k handler" where
  "Handler_ListCustomDomains x uid q g =
     (case k8s_ListCustomDomains uid (gw g) of
        (cds, s) \<Rightarrow> (respond 200 [(''domains'', json_slice (domain_json x) cds)], g\<lparr>gw := s\<rparr>))"

text \<open>The user id of the context is not read by the next two.\<close>

definition Handler_GetCustomDomain :: "ext \<Rightarrow> string \<Rightarrow> request \<Rightarrow> 'k handler" where
  "Handler_GetCustomDomain x uid q g =
     (case k8s_GetCustomDomain (q_param q ''id'') (gw g) of
        (None, s) \<Rightarrow> (fails 404 ''domain not found'', g\<lparr>gw := s\<rparr>)
      | (Some cd, s) \<Rightarrow> (\<lparr>rs_status = 200, rs_json = domain_json x cd\<rparr>, g\<lparr>gw := s\<rparr>))"

definition Handler_DeleteCustomDomain :: "'k kube \<Rightarrow> string \<Rightarrow> request \<Rightarrow> 'k handler" where
  "Handler_DeleteCustomDomain K uid q g =
     (case k8s_DeleteCustomDomain K (q_param q ''id'') (gw g) of
        (Some e, s) \<Rightarrow> (fails 404 (err_text e), g\<lparr>gw := s\<rparr>)
      | (None, s) \<Rightarrow> (respond 200 [(''message'', JStr ''deleted'')], g\<lparr>gw := s\<rparr>))"

end
