(* ===== verification/Crd.thy ===== *)
theory Crd
  imports Controller
begin

text \<open>
  \<open>k8s/controller/crd.go\<close>: the definition of the WorkerApp resource and \<open>EnsureCRD\<close>, which installs it
  and polls until it is established.  The extension API is a record of calls over an unknown state.
\<close>

section \<open>The definition\<close>

definition crd_Group :: string where "crd_Group = ''console.app238.com''"
definition crd_Version :: string where "crd_Version = ''v1''"
definition WorkerResource :: string where "WorkerResource = ''workerapps''"
definition WorkerKind :: string where "WorkerKind = ''WorkerApp''"

text \<open>The part of an OpenAPI schema the program uses: a type, required members, member schemas.\<close>

datatype schema = Schema (sc_type: string) (sc_required: "string list") (sc_members: "(string \<times> schema) list")

definition workerAppSchema :: schema where
  "workerAppSchema = Schema ''object'' []
     [(''spec'', Schema ''object'' [''workerID'', ''ownerID'', ''image'', ''port'']
        [(''workerID'', Schema ''string'' [] []), (''ownerID'', Schema ''string'' [] []),
         (''ownerSK'', Schema ''string'' [] []), (''image'', Schema ''string'' [] []),
         (''port'', Schema ''integer'' [] [])]),
      (''status'', Schema ''object'' []
        [(''phase'', Schema ''string'' [] []), (''message'', Schema ''string'' [] [])])]"

record crd =
  crd_name :: string
  crd_group :: string
  crd_plural :: string
  crd_singular :: string
  crd_kind :: string
  crd_short :: "string list"
  crd_scope :: string
  crd_version :: string
  crd_schema :: schema
  crd_has_status :: bool

definition worker_crd :: crd where
  "worker_crd = \<lparr>crd_name = WorkerResource @ ''.'' @ crd_Group, crd_group = crd_Group,
     crd_plural = WorkerResource, crd_singular = ''workerapp'', crd_kind = WorkerKind, crd_short = [''wa''],
     crd_scope = ''Namespaced'', crd_version = crd_Version, crd_schema = workerAppSchema,
     crd_has_status = True\<rparr>"

section \<open>Installing it\<close>

text \<open>A read yields the conditions of the status as (type, status) pairs.\<close>

record 'c crd_api =
  ca_get :: "string \<Rightarrow> 'c \<Rightarrow> (kerr + (string \<times> string) list) \<times> 'c"
  ca_create :: "crd \<Rightarrow> 'c \<Rightarrow> kerr option \<times> 'c"

fun established :: "(string \<times> string) list \<Rightarrow> bool" where
  "established [] = False"
| "established ((ty, st) # cs) = (if ty = ''Established'' \<and> st = ''True'' then True else established cs)"

fun wait_established :: "nat \<Rightarrow> 'c crd_api \<Rightarrow> string \<Rightarrow> 'c \<Rightarrow> err option \<times> 'c" where
  "wait_established 0 A n s = (Some (Errorf (''CRD '' @ n @ '' not established after 30s'')), s)"
| "wait_established (Suc k) A n s =
     (case ca_get A n s of
        (Inl _, s1) \<Rightarrow> wait_established k A n s1
      | (Inr cs, s1) \<Rightarrow> if established cs then (None, s1) else wait_established k A n s1)"

text \<open>\<open>client\<close> is the error of building the API client, if any.\<close>

definition EnsureCRD :: "err option \<Rightarrow> 'c crd_api \<Rightarrow> 'c \<Rightarrow> err option \<times> 'c" where
  "EnsureCRD client A s =
     (case client of
        Some e \<Rightarrow> (Some e, s)
      | None \<Rightarrow>
          (case ca_get A (crd_name worker_crd) s of
             (Inl (KNotFound _), s1) \<Rightarrow>
               (case ca_create A worker_crd s1 of
                  (Some e, s2) \<Rightarrow> (Some (kerr_err e), s2)
                | (None, s2) \<Rightarrow> wait_established 30 A (crd_name worker_crd) s2)
           | (Inl e, s1) \<Rightarrow> (Some (Wrap (''get CRD '' @ crd_name worker_crd) (kerr_err e)), s1)
           | (Inr _, s1) \<Rightarrow> (None, s1)))"

section \<open>The schema accepts what the program writes\<close>

text \<open>Validation of a value: its type, its required members, and every member with a schema.\<close>

fun accepts :: "schema \<Rightarrow> json \<Rightarrow> bool"
  and accepts_members :: "(string \<times> schema) list \<Rightarrow> json gomap \<Rightarrow> bool" where
  "accepts (Schema ty req mem) j =
     (if ty = ''string'' then (case j of JStr _ \<Rightarrow> True | _ \<Rightarrow> False)
      else if ty = ''integer'' then (case j of JNum _ \<Rightarrow> True | _ \<Rightarrow> False)
      else case j of
        JObj ms \<Rightarrow> list_all (\<lambda>r. r \<in> fst ` set ms) req \<and> accepts_members mem ms
      | _ \<Rightarrow> False)"
| "accepts_members [] ms = True"
| "accepts_members ((k, sc) # mem) ms =
     ((case map_of ms k of None \<Rightarrow> True | Some v \<Rightarrow> accepts sc v) \<and> accepts_members mem ms)"

section \<open>Waiting\<close>

text \<open>The states in which the polls read, and how the wait ends.\<close>

fun polls :: "nat \<Rightarrow> 'c crd_api \<Rightarrow> string \<Rightarrow> 'c \<Rightarrow> (kerr + (string \<times> string) list) list" where
  "polls 0 A n s = []"
| "polls (Suc k) A n s = (case ca_get A n s of (r, s1) \<Rightarrow> r # polls k A n s1)"

definition poll_ok :: "kerr + (string \<times> string) list \<Rightarrow> bool" where
  "poll_ok r = (case r of Inl _ \<Rightarrow> False | Inr cs \<Rightarrow> established cs)"

lemma established_iff: "established cs \<longleftrightarrow> (''Established'', ''True'') \<in> set cs"
  by (induction cs rule: established.induct) auto

lemma wait_polls:
  "fst (wait_established k A n s) = None \<longleftrightarrow> list_ex poll_ok (polls k A n s)"
  by (induction k arbitrary: s) (auto simp: poll_ok_def split: prod.splits sum.splits)

section \<open>Properties\<close>

text \<open>
  Installing the definition succeeds exactly when it is there already, or the create succeeds and
  one of at most thirty polls shows it established; it never asks more often.  A definition that is
  there already is neither compared with the program's nor waited for.
\<close>

theorem ensure_crd_outcome:
  "fst (EnsureCRD None A s) = None \<longleftrightarrow>
    (case ca_get A ''workerapps.console.app238.com'' s of
       (Inr _, _) \<Rightarrow> True
     | (Inl (KNotFound _), s1) \<Rightarrow>
         (case ca_create A worker_crd s1 of
            (Some _, _) \<Rightarrow> False
          | (None, s2) \<Rightarrow> list_ex poll_ok (polls 30 A ''workerapps.console.app238.com'' s2))
     | (Inl (KError _), _) \<Rightarrow> False)"
proof -
  have n: "crd_name worker_crd = ''workerapps.console.app238.com''"
    by (simp add: worker_crd_def WorkerResource_def crd_Group_def)
  show ?thesis
    unfolding EnsureCRD_def n
    by (simp add: wait_polls split: prod.splits sum.splits kerr.splits option.splits)
qed


end
