(* ===== verification/Routes.thy ===== *)
theory Routes
  imports ResourceApi Crd
begin

text \<open>
  \<open>cmd/outer/main.go\<close> and \<open>cmd/inner/main.go\<close>: the routes of the two gateways with their middlewares
  as tables, the dispatch of a request, the environment checks and the order of the start.
\<close>

section \<open>Dispatch\<close>

text \<open>What stands before a handler: nothing, the token check or the signature check.\<close>

datatype guard = Public | Bearer | Signed

record 'k route =
  rt_method :: string
  rt_path :: "string list"
  rt_guard :: guard
  rt_handler :: "string \<Rightarrow> request \<Rightarrow> 'k handler"

definition route :: "string \<Rightarrow> string list \<Rightarrow> guard \<Rightarrow> (string \<Rightarrow> request \<Rightarrow> 'k handler) \<Rightarrow> 'k route" where
  "route m p gd h = \<lparr>rt_method = m, rt_path = p, rt_guard = gd, rt_handler = h\<rparr>"

text \<open>A segment \<open>:id\<close> matches any non-empty segment and binds the parameter \<open>id\<close>.\<close>

fun match_path :: "string list \<Rightarrow> string list \<Rightarrow> string \<Rightarrow> string option" where
  "match_path [] [] i = Some i"
| "match_path (p # ps) (s # ss) i =
     (if p = '':id'' then (if s = '''' then None else match_path ps ss s)
      else if p = s then match_path ps ss i else None)"
| "match_path _ _ i = None"

fun find_route :: "'k route list \<Rightarrow> string \<Rightarrow> string list \<Rightarrow> ('k route \<times> string) option" where
  "find_route [] m path = None"
| "find_route (r # rs) m path =
     (if rt_method r = m
      then (case match_path (rt_path r) path '''' of
              None \<Rightarrow> find_route rs m path | Some i \<Rightarrow> Some (r, i))
      else find_route rs m path)"

definition guarded :: "ext \<Rightarrow> int \<Rightarrow> guard \<Rightarrow> (string \<Rightarrow> request \<Rightarrow> 'k handler) \<Rightarrow> request \<Rightarrow> 'k handler" where
  "guarded x now gd h q =
     (case gd of Public \<Rightarrow> h '''' q | Bearer \<Rightarrow> AuthMiddleware x now h q | Signed \<Rightarrow> SignatureMiddleware h q)"

definition dispatch :: "ext \<Rightarrow> int \<Rightarrow> 'k route list \<Rightarrow> string \<Rightarrow> string list \<Rightarrow> request \<Rightarrow> 'k handler" where
  "dispatch x now rs m path q g =
     (case find_route rs m path of
        None \<Rightarrow> (\<lparr>rs_status = 404, rs_json = JNull\<rparr>, g)
      | Some (r, i) \<Rightarrow>
          guarded x now (rt_guard r) (rt_handler r) (q\<lparr>q_param := (\<lambda>n. if n = ''id'' then i else '''')\<rparr>) g)"

section \<open>The outer gateway\<close>

text \<open>\<open>db\<close> is what the health check finds (see \<open>HealthOuter\<close>).\<close>

definition public_routes :: "ext \<Rightarrow> int \<Rightarrow> entropy \<Rightarrow> 'k route list" where
  "public_routes x now rn =
     [route ''POST'' [''auth'', ''register''] Public (\<lambda>_. Register x now rn),
      route ''POST'' [''auth'', ''login''] Public (\<lambda>_. Login x now),
      route ''POST'' [''auth'', ''send-code''] Public (\<lambda>_. SendCode x now),
      route ''POST'' [''auth'', ''reset-password''] Public (\<lambda>_. ResetPassword x now rn)]"

definition resource_routes :: "ext \<Rightarrow> int \<Rightarrow> entropy \<Rightarrow> 'k route list" where
  "resource_routes x now rn =
     [route ''GET'' [''rdb''] Bearer (CombinatorHandler_ListRDBs x),
      route ''GET'' [''rdb'', '':id''] Bearer (CombinatorHandler_GetRDB x),
      route ''POST'' [''rdb''] Bearer (CombinatorHandler_CreateRDB x now rn),
      route ''DELETE'' [''rdb'', '':id''] Bearer (CombinatorHandler_DeleteRDB now),
      route ''GET'' [''kv''] Bearer (CombinatorHandler_ListKVs x),
      route ''POST'' [''kv''] Bearer (CombinatorHandler_CreateKV now rn),
      route ''DELETE'' [''kv'', '':id''] Bearer (CombinatorHandler_DeleteKV now)]"

definition worker_routes :: "ext \<Rightarrow> int \<Rightarrow> entropy \<Rightarrow> 'k route list" where
  "worker_routes x now rn =
     [route ''GET'' [''worker''] Bearer WorkerHandler_ListWorkers,
      route ''GET'' [''worker'', '':id''] Bearer (WorkerHandler_GetWorker x),
      route ''POST'' [''worker''] Bearer (WorkerHandler_CreateWorker x rn),
      route ''DELETE'' [''worker'', '':id''] Bearer (WorkerHandler_DeleteWorker now),
      route ''GET'' [''worker'', '':id'', ''env''] Bearer WorkerHandler_GetWorkerEnv,
      route ''POST'' [''worker'', '':id'', ''env''] Bearer (WorkerHandler_SetWorkerEnv x now),
      route ''GET'' [''worker'', '':id'', ''secret''] Bearer WorkerHandler_GetWorkerSecrets,
      route ''POST'' [''worker'', '':id'', ''secret''] Bearer (WorkerHandler_SetWorkerSecrets x now)]"

definition domain_routes :: "'k kube \<Rightarrow> ext \<Rightarrow> int \<Rightarrow> entropy \<Rightarrow> 'k route list" where
  "domain_routes K x now rn =
     [route ''GET'' [''domain''] Bearer (Handler_ListCustomDomains x),
      route ''GET'' [''domain'', '':id''] Bearer (Handler_GetCustomDomain x),
      route ''POST'' [''domain''] Bearer (AddCustomDomain K x now rn),
      route ''DELETE'' [''domain'', '':id''] Bearer (Handler_DeleteCustomDomain K)]"

definition sensitive_routes :: "ext \<Rightarrow> int \<Rightarrow> 'k route list" where
  "sensitive_routes x now =
     [route ''POST'' [''worker'', ''deploy''] Signed (WorkerHandler_DeployWorker x now)]"

definition outer_routes :: "'k kube \<Rightarrow> ext \<Rightarrow> int \<Rightarrow> entropy \<Rightarrow> 'k route list" where
  "outer_routes K x now rn =
     map (\<lambda>r. r\<lparr>rt_path := ''api'' # rt_path r\<rparr>)
       (public_routes x now rn @ resource_routes x now rn @ worker_routes x now rn @
        domain_routes K x now rn @ sensitive_routes x now)"

text \<open>
  In debug mode every response but the health check's carries these headers, and a preflight request is
  answered before any route is looked up; headers are not part of \<open>response\<close>.
\<close>

definition crossOriginMiddleware :: "string \<Rightarrow> (string \<times> string) list \<times> response option" where
  "crossOriginMiddleware m =
     ([(''Access-Control-Allow-Origin'', ''*''),
       (''Access-Control-Allow-Methods'', ''POST, GET, OPTIONS, PUT, DELETE''),
       (''Access-Control-Allow-Headers'', ''Origin, Content-Type, Accept, Authorization'')],
      if m = ''OPTIONS'' then Some \<lparr>rs_status = 204, rs_json = JNull\<rparr> else None)"

lemma cross_origin [simp]:
  "snd (crossOriginMiddleware m) = (if m = ''OPTIONS'' then Some \<lparr>rs_status = 204, rs_json = JNull\<rparr> else None)"
  by (simp add: crossOriginMiddleware_def)


definition serve_outer :: "bool \<Rightarrow> 'k kube \<Rightarrow> ext \<Rightarrow> int \<Rightarrow> entropy \<Rightarrow> err option option \<Rightarrow>
    string \<Rightarrow> string list \<Rightarrow> request \<Rightarrow> 'k handler" where
  "serve_outer debug K x now rn db m path q g =
     (if m = ''GET'' \<and> path = [''health''] then (HealthOuter now db, g)
      else case (if debug then snd (crossOriginMiddleware m) else None) of
             Some r \<Rightarrow> (r, g)
           | None \<Rightarrow> dispatch x now (outer_routes K x now rn) m path q g)"

section \<open>The inner gateway\<close>

record 'k inner =
  in_gw :: "'k gateway"
  in_proc :: "job option processor"
  in_cron :: "job option cron"

text \<open>No route of the inner gateway is guarded; \<open>task\<close> is the body as \<open>AcceptTask\<close> decodes it.\<close>

definition inner_routes :: "ext \<Rightarrow> int \<Rightarrow> 'k route list" where
  "inner_routes x now =
     [route ''POST'' [''api'', ''worker'', ''deploy''] Public (WorkerHandler_DeployWorker x now),
      route ''GET'' [''api'', ''combinator'', ''retrieveSecretByID''] Public (\<lambda>_. RetrieveSecretByID),
      route ''POST'' [''api'', ''combinator'', ''reportUsage''] Public (\<lambda>_. ReportUsage x)]"

definition serve_inner :: "ext \<Rightarrow> int \<Rightarrow> err option option \<Rightarrow> string \<Rightarrow> string + task_request \<Rightarrow> string \<Rightarrow>
    string list \<Rightarrow> request \<Rightarrow> 'k inner \<Rightarrow> response \<times> 'k inner" where
  "serve_inner x now db txt task m path q s =
     (if m = ''GET'' \<and> path = [''health'']
      then (HealthInner now db (g_K8sClient (wd_globals (gw (in_gw s)))), s)
      else if m = ''POST'' \<and> path = [''api'', ''acceptTask'']
      then (case AcceptTask txt now task (in_proc s) of (r, p) \<Rightarrow> (r, s\<lparr>in_proc := p\<rparr>))
      else case dispatch x now (inner_routes x now) m path q (in_gw s) of (r, g) \<Rightarrow> (r, s\<lparr>in_gw := g\<rparr>))"

section \<open>Starting\<close>

text \<open>
  The environment: an unset variable is the empty string.  The result is the variables' values when
  every required one is set; otherwise the process ends.
\<close>

fun check_env :: "(string \<Rightarrow> string) \<Rightarrow> string list \<Rightarrow> string list option" where
  "check_env env [] = Some []"
| "check_env env (n # ns) =
     (case check_env env ns of
        None \<Rightarrow> None | Some vs \<Rightarrow> if env n = '''' then None else Some (env n # vs))"

definition checkEnvInner :: "(string \<Rightarrow> string) \<Rightarrow> string option" where
  "checkEnvInner env = map_option hd (check_env env [''DOMAIN''])"

definition checkEnvOuter :: "(string \<Rightarrow> string) \<Rightarrow> (string \<times> string) option" where
  "checkEnvOuter env =
     map_option (\<lambda>vs. (vs ! 0, vs ! 1)) (check_env env [''DOMAIN'', ''RESEND_API_KEY''])"

text \<open>What a start can end in: an exit of the flag package, the log's fatal exit, a panic, or serving.\<close>

datatype 'a start = Exit int | Fatal err | Panic err | Serving 'a

definition hour :: int where
  "hour = 3600 * 1000000000"

definition start_jobs :: "job option processor \<times> job option cron" where
  "start_jobs =
     (let proc = StartProcessor (NewProcessor 256 4);
          cron = StartCron NewCronScheduler;
          cron' = RegisterJob (12 * hour) (Some NewDomainCheckJob)
                    (RegisterJob (24 * hour) (Some NewUserAuditJob) cron)
      in case Submit (Some NewUserAuditJob) proc of None \<Rightarrow> (proc, cron') | Some p \<Rightarrow> (p, cron'))"

text \<open>
  \<open>db\<close> and \<open>k8s\<close> are the outcomes of \<open>InitDB\<close> and \<open>InitK8s\<close>, \<open>os\<close>, \<open>ps\<close> and \<open>c\<close> the CockroachDB
  server the manager meets; the error of \<open>EnsureCRD\<close> is dropped.
\<close>

definition main_inner :: "(string \<Rightarrow> string) \<Rightarrow> err option \<Rightarrow> err option list \<Rightarrow> bool list \<Rightarrow> crdb \<Rightarrow>
    err option \<Rightarrow> err option \<Rightarrow> 'c crd_api \<Rightarrow> 'c \<Rightarrow> 'k gateway \<Rightarrow> 'k inner start \<times> 'c" where
  "main_inner env db os ps c k8s crd_client A crds g =
     (let debug = (env ''ENV'' = ''test'');
          domain = (if debug then Some '''' else checkEnvInner env)
      in case domain of
           None \<Rightarrow> (Fatal (Errorf ''ENV not set, panic''), crds)
         | Some d \<Rightarrow>
             (case db of
                Some e \<Rightarrow> (Fatal (Wrap ''Failed to connect to database'' e), crds)
              | None \<Rightarrow>
                  (case InitRDBManager os ps c of
                     (_, m) \<Rightarrow>
                       (case k8s of
                          Some e \<Rightarrow> (Panic (Wrap ''K8s client init failed'' e), crds)
                        | None \<Rightarrow>
                            (case start_jobs of
                               (p, cr) \<Rightarrow>
                                 (Serving \<lparr>in_gw = g\<lparr>gw := (gw g)\<lparr>wd_rdb := Some m,
                                      wd_globals := \<lparr>g_K8sClient = True, g_DynamicClient = True, g_Domain = d\<rparr>\<rparr>\<rparr>,
                                    in_proc = p, in_cron = cr\<rparr>, snd (EnsureCRD crd_client A crds)))))))"

text \<open>The outer gateway: no Kubernetes client, no RDB manager; the mail client is set with its key.\<close>

definition main_outer :: "(string \<Rightarrow> string) \<Rightarrow> err option \<Rightarrow> 'k gateway \<Rightarrow> 'k gateway start" where
  "main_outer env db g =
     (let debug = (env ''ENV'' = ''test'');
          domain = (if debug then Some '''' else map_option fst (checkEnvOuter env))
      in case domain of
           None \<Rightarrow> Fatal (Errorf ''ENV not set, panic'')
         | Some d \<Rightarrow>
             (case db of
                Some e \<Rightarrow> Fatal (Wrap ''Failed to connect to database'' e)
              | None \<Rightarrow> Serving (g\<lparr>gw := (gw g)\<lparr>wd_rdb := None,
                   wd_globals := \<lparr>g_K8sClient = False, g_DynamicClient = False, g_Domain = d\<rparr>\<rparr>\<rparr>)))"

end
