(* ===== verification/ApiSteps.thy ===== *)
theory ApiSteps
  imports Routes
begin

text \<open>
  The database effect of the HTTP handlers as steps: what a handler does for a user is a sequence of
  that user's own statements (\<open>own_step\<close>), and what any request does is a sequence of statements of
  the layer (\<open>db_step\<close>).  The gateways' properties rest on these.
\<close>

section \<open>Statements on behalf of a user\<close>

definition own_domain :: "string \<Rightarrow> string \<Rightarrow> db \<Rightarrow> bool" where
  "own_domain u cdid d \<longleftrightarrow> (\<forall>c \<in> set (t_domains (tab d)). cd_CDID c = cdid \<longrightarrow> cd_UserUID c = u)"

inductive own_step :: "string \<Rightarrow> db \<Rightarrow> db \<Rightarrow> bool" for u where
  read: "d' = d\<lparr>db_faults := fs\<rparr> \<Longrightarrow> own_step u d d'"
| worker: "ran (CreateWorker wid u name) d d' \<Longrightarrow> own_step u d d'"
| env: "ran (SetWorkerEnvByOwner wid u j) d d' \<Longrightarrow> own_step u d d'"
| secrets: "ran (SetWorkerSecretsByOwner wid u j) d d' \<Longrightarrow> own_step u d d'"
| del_worker: "ran (DeleteWorkerByOwner wid u) d d' \<Longrightarrow> own_step u d d'"
| resource: "ran (CreateCombinatorResource u ty rid) d d' \<Longrightarrow> own_step u d d'"
| del_resource: "ran (DeleteCombinatorResource u ty rid) d d' \<Longrightarrow> own_step u d d'"
| domain: "ran (CreateCustomDomain cdid u name target tn tv st) d d' \<Longrightarrow> own_step u d d'"
| status: "own_domain u cdid d \<Longrightarrow> ran (UpdateCustomDomainStatus cdid st) d d' \<Longrightarrow> own_step u d d'"

lemma own_step_db:
  assumes "own_step u d d'"
  shows "db_step d d'"
  using assms
proof (cases rule: own_step.cases)
  case (read fs)
  then have "d' = d\<lparr>db_now := db_now d, db_faults := fs\<rparr>" by simp
  then show ?thesis by (rule db_step.clock)
qed (auto intro: db_step.intros)

lemma own_steps_db: "(own_step u)\<^sup>*\<^sup>* d d' \<Longrightarrow> db_step\<^sup>*\<^sup>* d d'"
  by (induction rule: rtranclp_induct) (auto intro: rtranclp.rtrancl_into_rtrancl own_step_db)

lemma db_steps_ok: "db_step\<^sup>*\<^sup>* d d' \<Longrightarrow> db_ok d \<Longrightarrow> db_ok d'"
  by (induction rule: rtranclp_induct) (auto intro: db_step_ok)

section \<open>What belongs to the other users\<close>

definition foreign_workers :: "string \<Rightarrow> tables \<Rightarrow> worker list" where
  "foreign_workers u t = filter (\<lambda>w. w_UserUID w \<noteq> u) (t_workers t)"

definition foreign_resources :: "string \<Rightarrow> tables \<Rightarrow> combinator_resource list" where
  "foreign_resources u t = filter (\<lambda>r. cr_UserUID r \<noteq> u) (t_resources t)"

text \<open>
  The rows of the other users, the versions of their workers and the reports on their resources, and
  every row of the accounts, the codes and the tasks.
\<close>

definition foreign :: "string \<Rightarrow> tables \<Rightarrow> tables" where
  "foreign u t = \<lparr>t_users = t_users t, t_codes = t_codes t,
     t_domains = filter (\<lambda>c. cd_UserUID c \<noteq> u) (t_domains t),
     t_workers = foreign_workers u t,
     t_versions = filter (\<lambda>v. v_WorkerID v \<in> w_ID ` set (foreign_workers u t)) (t_versions t),
     t_resources = foreign_resources u t,
     t_reports = filter (\<lambda>r. rr_resource_id r \<in> cr_ID ` set (foreign_resources u t)) (t_reports t),
     t_tasks = t_tasks t\<rparr>"

lemma foreign_sel [simp]:
  "t_users (foreign u t) = t_users t" "t_codes (foreign u t) = t_codes t"
  "t_tasks (foreign u t) = t_tasks t"
  by (simp_all add: foreign_def)

lemma filter_update_where:
  "(\<And>r. p r \<Longrightarrow> \<not> k r) \<Longrightarrow> (\<And>r. p r \<Longrightarrow> \<not> k (f r)) \<Longrightarrow> filter k (update_where p f rs) = filter k rs"
  by (induction rs) (auto simp: update_where_def)

lemma filter_delete_where: "(\<And>r. r \<in> set rs \<Longrightarrow> p r \<Longrightarrow> \<not> k r) \<Longrightarrow> filter k (delete_where p rs) = filter k rs"
  by (induction rs) (auto simp: delete_where_def)

lemma db_ok_workers: "db_ok d \<Longrightarrow> distinct (map w_ID (t_workers (tab d)))"
  by (simp add: db_ok_def seq_ok_def) (metis ids.simps(4))

lemma db_ok_resources: "db_ok d \<Longrightarrow> distinct (map cr_ID (t_resources (tab d)))"
  by (simp add: db_ok_def seq_ok_def) (metis ids.simps(6))

lemma foreign_set_by_owner:
  assumes "ran (set_by_owner f wid u) d d'"
    and "\<And>w. w_UserUID (f w) = w_UserUID w" "\<And>w. w_ID (f w) = w_ID w"
  shows "foreign u (tab d') = foreign u (tab d)"
proof -
  obtain r where r: "set_by_owner f wid u d = (r, d')"
    using assms(1) by (cases "set_by_owner f wid u d") (simp add: ran_def)
  have eq: "filter (\<lambda>w. w_UserUID w \<noteq> u) (update_where (owned wid u) f ws) = filter (\<lambda>w. w_UserUID w \<noteq> u) ws" for ws
    by (rule filter_update_where) (simp_all add: owned_def assms)
  show ?thesis
  proof (cases r)
    case (Inl e)
    with r show ?thesis by (auto dest: set_by_owner_err)
  next
    case (Inr x)
    with set_by_owner_ok [of f wid u d x d'] r show ?thesis by (simp add: foreign_def foreign_workers_def foreign_resources_def eq)
  qed
qed

lemma distinct_img_diff:
  assumes "distinct (map k rs)" and "r \<in> set rs" and "s \<in> set rs" and "p r" and "\<not> p s"
  shows "k r \<noteq> k s"
  using assms by (auto simp: distinct_map dest: inj_onD)

lemma foreign_delete_worker:
  assumes "ran (DeleteWorkerByOwner wid u) d d'" and "db_ok d"
  shows "foreign u (tab d') = foreign u (tab d)"
proof -
  obtain r where r: "DeleteWorkerByOwner wid u d = (r, d')"
    using assms(1) by (cases "DeleteWorkerByOwner wid u d") (simp add: ran_def)
  have "tab d' = tab d \<or> tab d' = delete_cascade wid u (tab d)"
    using r unfolding DeleteWorkerByOwner_def db_bind_def
    by (auto simp: found_rows_def split: prod.splits sum.splits if_splits dest!: sql_exec_Inr sql_exec_err)
  moreover have "foreign u (delete_cascade wid u (tab d)) = foreign u (tab d)"
  proof -
    let ?t = "tab d" and ?p = "owned wid u"
    have ws: "foreign_workers u (delete_cascade wid u ?t) = foreign_workers u ?t"
      unfolding foreign_workers_def delete_cascade_def by (simp, rule filter_delete_where) (simp add: owned_def)
    have "\<not> v_WorkerID v \<in> w_ID ` set (foreign_workers u ?t)"
      if "v_WorkerID v \<in> set (map w_ID (filter ?p (t_workers ?t)))" for v
      using that distinct_img_diff [OF db_ok_workers [OF assms(2)], where p = ?p]
      by (fastforce simp: foreign_workers_def owned_def)
    then have "filter (\<lambda>v. v_WorkerID v \<in> w_ID ` set (foreign_workers u ?t)) (delete_where (\<lambda>v. v_WorkerID v \<in> set (map w_ID (filter ?p (t_workers ?t)))) (t_versions ?t)) =
        filter (\<lambda>v. v_WorkerID v \<in> w_ID ` set (foreign_workers u ?t)) (t_versions ?t)"
      by (intro filter_delete_where) blast
    with ws show ?thesis by (simp add: foreign_def) (simp add: delete_cascade_def foreign_resources_def)
  qed
  ultimately show ?thesis by metis
qed

lemma foreign_delete_resource:
  assumes "ran (DeleteCombinatorResource u ty rid) d d'" and "db_ok d"
  shows "foreign u (tab d') = foreign u (tab d)"
proof -
  let ?t = "tab d" and ?p = "is_resource u ty rid"
  let ?t' = "?t\<lparr>t_resources := delete_where ?p (t_resources ?t),
     t_reports := delete_where (\<lambda>r. rr_resource_id r \<in> set (map cr_ID (filter ?p (t_resources ?t)))) (t_reports ?t)\<rparr>"
  obtain r where r: "DeleteCombinatorResource u ty rid d = (r, d')"
    using assms(1) by (cases "DeleteCombinatorResource u ty rid d") (simp add: ran_def)
  then have "tab d' = ?t \<or> tab d' = ?t'"
    unfolding DeleteCombinatorResource_def Let_def by (cases r) (auto dest!: sql_exec_Inr sql_exec_err)
  moreover have "foreign u ?t' = foreign u ?t"
  proof -
    have rs: "foreign_resources u ?t' = foreign_resources u ?t"
      unfolding foreign_resources_def by (simp, rule filter_delete_where) (simp add: is_resource_def)
    have "\<not> rr_resource_id v \<in> cr_ID ` set (foreign_resources u ?t)"
      if "rr_resource_id v \<in> set (map cr_ID (filter ?p (t_resources ?t)))" for v
      using that distinct_img_diff [OF db_ok_resources [OF assms(2)], where p = ?p]
      by (fastforce simp: foreign_resources_def is_resource_def)
    then have "filter (\<lambda>v. rr_resource_id v \<in> cr_ID ` set (foreign_resources u ?t)) (delete_where (\<lambda>r. rr_resource_id r \<in> set (map cr_ID (filter ?p (t_resources ?t)))) (t_reports ?t)) =
        filter (\<lambda>v. rr_resource_id v \<in> cr_ID ` set (foreign_resources u ?t)) (t_reports ?t)"
      by (intro filter_delete_where) blast
    with rs show ?thesis by (simp add: foreign_def) (simp add: foreign_workers_def)
  qed
  ultimately show ?thesis by metis
qed

text \<open>An insert of a row of the user is invisible to the others, and no own statement touches their rows.\<close>

lemma ran_insert:
  assumes "ran (sql_insert tb n f) d d'" and "P (tab d)"
    and "\<And>x t. f (db_seq d tb) (db_now d) (tab d) = Inr (x, t) \<Longrightarrow> P t"
  shows "P (tab d')"
proof -
  obtain r where r: "sql_insert tb n f d = (r, d')"
    using assms(1) by (cases "sql_insert tb n f d") (simp add: ran_def)
  then show ?thesis using assms(2,3) by (cases r) (auto dest!: sql_insert_err sql_insert_ok)
qed

lemma foreign_inserts:
  "ran (CreateWorker wid u nm) d d' \<Longrightarrow> foreign u (tab d') = foreign u (tab d)"
  "ran (CreateCombinatorResource u ty rid) d d' \<Longrightarrow> foreign u (tab d') = foreign u (tab d)"
  "ran (CreateCustomDomain cdid u dn target tn tv st) d d' \<Longrightarrow> foreign u (tab d') = foreign u (tab d)"
proof -
  have ins: "foreign u (tab d') = foreign u (tab d)"
    if "ran (sql_insert tb 1 f) d d'"
      and "\<And>i now t x. f i now (tab d) = Inr (x, t) \<Longrightarrow> foreign u t = foreign u (tab d)"
    for tb and f :: "int \<Rightarrow> int \<Rightarrow> tables \<Rightarrow> err + unit \<times> tables"
    using ran_insert [OF that(1), where P = "\<lambda>t. foreign u t = foreign u (tab d)"] that(2) by blast
  note foreign_defs = foreign_def foreign_workers_def foreign_resources_def new_resource_def new_domain_def
  show "ran (CreateWorker wid u nm) d d' \<Longrightarrow> foreign u (tab d') = foreign u (tab d)"
    unfolding CreateWorker_def by (erule ins) (auto split: if_splits simp: foreign_defs simp del: set_filter)
  show "ran (CreateCombinatorResource u ty rid) d d' \<Longrightarrow> foreign u (tab d') = foreign u (tab d)"
    unfolding CreateCombinatorResource_def by (erule ins) (auto simp: foreign_defs simp del: set_filter)
  show "ran (CreateCustomDomain cdid u dn target tn tv st) d d' \<Longrightarrow> foreign u (tab d') = foreign u (tab d)"
    unfolding CreateCustomDomain_def by (erule ins) (auto split: if_splits simp: foreign_defs)
qed

lemma foreign_status:
  assumes "own_domain u cdid d" and "ran (UpdateCustomDomainStatus cdid st) d d'"
  shows "foreign u (tab d') = foreign u (tab d)"
proof -
  let ?f = "update_where (\<lambda>c. cd_CDID c = cdid) (cd_Status_update (\<lambda>_. st)) (t_domains (tab d))"
  obtain r where r: "UpdateCustomDomainStatus cdid st d = (r, d')"
    using assms(2) by (cases "UpdateCustomDomainStatus cdid st d") (simp add: ran_def)
  then have "tab d' = tab d \<or> tab d' = (tab d)\<lparr>t_domains := ?f\<rparr>"
    unfolding UpdateCustomDomainStatus_def by (cases r) (auto dest!: sql_exec_Inr sql_exec_err)
  moreover have upd: "filter (\<lambda>c. cd_UserUID c \<noteq> u) (update_where (\<lambda>c. cd_CDID c = cdid) (cd_Status_update (\<lambda>_. st)) cs) =
      filter (\<lambda>c. cd_UserUID c \<noteq> u) cs"
    if "\<forall>c \<in> set cs. cd_CDID c = cdid \<longrightarrow> cd_UserUID c = u" for cs
    using that by (induction cs) (auto simp: update_where_def)
  ultimately show ?thesis
    using assms(1) upd [of "t_domains (tab d)"]
    by (auto simp: foreign_def foreign_workers_def foreign_resources_def own_domain_def simp del: set_filter)
qed

lemma own_step_foreign:
  assumes "own_step u d d'" and "db_ok d"
  shows "foreign u (tab d') = foreign u (tab d)"
  using assms
proof (cases rule: own_step.cases)
  case (env wid j)
  then show ?thesis unfolding SetWorkerEnvByOwner_def by (rule foreign_set_by_owner) simp_all
next
  case (secrets wid j)
  then show ?thesis unfolding SetWorkerSecretsByOwner_def by (rule foreign_set_by_owner) simp_all
qed (use assms(2) in \<open>auto intro: foreign_delete_worker foreign_delete_resource foreign_inserts foreign_status\<close>)

lemma own_steps_foreign:
  "(own_step u)\<^sup>*\<^sup>* d d' \<Longrightarrow> db_ok d \<Longrightarrow> foreign u (tab d') = foreign u (tab d)"
proof (induction rule: rtranclp_induct)
  case (step y z)
  then have "db_ok y" using db_steps_ok own_steps_db by blast
  with step show ?case by (simp add: own_step_foreign)
qed simp

section \<open>Handlers as steps\<close>

definition pool_inv :: "'k gateway \<Rightarrow> bool" where
  "pool_inv g \<longleftrightarrow> (\<forall>m. wd_rdb (gw g) = Some m \<longrightarrow> pool_ok m)"

text \<open>What the gateway posted are tasks of jobs.\<close>

definition tasks_only :: "'k gateway \<Rightarrow> bool" where
  "tasks_only g \<longleftrightarrow> list_all (\<lambda>t. \<exists>now j. snd t = task_of now j) (gw_sent g)"

text \<open>From \<open>g\<close> to \<open>g'\<close> by statements of \<open>R\<close>, the connection pool's invariant kept and only tasks posted.\<close>

definition moves :: "(db \<Rightarrow> db \<Rightarrow> bool) \<Rightarrow> 'k gateway \<Rightarrow> 'k gateway \<Rightarrow> bool" where
  "moves R g g' \<longleftrightarrow> R\<^sup>*\<^sup>* (wd_db (gw g)) (wd_db (gw g')) \<and> (pool_inv g \<longrightarrow> pool_inv g') \<and>
     (tasks_only g \<longrightarrow> tasks_only g')"

lemma moves_refl [simp]: "moves R g g"
  by (simp add: moves_def)

lemma moves_trans: "moves R g g1 \<Longrightarrow> moves R g1 g2 \<Longrightarrow> moves R g g2"
  unfolding moves_def by (meson rtranclp_trans)

lemma moves_mono: "(\<And>d d'. R d d' \<Longrightarrow> S d d') \<Longrightarrow> moves R g g' \<Longrightarrow> moves S g g'"
  unfolding moves_def by (metis mono_rtranclp)

lemma gw_db_moves: "gw_db op g = (r, g') \<Longrightarrow> R (wd_db (gw g)) (snd (op (wd_db (gw g)))) \<Longrightarrow> moves R g g'"
  by (auto simp: moves_def gw_db_def on_db_def pool_inv_def tasks_only_def split: prod.splits)

lemma gw_db_ran: "gw_db op g = (r, g') \<Longrightarrow> ran op (wd_db (gw g)) (wd_db (gw g'))"
  by (simp add: ran_def gw_db_run)

lemma SendTask_moves: "SendTask now j g = (r, g') \<Longrightarrow> moves R g g'"
  using SendTask_frame by (fastforce simp: moves_def pool_inv_def tasks_only_def)

text \<open>The handlers' control structures, for proofs by introduction.\<close>

lemma moves_db:
  assumes "R (wd_db (gw g)) (snd (op (wd_db (gw g))))"
    and "\<And>e g1. gw_db op g = (Inl e, g1) \<Longrightarrow> moves R g1 (snd (A e g1))"
    and "\<And>y g1. gw_db op g = (Inr y, g1) \<Longrightarrow> moves R g1 (snd (B y g1))"
  shows "moves R g (snd (case gw_db op g of (Inl e, g1) \<Rightarrow> A e g1 | (Inr y, g1) \<Rightarrow> B y g1))"
proof -
  obtain r g1 where r: "gw_db op g = (r, g1)" by (cases "gw_db op g")
  then have "moves R g g1" using assms(1) by (rule gw_db_moves)
  then show ?thesis using r assms(2,3) by (cases r) (auto intro: moves_trans)
qed

lemma moves_send:
  assumes "\<And>e g1. moves R g1 (snd (A e g1))" and "\<And>g1. moves R g1 (snd (B g1))"
  shows "moves R g (snd (case SendTask now j g of (Some e, g1) \<Rightarrow> A e g1 | (None, g1) \<Rightarrow> B g1))"
proof -
  obtain r g1 where r: "SendTask now j g = (r, g1)" by (cases "SendTask now j g")
  then have "moves R g g1" by (rule SendTask_moves)
  then show ?thesis using r assms by (cases r) (auto intro: moves_trans)
qed

lemma moves_body:
  assumes "\<And>r. bind_body f (q_body q) = Some r \<Longrightarrow> moves R g (snd (h r g))"
  shows "moves R g (snd (with_body x f q h g))"
  using assms by (auto simp: with_body_def split: option.split)

lemma moves_if: "moves R g (snd A) \<Longrightarrow> moves R g (snd B) \<Longrightarrow> moves R g (snd (if c then A else B))"
  by simp

lemma moves_pair: "moves R g g' \<Longrightarrow> moves R g (snd (r, g'))"
  by simp

lemma moves_sent: "moves R g (snd (SendTask now j g))"
  by (metis SendTask_moves prod.collapse)

lemma query_own: "own_step u d (snd (sql_query q d))"
proof -
  have "\<exists>fs. snd (sql_query q d) = d\<lparr>db_faults := fs\<rparr>"
    by (cases "db_faults d" rule: list.exhaust)
      (auto simp: sql_query_def run_stmt_def split: option.splits intro: exI [of _ "db_faults d"])
  then show ?thesis by (auto intro: own_step.read)
qed

lemma own_reads:
  "own_step u d (snd (ListWorkersByUser v d))"
  "own_step u d (snd (GetWorkerByOwner wid v d))"
  "own_step u d (snd (ListDeployVersions i l n d))"
  "own_step u d (snd (GetWorkerEnvByOwner wid v d))"
  "own_step u d (snd (GetWorkerSecretsByOwner wid v d))"
  "own_step u d (snd (GetCombinatorResource v ty rid d))"
  "own_step u d (snd (ListCombinatorResources v ty d))"
  "own_step u d (snd (GetCustomDomain cdid d))"
  "own_step u d (snd (ListCustomDomains v d))"
  by (simp_all add: ListWorkersByUser_def GetWorkerByOwner_def ListDeployVersions_def
      GetWorkerEnvByOwner_def GetWorkerSecretsByOwner_def GetCombinatorResource_def
      ListCombinatorResources_def GetCustomDomain_def ListCustomDomains_def query_own)

lemma own_writes:
  "own_step u d (snd (CreateWorker wid u n d))"
  "own_step u d (snd (SetWorkerEnvByOwner wid u j d))"
  "own_step u d (snd (SetWorkerSecretsByOwner wid u j d))"
  "own_step u d (snd (DeleteWorkerByOwner wid u d))"
  "own_step u d (snd (CreateCombinatorResource u ty rid d))"
  "own_step u d (snd (DeleteCombinatorResource u ty rid d))"
  "own_step u d (snd (CreateCustomDomain cdid u dn target tn tv st d))"
  by (auto intro: own_step.intros simp: ran_def)

lemmas moves_intros = moves_body moves_db moves_send moves_if moves_pair moves_refl own_reads own_writes

lemma worker_handlers:
  "moves (own_step u) g (snd (WorkerHandler_CreateWorker x rn u q g))"
  "moves (own_step u) g (snd (WorkerHandler_DeleteWorker now u q g))"
  "moves (own_step u) g (snd (WorkerHandler_ListWorkers u q g))"
  "moves (own_step u) g (snd (WorkerHandler_GetWorker x u q g))"
  "moves (own_step u) g (snd (WorkerHandler_GetWorkerEnv u q g))"
  "moves (own_step u) g (snd (WorkerHandler_SetWorkerEnv x now u q g))"
  "moves (own_step u) g (snd (WorkerHandler_GetWorkerSecrets u q g))"
  "moves (own_step u) g (snd (WorkerHandler_SetWorkerSecrets x now u q g))"
proof -
  show "moves (own_step u) g (snd (WorkerHandler_ListWorkers u q g))"
    unfolding WorkerHandler_ListWorkers_def by (intro moves_intros)
  show "moves (own_step u) g (snd (WorkerHandler_GetWorkerEnv u q g))"
    unfolding WorkerHandler_GetWorkerEnv_def by (intro moves_intros)
  show "moves (own_step u) g (snd (WorkerHandler_GetWorkerSecrets u q g))"
    unfolding WorkerHandler_GetWorkerSecrets_def by (intro moves_intros)
  show "moves (own_step u) g (snd (WorkerHandler_GetWorker x u q g))"
    unfolding WorkerHandler_GetWorker_def by (intro moves_intros)
  show "moves (own_step u) g (snd (WorkerHandler_SetWorkerEnv x now u q g))"
    unfolding WorkerHandler_SetWorkerEnv_def Let_def by (intro moves_intros)
  show "moves (own_step u) g (snd (WorkerHandler_SetWorkerSecrets x now u q g))"
    unfolding WorkerHandler_SetWorkerSecrets_def Let_def
    by (rule moves_body, rename_tac r, case_tac r, simp only: prod.case) (intro moves_intros)
  show "moves (own_step u) g (snd (WorkerHandler_DeleteWorker now u q g))"
    unfolding WorkerHandler_DeleteWorker_def Let_def
    by (rule moves_trans [OF moves_sent [of _ _ now "NewDeleteWorkerCRJob (q_param q ''id'') u"]]) (intro moves_intros)
  show "moves (own_step u) g (snd (WorkerHandler_CreateWorker x rn u q g))"
    unfolding WorkerHandler_CreateWorker_def Let_def
    by (rule moves_body) (auto dest!: bind_body_strs_length simp: length_Suc_conv intro!: moves_intros)
qed

lemma create_resource_moves:
  "moves (own_step u) g (snd (create_resource now rn u ty job g))"
  unfolding create_resource_def Let_def by (intro moves_intros)

lemma delete_resource_moves:
  "moves (own_step u) g (snd (delete_resource now u ty job q g))"
  unfolding delete_resource_def Let_def by (intro moves_intros)

lemma on_rdb_moves:
  assumes "keeps_pool op" and "wd_rdb (gw g) = Some m"
  shows "moves R g (g\<lparr>gw := snd (on_rdb op m (gw g))\<rparr>)"
  using assms by (auto simp: moves_def pool_inv_def tasks_only_def on_rdb_def case_prod_beta keeps_poolD)

lemma rdb_size_moves:
  assumes "keeps_pool op"
  shows "moves R g (snd (rdb_size op g))"
proof (cases "wd_rdb (gw g)")
  case (Some m)
  with on_rdb_moves [OF assms Some, of R] show ?thesis
    by (cases "on_rdb op m (gw g)") (auto simp: rdb_size_def split: sum.split)
qed (simp add: rdb_size_def)

lemma moves_size:
  assumes "keeps_pool op" and "\<And>n g1. moves R g1 (snd (B n g1))"
  shows "moves R g (snd (case rdb_size op g of (n, g1) \<Rightarrow> B n g1))"
  using rdb_size_moves [OF assms(1), of R g] assms(2)
  by (cases "rdb_size op g") (auto intro: moves_trans)

lemma size_keeps_pool: "keeps_pool (DatabaseSize v)" "keeps_pool (SchemaSize v sid)"
  unfolding DatabaseSize_def SchemaSize_def by (intro pool_keepers)+

lemma resource_handlers:
  "moves (own_step u) g (snd (CombinatorHandler_CreateRDB x now rn u q g))"
  "moves (own_step u) g (snd (CombinatorHandler_CreateKV now rn u q g))"
  "moves (own_step u) g (snd (CombinatorHandler_ListRDBs x u q g))"
  "moves (own_step u) g (snd (CombinatorHandler_GetRDB x u q g))"
  "moves (own_step u) g (snd (CombinatorHandler_ListKVs x u q g))"
  "moves (own_step u) g (snd (CombinatorHandler_DeleteRDB now u q g))"
  "moves (own_step u) g (snd (CombinatorHandler_DeleteKV now u q g))"
proof -
  show "moves (own_step u) g (snd (CombinatorHandler_CreateRDB x now rn u q g))"
    unfolding CombinatorHandler_CreateRDB_def
    by (rule moves_body) (auto dest!: bind_body_strs_length simp: length_Suc_conv create_resource_moves)
  show "moves (own_step u) g (snd (CombinatorHandler_ListRDBs x u q g))"
    unfolding CombinatorHandler_ListRDBs_def by (intro moves_intros moves_size size_keeps_pool)
  show "moves (own_step u) g (snd (CombinatorHandler_GetRDB x u q g))"
    unfolding CombinatorHandler_GetRDB_def by (intro moves_intros moves_size size_keeps_pool)
  show "moves (own_step u) g (snd (CombinatorHandler_ListKVs x u q g))"
    unfolding CombinatorHandler_ListKVs_def by (intro moves_intros)
qed (simp_all add: CombinatorHandler_CreateKV_def CombinatorHandler_DeleteRDB_def CombinatorHandler_DeleteKV_def
      create_resource_moves delete_resource_moves)

section \<open>Domains\<close>

lemma verify_rounds_rdb: "wd_rdb (snd (verify_rounds n K cd s)) = wd_rdb s"
proof (induction n arbitrary: s)
  case (Suc n)
  have "wd_rdb (snd (CreateIngressRoute K c t)) = wd_rdb t" for c and t :: "'a world"
    by (auto simp: CreateIngressRoute_def on_kube_def split: prod.splits option.splits)
  then show ?case using Suc.IH [of "s\<lparr>wd_lookups := wd_lookups s + 1\<rparr>"]
    by (simp add: VerifyTXT_res Let_def split: bool.splits)
qed simp

lemma CreateCustomDomain_row:
  assumes "CreateCustomDomain cdid u dn target tn tv st d = (Inr y, d')"
  shows "\<exists>w. t_domains (tab d') = t_domains (tab d) @ [w] \<and> cd_UserUID w = u \<and>
    (\<forall>c \<in> set (t_domains (tab d)). cd_CDID c \<noteq> cdid)"
proof -
  let ?w = "new_domain (db_seq d Domains) cdid u dn target tn tv st (db_now d)"
  from sql_insert_ok [OF assms [unfolded CreateCustomDomain_def]]
  have "(tab d)\<lparr>t_domains := t_domains (tab d) @ [?w]\<rparr> = tab d'"
    "\<forall>c \<in> set (t_domains (tab d)). cd_CDID c \<noteq> cdid"
    by (auto simp: list_ex_iff split: if_splits)
  then have "t_domains (tab d') = t_domains (tab d) @ [?w]" by (metis tables.select_convs(3) tables.surjective tables.update_convs(3))
  with \<open>\<forall>c \<in> _. _\<close> show ?thesis by (intro exI [of _ ?w]) (simp add: new_domain_def)
qed

lemma NewCustomDomain_own:
  assumes "NewCustomDomain b1 b2 now u dn target s = (r, s')"
  shows "own_step u (wd_db s) (wd_db s') \<and> wd_rdb s' = wd_rdb s \<and>
    (\<forall>cd. r = Inr cd \<longrightarrow> own_domain u (cd_CDID cd) (wd_db s'))"
proof -
  let ?cdid = "take 8 (generateVerifyToken b1)"
  let ?op = "CreateCustomDomain ?cdid u dn target (''_combinator-verify.'' @ dn)
    (''combinator-verify='' @ generateVerifyToken b2) DomainStatusPending"
  obtain v s1 where v: "on_db ?op s = (v, s1)" by (cases "on_db ?op s")
  then have run: "?op (wd_db s) = (v, wd_db s1)" and rdb: "wd_rdb s1 = wd_rdb s"
    by (auto simp: on_db_def split: prod.splits)
  have "own_step u (wd_db s) (wd_db s1)" using own_writes(7) run by (metis snd_conv)
  moreover have "own_domain u ?cdid (wd_db s1)" if "v = Inr y" for y
    using CreateCustomDomain_row [OF run [unfolded that]] by (auto simp: own_domain_def)
  ultimately show ?thesis using assms v rdb
    by (cases v) (auto simp: NewCustomDomain_def Let_def new_domain_def)
qed

lemma domain_handlers:
  "moves (own_step u) g (snd (AddCustomDomain K x now rn u q g))"
  "moves (own_step u) g (snd (Handler_ListCustomDomains x u q g))"
  "moves (own_step u) g (snd (Handler_GetCustomDomain x u q g))"
proof -
  have add: "moves (own_step u) g (snd (case NewCustomDomain (en_id rn) (en_token rn) now u dn target (gw g) of
      (Inl e, s) \<Rightarrow> (A e, g\<lparr>gw := s\<rparr>) | (Inr cd, s) \<Rightarrow> (B cd, g\<lparr>gw := snd (StartVerification K cd s)\<rparr>)))" for dn target A B
  proof -
    obtain r s where n: "NewCustomDomain (en_id rn) (en_token rn) now u dn target (gw g) = (r, s)"
      by (cases "NewCustomDomain (en_id rn) (en_token rn) now u dn target (gw g)")
    note own = NewCustomDomain_own [OF n]
    show ?thesis
    proof (cases r)
      case (Inl e)
      with n own show ?thesis by (auto simp: moves_def pool_inv_def tasks_only_def)
    next
      case (Inr cd)
      let ?t = "snd (StartVerification K cd s)"
      have "\<exists>st. wd_db ?t = snd (UpdateCustomDomainStatus (cd_CDID cd) st (wd_db s))"
        unfolding StartVerification_def using verify_rounds_res by blast
      with own Inr have "own_step u (wd_db s) (wd_db ?t)" by (auto simp: ran_def intro: own_step.status)
      with own have "(own_step u)\<^sup>*\<^sup>* (wd_db (gw g)) (wd_db ?t)" by (meson converse_rtranclp_into_rtranclp r_into_rtranclp)
      with n own Inr show ?thesis
        by (simp add: moves_def pool_inv_def tasks_only_def StartVerification_def verify_rounds_rdb)
    qed
  qed
  show "moves (own_step u) g (snd (AddCustomDomain K x now rn u q g))"
    unfolding AddCustomDomain_def
    by (rule moves_body) (auto dest!: bind_body_strs_length simp: length_Suc_conv add)
  show "moves (own_step u) g (snd (Handler_ListCustomDomains x u q g))"
    using own_reads(9) [of u "wd_db (gw g)" u]
    by (auto simp: Handler_ListCustomDomains_def k8s_ListCustomDomains_def on_db_def moves_def pool_inv_def tasks_only_def
        split: prod.splits sum.splits)
  show "moves (own_step u) g (snd (Handler_GetCustomDomain x u q g))"
    using own_reads(8) [of u "wd_db (gw g)" "q_param q ''id''"]
    by (auto simp: Handler_GetCustomDomain_def k8s_GetCustomDomain_def on_db_def moves_def pool_inv_def tasks_only_def
        split: prod.splits sum.splits)
qed

lemma delete_domain_moves: "moves db_step g (snd (Handler_DeleteCustomDomain K u q g))"
proof -
  let ?op = "DeleteCustomDomain (q_param q ''id'')"
  have "db_step (wd_db (gw g)) (snd (?op (wd_db (gw g))))"
    by (intro db_step.intros(27)) (simp add: ran_def)
  then show ?thesis
    by (auto simp: Handler_DeleteCustomDomain_def k8s_DeleteCustomDomain_def on_db_def moves_def pool_inv_def tasks_only_def
        Let_def split: prod.splits sum.splits)
qed

section \<open>Accounts, deployments and the combinators' requests\<close>

lemma ran_self: "ran op d (snd (op d))"
  by (simp add: ran_def)

lemma layer_steps:
  "db_step d (snd (GetVerificationCode e c d))" "db_step d (snd (MarkCodeUsed i d))"
  "db_step d (snd (SaveVerificationCode e c n d))" "db_step d (snd (CreateUser v e h sk d))"
  "db_step d (snd (GetUserByEmail e d))" "db_step d (snd (UpdateUserPassword e h d))"
  "db_step d (snd (GetUserSecretKey v d))"
  "db_step d (snd (CreateDeployVersionForOwner wid v img port d))"
  "db_step d (snd (ListActiveCombinatorResources v d))"
  "db_step d (snd (BatchSaveCombinatorResourceReports rs d))"
  by (rule db_step.intros, rule ran_self)+

lemmas layer_intros = moves_body moves_db moves_send moves_if moves_pair moves_refl layer_steps

lemma moves_mark: "moves db_step g (snd (gw_db (MarkCodeUsed i) g))"
  by (metis gw_db_moves layer_steps(2) prod.collapse)

lemma register_user_moves: "moves db_step g (snd (register_user x now rn email pw code i g))"
proof -
  have send: "moves db_step g1 (snd (case SendTask now j (if b then snd (gw_db (MarkCodeUsed i) g1) else g1) of
      (Some e, g3) \<Rightarrow> (A e, g3) | (None, g3) \<Rightarrow> (B, g3)))" for g1 :: "'a gateway" and j b A B
    by (rule moves_trans [where ?g1.0 = "if b then snd (gw_db (MarkCodeUsed i) g1) else g1"])
      (simp add: moves_mark, intro layer_intros)
  show ?thesis
    unfolding register_user_def Let_def
    by (cases "HashPassword (x_bcrypt x) pw (en_salt rn)") (auto intro!: moves_db layer_steps send)
qed

lemma register_code_moves: "moves db_step g (snd (register_code now email code g))"
  unfolding register_code_def by (intro layer_intros) (auto intro!: moves_if)

lemma account_handlers:
  "moves db_step g (snd (Register x now rn q g))"
  "moves db_step g (snd (Login x now q g))"
  "moves db_step g (snd (SendCode x now q g))"
  "moves db_step g (snd (ResetPassword x now rn q g))"
proof -
  show "moves db_step g (snd (Login x now q g))"
    unfolding Login_def
    by (rule moves_body) (auto dest!: bind_body_strs_length simp: length_Suc_conv intro!: moves_db layer_steps)
  show "moves db_step g (snd (Register x now rn q g))"
    unfolding Register_def
  proof (rule moves_body)
    fix vs assume "bind_body bind_register (q_body q) = Some vs"
    then have "length vs = 3" unfolding bind_register_def using bind_body_strs_length by fastforce
    then obtain e p c where vs: "vs = [e, p, c]" by (auto simp: numeral_3_eq_3 length_Suc_conv)
    obtain r g1 where r: "register_code now e c g = (r, g1)" by (cases "register_code now e c g")
    then have "moves db_step g g1" using register_code_moves by (metis snd_conv)
    then show "moves db_step g (snd ((case vs of [email, password, code] \<Rightarrow>
        (case register_code now email code g of (Inl resp, g1) \<Rightarrow> (resp, g1)
         | (Inr codeID, g1) \<Rightarrow> register_user x now rn email password code codeID g1))))"
      using vs r by (cases r) (auto intro: moves_trans register_user_moves)
  qed
  have mail: "moves db_step g (g\<lparr>gw_mails := ms\<rparr>)" for ms by (simp add: moves_def pool_inv_def tasks_only_def)
  show "moves db_step g (snd (SendCode x now q g))"
    unfolding SendCode_def
  proof (rule moves_body)
    fix vs assume "bind_body (bind_strs [(''email'', \<lambda>s. required s \<and> x_is_email x s)]) (q_body q) = Some vs"
    then obtain e where vs: "vs = [e]" by (auto dest!: bind_body_strs_length simp: length_Suc_conv)
    obtain r g1 where r: "send_mail (code_mail e (GenerateCode now)) g = (r, g1)"
      by (cases "send_mail (code_mail e (GenerateCode now)) g")
    then have "moves db_step g g1" using mail by (auto simp: send_mail_def)
    with vs r show "moves db_step g (snd ((case vs of [email] \<Rightarrow>
       (let code = GenerateCode now; expiresAt = now + 10 * 60 * 1000000000 in
        case send_mail (code_mail email code) g of
          (Inl e, g1) \<Rightarrow> (fails 500 (''failed to send email, '' @ err_text e), g1)
        | (Inr sent, g1) \<Rightarrow>
            (case gw_db (SaveVerificationCode email code expiresAt) g1 of
               (Inl _, g2) \<Rightarrow> (fails 500 ''failed to save code'', g2)
             | (Inr _, g2) \<Rightarrow>
                 (respond 200 [(''code'', JStr code), (''message'', JStr ''code sent''), (''misc'', sent)], g2))))))"
      by (cases r) (auto simp: Let_def intro!: moves_db layer_steps intro: moves_trans [of _ g g1])
  qed
  show "moves db_step g (snd (ResetPassword x now rn q g))"
    unfolding ResetPassword_def
    by (rule moves_body)
      (auto dest!: bind_body_strs_length simp: numeral_3_eq_3 length_Suc_conv split: sum.split
        intro!: moves_db layer_steps moves_mark)
qed

lemma other_handlers:
  "moves db_step g (snd (WorkerHandler_DeployWorker x now v q g))"
  "moves db_step g (snd (RetrieveSecretByID q g))"
  "moves db_step g (snd (ReportUsage x q g))"
proof -
  show "moves db_step g (snd (WorkerHandler_DeployWorker x now v q g))"
    unfolding WorkerHandler_DeployWorker_def
    by (rule moves_body, rename_tac r, case_tac r, simp only: prod.case) (intro layer_intros)
  show "moves db_step g (snd (RetrieveSecretByID q g))"
    unfolding RetrieveSecretByID_def Let_def by (intro layer_intros)
  show "moves db_step g (snd (ReportUsage x q g))"
    unfolding ReportUsage_def by (auto split: option.split intro!: layer_intros)
qed

section \<open>Requests\<close>

lemma signature_moves:
  assumes "\<And>v q g1. moves db_step g1 (snd (h v q g1))"
  shows "moves db_step g (snd (SignatureMiddleware h q g))"
  unfolding SignatureMiddleware_def Let_def
  by (intro layer_intros) (auto split: option.split intro: assms)

lemma auth_cases:
  obtains u where "ValidateToken (x_jwt x) now (trim_prefix ''Bearer '' (q_headers q ''Authorization'')) = Inr u"
    "has_prefix ''Bearer '' (q_headers q ''Authorization'')" "AuthMiddleware x now h q g = h u q g"
  | msg where "AuthMiddleware x now h q g = (fails 401 msg, g)"
proof -
  let ?a = "q_headers q ''Authorization''"
  consider "?a = '''' \<or> \<not> has_prefix ''Bearer '' ?a"
    | e where "\<not> (?a = '''' \<or> \<not> has_prefix ''Bearer '' ?a)"
        "ValidateToken (x_jwt x) now (trim_prefix ''Bearer '' ?a) = Inl e"
    | u where "\<not> (?a = '''' \<or> \<not> has_prefix ''Bearer '' ?a)"
        "ValidateToken (x_jwt x) now (trim_prefix ''Bearer '' ?a) = Inr u"
    by (cases "ValidateToken (x_jwt x) now (trim_prefix ''Bearer '' ?a)") auto
  then show thesis
  proof cases
    case 1
    then show ?thesis by (intro that(2) [of "''unauthorized''"]) (simp add: AuthMiddleware_def Let_def)
  next
    case 2
    then show ?thesis by (intro that(2) [of "''invalid token''"]) (simp add: AuthMiddleware_def Let_def)
  next
    case 3
    then show ?thesis by (intro that(1)) (simp_all add: AuthMiddleware_def Let_def)
  qed
qed

lemma find_route_some:
  "find_route rs m path = Some (r, i) \<Longrightarrow> r \<in> set rs \<and> rt_method r = m \<and> match_path (rt_path r) path '''' = Some i"
  by (induction rs) (auto split: if_splits option.splits)

lemma match_path_literal: "'':id'' \<notin> set p \<Longrightarrow> match_path p path i = Some j \<Longrightarrow> path = p"
  by (induction p path i rule: match_path.induct) (auto split: if_splits)

lemma match_path_two:
  "match_path (a # b # p) path i = Some j \<Longrightarrow> a \<noteq> '':id'' \<Longrightarrow> b \<noteq> '':id'' \<Longrightarrow> take 2 path = [a, b]"
  by (cases path; cases "tl path") (auto simp: numeral_2_eq_2 split: if_splits)

text \<open>What a route does: its own steps, or steps of the layer.\<close>

lemma own_layer: "moves (own_step u) g g' \<Longrightarrow> moves db_step g g'"
  by (erule moves_mono [rotated]) (rule own_step_db)

lemma route_sel [simp]:
  "rt_method (route m p gd h) = m" "rt_path (route m p gd h) = p" "rt_guard (route m p gd h) = gd"
  "rt_handler (route m p gd h) = h"
  by (simp_all add: route_def)

definition deletes_domain :: "'k route \<Rightarrow> bool" where
  "deletes_domain r \<longleftrightarrow> rt_method r = ''DELETE'' \<and> rt_path r = [''api'', ''domain'', '':id'']"

lemma non_bearer_path:
  assumes "r \<in> set (outer_routes K x now rn)" and "rt_guard r \<noteq> Bearer" and "match_path (rt_path r) path i = Some j"
  shows "take 2 path = [''api'', ''auth''] \<and> rt_guard r = Public \<or>
    path = [''api'', ''worker'', ''deploy''] \<and> rt_guard r = Signed"
proof -
  have "'':id'' \<notin> set (rt_path r) \<and> (take 2 (rt_path r) = [''api'', ''auth''] \<and> rt_guard r = Public \<or>
      rt_path r = [''api'', ''worker'', ''deploy''] \<and> rt_guard r = Signed)"
    using assms(1,2)
    by (auto simp: outer_routes_def public_routes_def resource_routes_def worker_routes_def domain_routes_def
        sensitive_routes_def)
  with match_path_literal assms(3) show ?thesis by metis
qed

lemma bearer_routes_own:
  assumes "r \<in> set (outer_routes K x now rn)" and "rt_guard r = Bearer" and "\<not> deletes_domain r"
  shows "moves (own_step u) g (snd (rt_handler r u q g))"
  using assms
  by (auto simp: outer_routes_def public_routes_def resource_routes_def worker_routes_def domain_routes_def
      sensitive_routes_def deletes_domain_def worker_handlers resource_handlers domain_handlers)

lemma all_routes_layer:
  assumes "r \<in> set (outer_routes K x now rn)"
  shows "moves db_step g (snd (guarded x now (rt_guard r) (rt_handler r) q g))"
proof (cases "rt_guard r = Bearer \<and> \<not> deletes_domain r")
  case True
  with bearer_routes_own [OF assms] show ?thesis
    by (cases rule: auth_cases [of x now q "rt_handler r" g]) (auto simp: guarded_def intro: own_layer)
next
  case False
  with assms show ?thesis
    by (auto simp: outer_routes_def public_routes_def resource_routes_def worker_routes_def domain_routes_def
        sensitive_routes_def deletes_domain_def guarded_def account_handlers
        intro!: signature_moves other_handlers)
      (metis auth_cases delete_domain_moves moves_refl snd_conv)
qed

lemma serve_outer_moves: "moves db_step g (snd (serve_outer debug K x now rn db m path q g))"
  using find_route_some
  by (fastforce simp: serve_outer_def dispatch_def all_routes_layer split: option.split)

lemma inner_routes_layer:
  "r \<in> set (inner_routes x now) \<Longrightarrow> moves db_step g (snd (guarded x now (rt_guard r) (rt_handler r) q g))"
  by (auto simp: inner_routes_def guarded_def other_handlers)

lemma serve_inner_moves: "moves db_step (in_gw s) (in_gw (snd (serve_inner x now db v task m path q s)))"
proof -
  have "moves db_step g (snd (dispatch x now (inner_routes x now) m path q g))" for g :: "'a gateway"
    using find_route_some by (fastforce simp: dispatch_def inner_routes_layer split: option.split)
  then show ?thesis by (auto simp: serve_inner_def case_prod_beta)
qed

end
