(* ===== verification/ApiProps.thy ===== *)
theory ApiProps
  imports ApiSteps
begin

text \<open>
  What the requests to the two gateways achieve: the invariants they keep, what one user's requests
  leave of the others', what an anonymous caller can do, and the exact effect of the requests that
  change a worker's environment, its secrets and its deployment or a user's resources.
\<close>

section \<open>Invariants and isolation\<close>

text \<open>
  Every request to either gateway, whatever it contains and whichever statements fail, keeps the
  tables' integrity and the connection pool's invariant.
\<close>

theorem requests_keep_invariants:
  assumes "db_ok (wd_db (gw g))" and "\<forall>m. wd_rdb (gw g) = Some m \<longrightarrow> pool_ok m"
    and "db_ok (wd_db (gw (in_gw s)))" and "\<forall>m. wd_rdb (gw (in_gw s)) = Some m \<longrightarrow> pool_ok m"
  shows "(let g' = snd (serve_outer debug K x now rn h m path q g) in
      db_ok (wd_db (gw g')) \<and> (\<forall>m. wd_rdb (gw g') = Some m \<longrightarrow> pool_ok m)) \<and>
    (let g' = in_gw (snd (serve_inner x now h v task m path q s)) in
      db_ok (wd_db (gw g')) \<and> (\<forall>m. wd_rdb (gw g') = Some m \<longrightarrow> pool_ok m))"
  using serve_outer_moves [of g debug K x now rn h m path q] serve_inner_moves [of s x now h v task m path q] assms
  by (auto simp: Let_def moves_def pool_inv_def db_steps_ok)

theorem requests_keep_invariants_witness:
  "db_ok (wd_db (gw (snd (serve_outer False mem_kube example_ext 5 example_entropy None ''POST''
     [''api'', ''auth'', ''register''] (json_request []) example_user_gateway))))"
  using requests_keep_invariants [of example_user_gateway "\<lparr>in_gw = example_user_gateway,
      in_proc = NewProcessor 256 4, in_cron = NewCronScheduler\<rparr>" False mem_kube example_ext 5 example_entropy
      None "''POST''" "[''api'', ''auth'', ''register'']" "json_request []"] example_user_gateway_ok
  by (simp add: example_user_gateway_def with_tab_def outer_world_def Let_def)

text \<open>
  C3: A request with a user's token, to any route that a token opens except the deletion of a domain,
  leaves every row of the other users as it was: their workers with the deploy versions, resources
  with their reports and domains, and all accounts, codes and tasks, whatever the request contains
  and whichever statements fail.
\<close>

theorem users_isolated:
  assumes "db_ok (wd_db (gw g))"
    and "ValidateToken (x_jwt x) now (trim_prefix ''Bearer '' (q_headers q ''Authorization'')) = Inr u"
    and "take 2 path \<noteq> [''api'', ''auth'']" and "path \<noteq> [''api'', ''worker'', ''deploy'']"
    and "take 2 path \<noteq> [''api'', ''domain''] \<or> m \<noteq> ''DELETE''"
  shows "foreign u (gw_tab (snd (serve_outer debug K x now rn h m path q g))) = foreign u (gw_tab g)"
proof (cases "find_route (outer_routes K x now rn) m path")
  case None
  then show ?thesis by (simp add: serve_outer_def dispatch_def)
next
  case (Some p)
  obtain r i where p: "p = (r, i)" by (cases p)
  let ?q = "q\<lparr>q_param := (\<lambda>n. if n = ''id'' then i else '''')\<rparr>"
  from find_route_some [OF Some [unfolded p]]
  have r: "r \<in> set (outer_routes K x now rn)" "rt_method r = m" "match_path (rt_path r) path '''' = Some i" by auto
  have "rt_guard r = Bearer" using non_bearer_path [OF r(1) _ r(3)] assms(3,4) by blast
  moreover have "\<not> deletes_domain r" using r(2,3) assms(5) by (auto simp: deletes_domain_def dest: match_path_two)
  ultimately have bd: "rt_guard r = Bearer \<and> \<not> deletes_domain r" ..
  then have "moves (own_step u) g (snd (rt_handler r u ?q g))" and b: "rt_guard r = Bearer"
    using bearer_routes_own [OF r(1)] by auto
  then have "foreign u (gw_tab (snd (rt_handler r u ?q g))) = foreign u (gw_tab g)"
    using own_steps_foreign assms(1) by (auto simp: moves_def)
  moreover have "snd (guarded x now (rt_guard r) (rt_handler r) ?q g) \<in> {g, snd (rt_handler r u ?q g)}"
    using b assms(2) by (auto simp: guarded_def AuthMiddleware_def Let_def)
  ultimately show ?thesis using Some p by (auto simp: serve_outer_def dispatch_def)
qed

section \<open>Two users\<close>

text \<open>Two accounts with a worker each, a domain and a resource of the second one; the token is a user's id.\<close>

definition row_of :: "int \<Rightarrow> string \<Rightarrow> string \<Rightarrow> worker" where
  "row_of i wid u = \<lparr>w_ID = i, w_WID = wid, w_UserUID = u, w_WorkerName = ''n'', w_Status = ''active'',
     w_ActiveVersionID = None, w_EnvJSON = Some (JObj [(''A'', JStr ''1'')]),
     w_SecretsJSON = Some (JArr [JStr ''S'']), w_CreatedAt = 0\<rparr>"

definition two_tables :: tables where
  "two_tables = empty_tables\<lparr>
     t_users := [new_user 0 ''u1'' ''a@b.c'' ''pw'' ''sk'' 0, new_user 1 ''u2'' ''d@e.f'' ''pw'' ''kk'' 0],
     t_workers := [row_of 0 ''w1'' ''u1'', row_of 1 ''w2'' ''u2''],
     t_domains := [new_domain 0 ''d2'' ''u2'' ''x.org'' ''t'' ''n'' ''v'' ''success'' 0],
     t_resources := [new_resource 0 ''u2'' ''kv'' ''r2'' 0]\<rparr>"

definition two_users :: "mem gateway" where
  "two_users = example_gateway\<lparr>gw := outer_world\<lparr>wd_db :=
     \<lparr>tab = two_tables, db_seq = (\<lambda>_. 9), db_now = 0, db_faults = []\<rparr>\<rparr>\<rparr>"

lemma two_users_sel [simp]:
  "gw_tab two_users = two_tables" "db_faults (wd_db (gw two_users)) = []" "db_seq (wd_db (gw two_users)) tb = 9"
  "db_now (wd_db (gw two_users)) = 0" "gw_post two_users n = Inr 200" "gw_sent two_users = []"
  "wd_rdb (gw two_users) = None"
  by (simp_all add: two_users_def outer_world_def)

lemma two_tables_sel [simp]:
  "t_users two_tables = [new_user 0 ''u1'' ''a@b.c'' ''pw'' ''sk'' 0, new_user 1 ''u2'' ''d@e.f'' ''pw'' ''kk'' 0]"
  "t_workers two_tables = [row_of 0 ''w1'' ''u1'', row_of 1 ''w2'' ''u2'']"
  "t_domains two_tables = [new_domain 0 ''d2'' ''u2'' ''x.org'' ''t'' ''n'' ''v'' ''success'' 0]"
  "t_resources two_tables = [new_resource 0 ''u2'' ''kv'' ''r2'' 0]"
  "t_versions two_tables = []" "t_reports two_tables = []" "t_codes two_tables = []" "t_tasks two_tables = []"
  by (simp_all add: two_tables_def empty_tables_def)

lemma row_of_sel [simp]:
  "w_ID (row_of i wid u) = i" "w_WID (row_of i wid u) = wid" "w_UserUID (row_of i wid u) = u"
  "w_EnvJSON (row_of i wid u) = Some (JObj [(''A'', JStr ''1'')])"
  "w_SecretsJSON (row_of i wid u) = Some (JArr [JStr ''S''])"
  by (simp_all add: row_of_def)

lemma two_users_ok: "db_ok (wd_db (gw two_users))"
proof -
  have "distinct (ids tb two_tables) \<and> (\<forall>i \<in> set (ids tb two_tables). i < 9)" for tb
    by (cases tb) (simp_all add: new_user_def new_domain_def new_resource_def)
  then show ?thesis
    by (simp add: db_ok_def seq_ok_def tables_ok_def) (simp add: new_user_def new_domain_def)
qed

definition token_request :: "string \<Rightarrow> json gomap \<Rightarrow> request" where
  "token_request tok ms = (json_request ms)\<lparr>q_headers := (\<lambda>n. if n = ''Authorization'' then ''Bearer '' @ tok else '''')\<rparr>"

lemma token_request_ok:
  "ValidateToken (x_jwt example_ext) now (trim_prefix ''Bearer '' (q_headers (token_request u ms) ''Authorization'')) = Inr u"
  "has_prefix ''Bearer '' (q_headers (token_request u ms) ''Authorization'')"
  by (simp_all add: token_request_def ValidateToken_def example_ext_def toy_jwt_def trim_prefix_def has_prefix_def)

theorem users_isolated_witness:
  "filter (\<lambda>w. w_UserUID w \<noteq> ''u1'') (t_workers (gw_tab (snd (serve_outer False mem_kube example_ext 5
     example_entropy None ''DELETE'' [''api'', ''worker'', ''w2''] (token_request ''u1'' []) two_users)))) =
   [row_of 1 ''w2'' ''u2'']"
proof -
  have "foreign ''u1'' (gw_tab (snd (serve_outer False mem_kube example_ext 5 example_entropy None ''DELETE''
      [''api'', ''worker'', ''w2''] (token_request ''u1'' []) two_users))) = foreign ''u1'' two_tables"
    using users_isolated [OF two_users_ok token_request_ok(1), of "[''api'', ''worker'', ''w2'']"] by simp
  then have "t_workers (foreign ''u1'' (gw_tab (snd (serve_outer False mem_kube example_ext 5 example_entropy None
      ''DELETE'' [''api'', ''worker'', ''w2''] (token_request ''u1'' []) two_users)))) =
    t_workers (foreign ''u1'' two_tables)" by simp
  then show ?thesis by (simp add: foreign_def foreign_workers_def)
qed

section \<open>Callers without a token\<close>


text \<open>
  C33: The deletion of a domain reads neither the caller's id nor the owner: with any valid token the
  request deletes the domain with that id, whoever owns it.
\<close>

theorem any_user_deletes_domain:
  assumes "ValidateToken (x_jwt x) now (trim_prefix ''Bearer '' (q_headers q ''Authorization'')) = Inr u"
    and "has_prefix ''Bearer '' (q_headers q ''Authorization'')"
    and "db_faults (wd_db (gw g)) = []" and "cdid \<noteq> ''''"
  shows "case serve_outer debug K x now rn h ''DELETE'' [''api'', ''domain'', cdid] q g of (r, g') \<Rightarrow>
    rs_status r = 200 \<and>
    t_domains (gw_tab g') = filter (\<lambda>c. cd_CDID c \<noteq> cdid) (t_domains (gw_tab g))"
proof -
  have ne: "q_headers q ''Authorization'' \<noteq> ''''" using assms(2) by (auto simp: has_prefix_def)
  have fr: "find_route (outer_routes K x now rn) ''DELETE'' [''api'', ''domain'', cdid] =
      Some (route ''DELETE'' [''api'', ''domain'', '':id''] Bearer (Handler_DeleteCustomDomain K), cdid)"
    using assms(4) by (simp add: outer_routes_def public_routes_def resource_routes_def worker_routes_def
        domain_routes_def sensitive_routes_def route_def)
  show ?thesis
    using assms ne fr
    by (simp add: serve_outer_def dispatch_def guarded_def AuthMiddleware_def Let_def Handler_DeleteCustomDomain_def
        k8s_DeleteCustomDomain_def DeleteCustomDomain_def on_db_def sql_exec_def run_stmt_def delete_where_def
        respond_def)
qed

section \<open>Deployments\<close>

lemma signed_reaches:
  assumes "db_ok (wd_db (gw g))" and "db_faults (wd_db (gw g)) = []"
    and "a \<in> set (t_users (gw_tab g))" and "q_headers q ''X-Combinator-User-ID'' = usr_UID a"
    and "q_raw q = Some body" and "usr_UID a \<noteq> ''''" and "q_headers q ''X-Combinator-Timestamp'' \<noteq> ''''"
    and "q_headers q ''X-Combinator-Signature'' =
      GenerateHMACSignature (usr_SecretKey a) (body @ q_headers q ''X-Combinator-Timestamp'')"
  shows "SignatureMiddleware h q g = h (usr_UID a) q g"
proof -
  have "first_row (\<lambda>u. usr_UID u = usr_UID a) (t_users (gw_tab g)) = Inr a"
    using assms(1,3) by (intro first_row_unique [where k = usr_UID]) (auto simp: db_ok_def tables_ok_def)
  then have "gw_db (GetUserSecretKey (usr_UID a)) g = (Inr (usr_SecretKey a), g)"
    using assms(2) by (simp add: GetUserSecretKey_def gw_query)
  moreover have "q_headers q ''X-Combinator-Signature'' \<noteq> ''''"
    using signature_length [of "usr_SecretKey a" "body @ q_headers q ''X-Combinator-Timestamp''"] assms(8) by auto
  ultimately show ?thesis using assms by (simp add: SignatureMiddleware_def VerifyHMACSignature_def)
qed

lemma deploy_steps:
  assumes "db_faults (wd_db (gw g)) = []" and "w \<in> set (t_workers (gw_tab g))" and "db_ok (wd_db (gw g))"
    and "int4 port"
  obtains g1 v where "gw_db (CreateDeployVersionForOwner (w_WID w) (w_UserUID w) img port) g = (Inr v, g1)"
    "gw_post g1 = gw_post g" "gw_sent g1 = gw_sent g"
    "t_versions (gw_tab g1) = t_versions (gw_tab g) @ [loading_version v (w_ID w) img port (db_now (wd_db (gw g)))]"
    "wd_kube (gw g1) = wd_kube (gw g)" "db_faults (wd_db (gw g1)) = []"
proof -
  let ?d = "wd_db (gw g)"
  have row: "first_row (owned (w_WID w) (w_UserUID w)) (t_workers (gw_tab g)) = Inr w"
    using assms(2,3)
    by (intro first_row_unique [where k = w_WID]) (auto simp: db_ok_def tables_ok_def owned_def)
  let ?d' = "?d\<lparr>db_seq := (db_seq ?d)(Versions := db_seq ?d Versions + 1), tab := (gw_tab g)\<lparr>
      t_workers := update_where (owned (w_WID w) (w_UserUID w)) (w_Status_update (\<lambda>_. ''loading'')) (t_workers (gw_tab g)),
      t_versions := t_versions (gw_tab g) @
        [loading_version (db_seq ?d Versions) (w_ID w) img port (db_now ?d)]\<rparr>\<rparr>"
  have "CreateDeployVersionForOwner (w_WID w) (w_UserUID w) img port ?d = (Inr (db_seq ?d Versions), ?d')"
    using assms(1,2,4) row
    by (simp add: CreateDeployVersionForOwner_def in_tx_def tx_begin_def tx_commit_def run_stmt_def db_bind_def
        update_loading_def sql_exec_def insert_version_def sql_insert_def Let_def update_where_img)
  then show thesis
    by (intro that [of "db_seq ?d Versions" "g\<lparr>gw := (gw g)\<lparr>wd_db := ?d'\<rparr>\<rparr>"])
      (simp_all add: gw_db_def on_db_def assms(1))
qed

text \<open>
  C27: A deployment takes the owner from the body of the request, not from the signature: whoever has an
  account and a key can deploy any image to any user's worker.  The new version is stored and the
  deployment's task goes out in the other user's name.
\<close>

theorem deploy_for_anyone:
  assumes "db_ok (wd_db (gw g))" and "db_faults (wd_db (gw g)) = []"
    and "a \<in> set (t_users (gw_tab g))" and "usr_UID a \<noteq> ''''" and "w \<in> set (t_workers (gw_tab g))"
    and "q_headers q ''X-Combinator-User-ID'' = usr_UID a"
    and "q_headers q ''X-Combinator-Timestamp'' \<noteq> ''''"
    and "q_headers q ''X-Combinator-Signature'' =
      GenerateHMACSignature (usr_SecretKey a) (body @ q_headers q ''X-Combinator-Timestamp'')"
    and "q_raw q = Some body" and "bind_body bind_deploy (q_body q) = Some (w_UserUID w, w_WID w, img, port)"
    and "int4 port" and "gw_post g (length (gw_sent g)) = Inr 200"
  shows "case serve_outer False K x now rn h ''POST'' [''api'', ''worker'', ''deploy''] q g of (r, g') \<Rightarrow>
    rs_status r = 200 \<and>
    (\<exists>v. t_versions (gw_tab g') = t_versions (gw_tab g) @ [loading_version v (w_ID w) img port (db_now (wd_db (gw g)))] \<and>
      gw_sent g' = gw_sent g @ [(ControlPlaneInnerEndpoint @ ''/api/acceptTask'',
        task_of now (DeployWorkerJob (w_WID w) (w_UserUID w) v))])"
proof -
  let ?q = "q\<lparr>q_param := (\<lambda>n. if n = ''id'' then '''' else '''')\<rparr>"
  have fr: "find_route (outer_routes K x now rn) ''POST'' [''api'', ''worker'', ''deploy''] =
      Some (route ''POST'' [''api'', ''worker'', ''deploy''] Signed (WorkerHandler_DeployWorker x now), '''')"
    by (simp add: outer_routes_def public_routes_def resource_routes_def worker_routes_def
        domain_routes_def sensitive_routes_def route_def)
  have "SignatureMiddleware (WorkerHandler_DeployWorker x now) ?q g = WorkerHandler_DeployWorker x now (usr_UID a) ?q g"
    using assms by (intro signed_reaches) auto
  moreover obtain g1 v where d: "gw_db (CreateDeployVersionForOwner (w_WID w) (w_UserUID w) img port) g = (Inr v, g1)"
    "gw_post g1 = gw_post g" "gw_sent g1 = gw_sent g"
    "t_versions (gw_tab g1) = t_versions (gw_tab g) @ [loading_version v (w_ID w) img port (db_now (wd_db (gw g)))]"
    using deploy_steps [OF assms(2,5,1,11)] by metis
  ultimately show ?thesis
    using fr assms(10,12)
    by (auto simp: serve_outer_def dispatch_def guarded_def WorkerHandler_DeployWorker_def with_body_def
        SendTask_def Let_def respond_def intro!: exI [of _ v])
qed

section \<open>Environment and secrets\<close>

text \<open>A change of the environment that answers 200: what it read, wrote and sent.\<close>

lemma set_env_ok:
  assumes "WorkerHandler_SetWorkerEnv x now u q g = (r, g')" and "rs_status r = 200"
    and "bind_body bind_kv (q_body q) = Some p" and "q_param q ''id'' = wid"
  obtains old where "env_of (gw_tab g) wid u = Some old"
    "env_of (gw_tab g') wid u = Some (Some (marshal_map (Some (merge_env p old))))"
    "\<And>wid' u'. (wid', u') \<noteq> (wid, u) \<Longrightarrow> env_of (gw_tab g') wid' u' = env_of (gw_tab g) wid' u'"
    "gw_sent g' = gw_sent g @ [(ControlPlaneInnerEndpoint @ ''/api/acceptTask'',
       task_of now (SyncEnvJob wid u (Some (merge_env p old))))]"
    "fst p \<noteq> ''COMBINATOR_API_ENDPOINT''"
    "rs_json r = marshal_map (Some (merge_env p old))"
proof -
  obtain v g1 where 1: "gw_db (GetWorkerEnvByOwner wid u) g = (v, g1)" by (cases "gw_db (GetWorkerEnvByOwner wid u) g")
  have ok: "fst p \<noteq> ''COMBINATOR_API_ENDPOINT''" "\<exists>old. v = Inr old"
    using assms 1 by (auto simp: WorkerHandler_SetWorkerEnv_def with_body_def fails_def respond_def Let_def
        split: if_splits sum.splits prod.splits)
  then obtain old where v: "v = Inr old" by blast
  let ?m = "merge_env p old"
  obtain w g2 where 2: "gw_db (SetWorkerEnvByOwner wid u (Some (marshal_map (Some ?m)))) g1 = (w, g2)"
    by (cases "gw_db (SetWorkerEnvByOwner wid u (Some (marshal_map (Some ?m)))) g1")
  obtain e g3 where 3: "SendTask now (SyncEnvJob wid u (Some ?m)) g2 = (e, g3)"
    by (cases "SendTask now (SyncEnvJob wid u (Some ?m)) g2")
  have "w = Inr ()" "e = None" "g' = g3" "rs_json r = marshal_map (Some ?m)"
    using assms 1 2 3 ok(1) v
    by (auto simp: WorkerHandler_SetWorkerEnv_def with_body_def fails_def respond_def Let_def
        split: sum.splits option.splits)
  moreover have "tab (wd_db (gw g1)) = gw_tab g" using env.get_tab [OF gw_db_run [OF 1]] .
  moreover note env.get_ok [OF gw_db_run [OF 1 [unfolded v]]] env.put_ok [OF gw_db_run [OF 2 [unfolded calculation(1)]]]
    SendTask_frame [OF 3] gw_db_sel [OF 1] gw_db_sel [OF 2] ok(1)
  ultimately show thesis by (intro that) auto
qed

lemma merge_env_get:
  "map_of (merge_env (k, v, del) old) = (map_of (or_empty (fst (unmarshal_map old))))(k := (if del then None else Some v)) \<and>
   map_ok (merge_env (k, v, del) old)"
proof -
  have "map_ok (or_empty (fst (unmarshal_map old)))"
    using unmarshal_map_ok [of old] by (auto simp: or_empty_def split: option.split)
  then show ?thesis by (simp add: merge_env_def gm.get_put gm.get_del gm.ok_put gm.ok_del)
qed

text \<open>
  C4: A change of a worker's environment that answers 200 reaches the cluster: the stored variables are
  the old ones with the one key set or removed, the answer and the posted task carry exactly those,
  the inner gateway decodes the task to that job, and running it puts them into the worker's ConfigMap
  when the worker has one and the update succeeds.
\<close>

theorem env_change_reaches_cluster:
  assumes "WorkerHandler_SetWorkerEnv x now u q g = (r, g')" and "rs_status r = 200"
    and "bind_body bind_kv (q_body q) = Some (k, v, del)" and "q_param q ''id'' = wid"
    and "kube_laws K view"
  shows "\<exists>old m. env_of (gw_tab g) wid u = Some old \<and>
    env_of (gw_tab g') wid u = Some (Some (marshal_map (Some m))) \<and>
    map_of m = (map_of (or_empty (fst (unmarshal_map old))))(k := (if del then None else Some v)) \<and>
    rs_json r = marshal_map (Some m) \<and>
    (case snd (last (gw_sent g')) of t \<Rightarrow>
      CreateJob (TaskType t) (case Data t of None \<Rightarrow> None | Some d \<Rightarrow> d) = Inr (Some (SyncEnvJob wid u (Some m)))) \<and>
    (\<forall>s ob k1 old'. g_K8sClient (wd_globals s) \<and> db_faults (wd_db s) = [] \<and>
      k_get K ConfigMaps WorkerNamespace (WorkerName wid u @ ''-env'') (wd_kube s) = (Inr ob, k1) \<and>
      o_name ob = WorkerName wid u @ ''-env'' \<and> o_body ob = ConfigMap old' \<longrightarrow>
      (case job_Do K ord (SyncEnvJob wid u (Some m)) s of (e, s') \<Rightarrow> e = None \<longrightarrow>
        view (wd_kube s') (ConfigMaps, WorkerNamespace, WorkerName wid u @ ''-env'') =
          Some (o_labels ob, ConfigMap (Some m))))"
proof -
  from set_env_ok [OF assms(1-4)] obtain old where old: "env_of (gw_tab g) wid u = Some old"
    "env_of (gw_tab g') wid u = Some (Some (marshal_map (Some (merge_env (k, v, del) old))))"
    "gw_sent g' = gw_sent g @ [(ControlPlaneInnerEndpoint @ ''/api/acceptTask'',
       task_of now (SyncEnvJob wid u (Some (merge_env (k, v, del) old))))]"
    "rs_json r = marshal_map (Some (merge_env (k, v, del) old))" by metis
  let ?m = "merge_env (k, v, del) old"
  let ?j = "SyncEnvJob wid u (Some ?m)"
  note m = merge_env_get [of k v del old]
  have "CreateJob (job_type ?j) (Some (marshal_job ?j)) = Inr (Some ?j)"
    using m by (intro jobs.roundtrip) simp
  moreover have "view (wd_kube s') (ConfigMaps, WorkerNamespace, WorkerName wid u @ ''-env'') =
      Some (o_labels ob, ConfigMap (Some ?m))"
    if "g_K8sClient (wd_globals s)" "db_faults (wd_db s) = []" "o_name ob = WorkerName wid u @ ''-env''"
      "k_get K ConfigMaps WorkerNamespace (WorkerName wid u @ ''-env'') (wd_kube s) = (Inr ob, k1)"
      "o_body ob = ConfigMap old'" "job_Do K ord ?j s = (None, s')" for s s' ob k1 old'
    using sync_outcome [OF assms(5) that(1,2), THEN conjunct2, rule_format, OF _ that(4,3)] that(5,6)
    by (auto simp: job_Do_def syncEnv_Do_def with_data_def)
  ultimately show ?thesis
    using old m by (intro exI [of _ old] exI [of _ ?m]) (auto simp: task_of_def simp del: job_type.simps marshal_job.simps)
qed

lemma set_secrets_ok:
  assumes "WorkerHandler_SetWorkerSecrets x now u q g = (r, g')" and "rs_status r = 200"
    and "bind_body bind_kv (q_body q) = Some (k, v, del)" and "q_param q ''id'' = wid"
  obtains old where "secrets_of (gw_tab g) wid u = Some old"
    "secrets_of (gw_tab g') wid u = Some (Some (marshal_list (merge_keys k del (fst (unmarshal_list old)))))"
    "gw_sent g' = gw_sent g @ [(ControlPlaneInnerEndpoint @ ''/api/acceptTask'',
       task_of now (SyncSecretJob wid u (Some [(k, v)])))]"
proof -
  obtain y g1 where 1: "gw_db (GetWorkerSecretsByOwner wid u) g = (y, g1)"
    by (cases "gw_db (GetWorkerSecretsByOwner wid u) g")
  from assms 1 obtain old where y: "y = Inr old"
    by (auto simp: WorkerHandler_SetWorkerSecrets_def with_body_def fails_def respond_def Let_def
        split: sum.splits prod.splits)
  let ?ks = "merge_keys k del (fst (unmarshal_list old))"
  obtain w g2 where 2: "gw_db (SetWorkerSecretsByOwner wid u (Some (marshal_list ?ks))) g1 = (w, g2)"
    by (cases "gw_db (SetWorkerSecretsByOwner wid u (Some (marshal_list ?ks))) g1")
  obtain e g3 where 3: "SendTask now (SyncSecretJob wid u (Some [(k, v)])) g2 = (e, g3)"
    by (cases "SendTask now (SyncSecretJob wid u (Some [(k, v)])) g2")
  have "w = Inr ()" "e = None" "g' = g3"
    using assms 1 2 3 y
    by (auto simp: WorkerHandler_SetWorkerSecrets_def with_body_def fails_def respond_def Let_def
        split: sum.splits option.splits)
  moreover have "tab (wd_db (gw g1)) = gw_tab g" using secrets.get_tab [OF gw_db_run [OF 1]] .
  moreover note secrets.get_ok [OF gw_db_run [OF 1 [unfolded y]]]
    secrets.put_ok [OF gw_db_run [OF 2 [unfolded calculation(1)]]]
    SendTask_frame [OF 3] gw_db_sel [OF 1] gw_db_sel [OF 2]
  ultimately show thesis by (intro that) auto
qed

lemma find_key_iff: "find_key k ks \<longleftrightarrow> k \<in> set ks"
  by (induction ks) auto

definition key_set :: "string list option \<Rightarrow> string set" where
  "key_set ks = (case ks of None \<Rightarrow> {} | Some l \<Rightarrow> set l)"

lemma merge_keys_set: "key_set (merge_keys k del ks) = (if del then key_set ks - {k} else insert k (key_set ks))"
  by (auto simp: merge_keys_def key_set_def find_key_iff Let_def split: option.splits)

text \<open>
  C26: A change of a worker's secrets that answers 200 keeps the list of keys exactly, one key added or
  removed, but the job it posts makes the changed key, with the value sent, the only content of the
  Secret: every other secret of the worker is gone from the cluster, and after a deletion the deleted
  key is the one that is there.
\<close>

theorem secret_change_diverges:
  assumes "WorkerHandler_SetWorkerSecrets x now u q g = (r, g')" and "rs_status r = 200"
    and "bind_body bind_kv (q_body q) = Some (k, v, del)" and "q_param q ''id'' = wid"
    and "kube_laws K view" and "g_K8sClient (wd_globals s)" and "db_faults (wd_db s) = []"
    and "k_get K Secrets WorkerNamespace (WorkerName wid u @ ''-secret'') (wd_kube s) = (Inr ob, k1)"
    and "o_name ob = WorkerName wid u @ ''-secret''" and "o_body ob = Secret ty old"
  shows "\<exists>before now_keys j. secrets_of (gw_tab g) wid u = Some before \<and>
    secrets_of (gw_tab g') wid u = Some (Some (marshal_list now_keys)) \<and>
    key_set now_keys = (if del then key_set (fst (unmarshal_list before)) - {k}
                        else insert k (key_set (fst (unmarshal_list before)))) \<and>
    gw_sent g' = gw_sent g @ [(ControlPlaneInnerEndpoint @ ''/api/acceptTask'', task_of now j)] \<and>
    (case job_Do K ord j s of (e, s') \<Rightarrow> e = None \<longrightarrow>
      view (wd_kube s') (Secrets, WorkerNamespace, WorkerName wid u @ ''-secret'') =
        Some (o_labels ob, Secret ty (Some [(k, v)])))"
proof -
  from set_secrets_ok [OF assms(1-4)] obtain before where b: "secrets_of (gw_tab g) wid u = Some before"
    "secrets_of (gw_tab g') wid u = Some (Some (marshal_list (merge_keys k del (fst (unmarshal_list before)))))"
    "gw_sent g' = gw_sent g @ [(ControlPlaneInnerEndpoint @ ''/api/acceptTask'',
       task_of now (SyncSecretJob wid u (Some [(k, v)])))]" by metis
  obtain e s' where run: "job_Do K ord (SyncSecretJob wid u (Some [(k, v)])) s = (e, s')"
    by (cases "job_Do K ord (SyncSecretJob wid u (Some [(k, v)])) s")
  then have "sync_data K Secrets (WorkerName wid u @ ''-secret'') wid ''sync secret'' (Some [(k, v)]) s = (e, s')"
    by (simp add: job_Do_def syncSecret_Do_def or_empty_def)
  from sync_outcome [OF assms(5-7) this, THEN conjunct2, rule_format, OF assms(8,9)] assms(10)
  have "e = None \<longrightarrow> view (wd_kube s') (Secrets, WorkerNamespace, WorkerName wid u @ ''-secret'') =
      Some (o_labels ob, Secret ty (Some [(k, v)]))" by (simp add: with_data_def)
  with b run merge_keys_set show ?thesis
    by (intro exI [of _ before] exI [of _ "merge_keys k del (fst (unmarshal_list before))"]
        exI [of _ "SyncSecretJob wid u (Some [(k, v)])"]) simp
qed

section \<open>Resources\<close>

lemma SendTask_status:
  "SendTask now j g = (e, g') \<Longrightarrow> e = None \<longleftrightarrow> gw_post g (length (gw_sent g)) = Inr 200"
  by (auto simp: SendTask_def Let_def split: sum.splits if_splits)

lemma create_resource_cases:
  assumes "create_resource now rn u ty job g = (r, g')"
  shows "(rs_status r = 500 \<and> gw_tab g' = gw_tab g \<and> gw_sent g' = gw_sent g) \<or>
    (\<exists>n t. t_resources (gw_tab g') = t_resources (gw_tab g) @ [new_resource n u ty (GenerateResourceUID (en_id rn)) t] \<and>
      gw_sent g' = gw_sent g @ [(ControlPlaneInnerEndpoint @ ''/api/acceptTask'',
        task_of now (job (GenerateResourceUID (en_id rn))))] \<and>
      rs_status r = (if gw_post g (length (gw_sent g)) = Inr 200 then 200 else 500))"
proof -
  let ?id = "GenerateResourceUID (en_id rn)"
  obtain v g1 where c: "gw_db (CreateCombinatorResource u ty ?id) g = (v, g1)"
    by (cases "gw_db (CreateCombinatorResource u ty ?id) g")
  note run = gw_db_run [OF c, unfolded CreateCombinatorResource_def]
  show ?thesis
  proof (cases v)
    case (Inl e)
    with assms c sql_insert_err [OF run [unfolded Inl]] gw_db_sel [OF c] show ?thesis
      by (auto simp: create_resource_def fails_def respond_def)
  next
    case (Inr y)
    obtain e g2 where s: "SendTask now (job ?id) g1 = (e, g2)" by (cases "SendTask now (job ?id) g1")
    from sql_insert_ok [OF run [unfolded Inr]] obtain n t where
      "t_resources (gw_tab g1) = t_resources (gw_tab g) @ [new_resource n u ty ?id t]"
      by (auto dest: arg_cong [where f = t_resources] sym)
    with assms c s Inr SendTask_frame [OF s] SendTask_status [OF s] gw_db_sel [OF c] show ?thesis
      by (cases e) (auto simp: create_resource_def Let_def fails_def respond_def)
  qed
qed

lemma delete_resource_cases:
  assumes "delete_resource now u ty job q g = (r, g')" and "q_param q ''id'' = rid"
  shows "(rs_status r \<in> {404, 500} \<and> gw_tab g' = gw_tab g \<and> gw_sent g' = gw_sent g) \<or>
    ((\<exists>cr \<in> set (t_resources (gw_tab g)). is_resource u ty rid cr) \<and>
      t_resources (gw_tab g') = filter (\<lambda>cr. \<not> is_resource u ty rid cr) (t_resources (gw_tab g)) \<and>
      gw_sent g' = gw_sent g @ [(ControlPlaneInnerEndpoint @ ''/api/acceptTask'', task_of now (job rid))] \<and>
      rs_status r = (if gw_post g (length (gw_sent g)) = Inr 200 then 200 else 500))"
proof -
  obtain v g1 where c: "gw_db (GetCombinatorResource u ty rid) g = (v, g1)"
    by (cases "gw_db (GetCombinatorResource u ty rid) g")
  note run = gw_db_run [OF c, unfolded GetCombinatorResource_def] and sel = gw_db_sel [OF c]
  have t1: "gw_tab g1 = gw_tab g" using sql_query_tab [OF run] by simp
  show ?thesis
  proof (cases v)
    case (Inl e)
    with assms c t1 sel show ?thesis by (auto simp: delete_resource_def fails_def respond_def)
  next
    case (Inr cr)
    have cr: "cr \<in> set (t_resources (gw_tab g))" "is_resource u ty rid cr"
      using sql_query_ok [OF run [unfolded Inr]] by (auto dest: first_row_ok)
    obtain w g2 where d: "gw_db (DeleteCombinatorResource u ty rid) g1 = (w, g2)"
      by (cases "gw_db (DeleteCombinatorResource u ty rid) g1")
    note run2 = gw_db_run [OF d, unfolded DeleteCombinatorResource_def Let_def]
    show ?thesis
    proof (cases w)
      case (Inl e)
      with assms c d Inr t1 sel gw_db_sel [OF d] sql_exec_err [OF run2 [unfolded Inl]] show ?thesis
        by (auto simp: delete_resource_def fails_def respond_def)
    next
      case (Inr y)
      obtain e g3 where s: "SendTask now (job (cr_ResourceID cr)) g2 = (e, g3)"
        by (cases "SendTask now (job (cr_ResourceID cr)) g2")
      have "t_resources (gw_tab g2) = filter (\<lambda>cr. \<not> is_resource u ty rid cr) (t_resources (gw_tab g))"
        using sql_exec_Inr [OF run2 [unfolded Inr]] t1 by (simp add: delete_where_def)
      moreover have "g' = g3 \<and> rs_status r = (if e = None then 200 else 500)"
        using assms c d s \<open>v = Inr cr\<close> Inr
        by (cases e) (auto simp: delete_resource_def Let_def fails_def respond_def)
      ultimately show ?thesis
        using cr SendTask_frame [OF s] SendTask_status [OF s] sel gw_db_sel [OF d] by (auto simp: is_resource_def)
    qed
  qed
qed

text \<open>
  C22: Creating a database resource and deleting one are a row and a task, in this order: either nothing
  happened and the answer is an error, or the user's row is there (or gone) and the task was posted,
  with 200 exactly when the inner gateway took it.  So a deletion whose task is lost answers 500 with
  the row gone: no later request of the user can reach what is left of the resource.
\<close>

theorem resource_requests_outcome:
  "(case CombinatorHandler_DeleteRDB now u q g of (r, g') \<Rightarrow>
     (rs_status r \<in> {404, 500} \<and> gw_tab g' = gw_tab g \<and> gw_sent g' = gw_sent g) \<or>
     ((\<exists>cr \<in> set (t_resources (gw_tab g)). is_resource u ''rdb'' (q_param q ''id'') cr) \<and>
       t_resources (gw_tab g') =
         filter (\<lambda>cr. \<not> is_resource u ''rdb'' (q_param q ''id'') cr) (t_resources (gw_tab g)) \<and>
       gw_sent g' = gw_sent g @ [(ControlPlaneInnerEndpoint @ ''/api/acceptTask'',
         task_of now (DeleteRDBJob u (q_param q ''id'')))] \<and>
       rs_status r = (if gw_post g (length (gw_sent g)) = Inr 200 then 200 else 500))) \<and>
   (case CombinatorHandler_CreateRDB x now rn u q g of (r, g') \<Rightarrow>
     (rs_status r \<in> {400, 500} \<and> gw_tab g' = gw_tab g \<and> gw_sent g' = gw_sent g) \<or>
     (\<exists>name n t. bind_body (bind_strs [(''name'', required)]) (q_body q) = Some [name] \<and>
       t_resources (gw_tab g') =
         t_resources (gw_tab g) @ [new_resource n u ''rdb'' (GenerateResourceUID (en_id rn)) t] \<and>
       gw_sent g' = gw_sent g @ [(ControlPlaneInnerEndpoint @ ''/api/acceptTask'',
         task_of now (CreateRDBJob u name (GenerateResourceUID (en_id rn))))] \<and>
       rs_status r = (if gw_post g (length (gw_sent g)) = Inr 200 then 200 else 500)))"
proof (rule conjI, goal_cases)
  case 1
  obtain r g' where r: "delete_resource now u ''rdb'' (DeleteRDBJob u) q g = (r, g')"
    by (cases "delete_resource now u ''rdb'' (DeleteRDBJob u) q g")
  with delete_resource_cases [OF r refl] show ?case by (simp add: CombinatorHandler_DeleteRDB_def)
next
  case 2
  show ?case
  proof (cases "bind_body (bind_strs [(''name'', required)]) (q_body q)")
    case None
    then show ?thesis by (simp add: CombinatorHandler_CreateRDB_def with_body_def fails_def respond_def)
  next
    case (Some vs)
    then obtain name where "vs = [name]" by (auto dest!: bind_body_strs_length simp: length_Suc_conv)
    moreover obtain r g' where r: "create_resource now rn u ''rdb'' (CreateRDBJob u name) g = (r, g')"
      by (cases "create_resource now rn u ''rdb'' (CreateRDBJob u name) g")
    ultimately show ?thesis using Some create_resource_cases [OF r]
      by (auto simp: CombinatorHandler_CreateRDB_def with_body_def)
  qed
qed

section \<open>Examples\<close>


theorem any_user_deletes_domain_witness:
  "t_domains (gw_tab (snd (serve_outer False mem_kube example_ext 5 example_entropy None ''DELETE''
     [''api'', ''domain'', ''d2''] (token_request ''u1'' []) two_users))) = []"
  using any_user_deletes_domain [OF token_request_ok(1) [of 5 "''u1''" "[]"] token_request_ok(2), where g = two_users and cdid = "''d2''"
      and debug = False and K = mem_kube and rn = example_entropy and h = None]
  by (simp add: new_domain_def split: prod.splits)

theorem deploy_for_anyone_witness:
  "map v_WorkerID (t_versions (gw_tab (snd (serve_outer False mem_kube example_ext 5 example_entropy None ''POST''
     [''api'', ''worker'', ''deploy''] \<lparr>q_headers = (\<lambda>n.
        if n = ''X-Combinator-User-ID'' then ''u1'' else if n = ''X-Combinator-Timestamp'' then ''1''
        else if n = ''X-Combinator-Signature'' then GenerateHMACSignature ''sk'' (''body'' @ ''1'') else ''''),
      q_param = (\<lambda>_. ''''), q_query = (\<lambda>_. ''''), q_raw = Some ''body'',
      q_body = Some (JObj [(''user_uid'', JStr ''u2''), (''worker_id'', JStr ''w2''), (''image'', JStr ''i''),
        (''port'', JNum 80)])\<rparr> two_users)))) = [1]"
proof -
  let ?q = "\<lparr>q_headers = (\<lambda>n.
        if n = ''X-Combinator-User-ID'' then ''u1'' else if n = ''X-Combinator-Timestamp'' then ''1''
        else if n = ''X-Combinator-Signature'' then GenerateHMACSignature ''sk'' (''body'' @ ''1'') else ''''),
      q_param = (\<lambda>_. ''''), q_query = (\<lambda>_. ''''), q_raw = Some ''body'',
      q_body = Some (JObj [(''user_uid'', JStr ''u2''), (''worker_id'', JStr ''w2''), (''image'', JStr ''i''),
        (''port'', JNum 80)])\<rparr>"
  have "bind_body bind_deploy (q_body ?q) = Some (''u2'', ''w2'', ''i'', 80)"
    by (simp add: bind_body_def bind_members_def bind_deploy_def field_simps required_def int64_def)
  then show ?thesis
    using deploy_for_anyone [OF two_users_ok, where a = "new_user 0 ''u1'' ''a@b.c'' ''pw'' ''sk'' 0"
        and w = "row_of 1 ''w2'' ''u2''" and q = ?q and body = "''body''" and img = "''i''" and port = 80
        and K = mem_kube and x = example_ext and now = 5 and rn = example_entropy and h = None]
    by (auto simp: new_user_def loading_version_def int4_def split: prod.splits)
qed

definition kv_request :: "json gomap \<Rightarrow> request" where
  "kv_request ms = (token_request ''u1'' ms)\<lparr>q_param := (\<lambda>_. ''w1'')\<rparr>"

lemma kv_request_sel [simp]: "q_param (kv_request ms) n = ''w1''" "q_body (kv_request ms) = Some (JObj ms)"
  by (simp_all add: kv_request_def token_request_def)

lemma bind_kv_set:
  "bind_body bind_kv (Some (JObj [(''key'', JStr k), (''value'', JStr v)])) = (if k = '''' then None else Some (k, v, False))"
  "bind_body bind_kv (Some (JObj [(''key'', JStr k), (''delete'', JBool True)])) = (if k = '''' then None else Some (k, '''', True))"
  by (simp_all add: bind_body_def bind_members_def bind_kv_def field_simps required_def)

theorem env_change_reaches_cluster_witness:
  "\<exists>m. env_of (gw_tab (snd (WorkerHandler_SetWorkerEnv example_ext 5 ''u1''
      (kv_request [(''key'', JStr ''B''), (''value'', JStr ''2'')]) two_users))) ''w1'' ''u1'' =
     Some (Some (marshal_map (Some m))) \<and> map_of m = [''A'' \<mapsto> ''1'', ''B'' \<mapsto> ''2'']"
proof -
  let ?q = "kv_request [(''key'', JStr ''B''), (''value'', JStr ''2'')]"
  let ?h = "WorkerHandler_SetWorkerEnv example_ext 5 ''u1'' ?q two_users"
  have old: "env_of two_tables ''w1'' ''u1'' = Some (Some (JObj [(''A'', JStr ''1'')]))"
    by (simp add: env_of_def owned_def)
  have "rs_status (fst ?h) = 200"
    by (simp add: WorkerHandler_SetWorkerEnv_def with_body_def bind_kv_set GetWorkerEnvByOwner_def gw_query
        first_row_def owned_def)
      (simp add: SetWorkerEnvByOwner_def set_by_owner_def db_bind_def sql_exec_def run_stmt_def gw_db_def on_db_def
        found_rows_def owned_def Let_def SendTask_def two_users_def outer_world_def)
  then show ?thesis
    using env_change_reaches_cluster [where x = example_ext and now = 5 and u = "''u1''" and q = ?q and g = two_users
        and r = "fst ?h" and g' = "snd ?h" and k = "''B''" and v = "''2''" and del = False and wid = "''w1''"
        and view = mem_view and K = mem_kube and ord = id] old mem_laws
    by (auto simp: bind_kv_set or_empty_def)
qed

theorem secret_change_diverges_witness:
  "\<exists>keys. secrets_of (gw_tab (snd (WorkerHandler_SetWorkerSecrets example_ext 5 ''u1''
      (kv_request [(''key'', JStr ''S''), (''delete'', JBool True)]) two_users))) ''w1'' ''u1'' =
     Some (Some (marshal_list keys)) \<and> key_set keys = {}"
proof -
  let ?q = "kv_request [(''key'', JStr ''S''), (''delete'', JBool True)]"
  let ?h = "WorkerHandler_SetWorkerSecrets example_ext 5 ''u1'' ?q two_users"
  have old: "secrets_of two_tables ''w1'' ''u1'' = Some (Some (JArr [JStr ''S'']))"
    by (simp add: secrets_of_def owned_def)
  have status: "rs_status (fst ?h) = 200"
    by (simp add: WorkerHandler_SetWorkerSecrets_def with_body_def bind_kv_set GetWorkerSecretsByOwner_def gw_query
        first_row_def owned_def)
      (simp add: SetWorkerSecretsByOwner_def set_by_owner_def db_bind_def sql_exec_def run_stmt_def gw_db_def on_db_def
        found_rows_def owned_def Let_def SendTask_def two_users_def outer_world_def)
  have n: "WorkerName ''w1'' ''u1'' @ ''-secret'' = ''w-w1-u1-secret''" "WorkerNamespace = ''worker''"
    by (simp_all add: WorkerName_def WorkerNamespace_def)
  let ?ob = "new_obj ''worker'' ''w-w1-u1-secret'' [] (Secret ''Opaque'' (Some [(''A'', ''1'')]))"
  have get: "k_get mem_kube Secrets WorkerNamespace (WorkerName ''w1'' ''u1'' @ ''-secret'') (wd_kube example_world) =
      (Inr ?ob, wd_kube example_world)"
    by (simp add: n) (simp add: mem_kube_def example_world_def)
  have "o_name ?ob = WorkerName ''w1'' ''u1'' @ ''-secret''" "o_body ?ob = Secret ''Opaque'' (Some [(''A'', ''1'')])"
    by (simp_all add: n new_obj_def)
  from secret_change_diverges [OF prod.collapse [symmetric] status _ _ mem_laws _ _ get this, of "''S''" "''''" True]
  show ?thesis using old by (auto simp: bind_kv_set key_set_def)
qed

end
