(* ===== verification/System.thy ===== *)
theory System
  imports ApiSteps JobProps
begin

text \<open>
  The two gateways together: one database, the requests the outer gateway answers, the tasks it posts
  to the inner one, the inner gateway's queue and workers, and the jobs they run.  A request and a job
  are one step each; their order is arbitrary.  Nobody but the outer gateway posts tasks.
\<close>

section \<open>The composed state\<close>

record 'k system =
  sy_outer :: "'k gateway"
  sy_inner :: "'k inner"

definition with_db :: "db \<Rightarrow> 'k gateway \<Rightarrow> 'k gateway" where
  "with_db d g = g\<lparr>gw := (gw g)\<lparr>wd_db := d\<rparr>\<rparr>"

text \<open>A gateway's new state, its database shared with the other one.\<close>

definition outer_done :: "'k gateway \<Rightarrow> 'k system \<Rightarrow> 'k system" where
  "outer_done g s = s\<lparr>sy_outer := g,
     sy_inner := (sy_inner s)\<lparr>in_gw := with_db (wd_db (gw g)) (in_gw (sy_inner s))\<rparr>\<rparr>"

definition inner_done :: "'k inner \<Rightarrow> 'k system \<Rightarrow> 'k system" where
  "inner_done i s = s\<lparr>sy_inner := i, sy_outer := with_db (wd_db (gw (in_gw i))) (sy_outer s)\<rparr>"

text \<open>
  A worker that has finished \<open>Do\<close>: the \<open>k\<close>-th running job acted on the inner gateway's world.  A nil job
  has no such step: calling its method ends the process.
\<close>

definition run_job :: "'k kube \<Rightarrow> (string list \<Rightarrow> string list) \<Rightarrow> nat \<Rightarrow> 'k inner \<Rightarrow> 'k inner option" where
  "run_job K ord k i =
     (if k < length (p_running (in_proc i))
      then (case p_running (in_proc i) ! k of
              None \<Rightarrow> None
            | Some j \<Rightarrow> map_option (\<lambda>p. i\<lparr>in_gw := (in_gw i)\<lparr>gw := snd (job_Do K ord j (gw (in_gw i)))\<rparr>,
                                          in_proc := p\<rparr>) (finish_job k (in_proc i)))
      else None)"

inductive sys_step :: "'k kube \<Rightarrow> ext \<Rightarrow> 'k system \<Rightarrow> 'k system \<Rightarrow> bool" for K x where
  request: "serve_outer debug K x now rn h m path q (sy_outer s) = (r, g) \<Longrightarrow> sys_step K x s (outer_done g s)"
| deliver: "t \<in> snd ` set (gw_sent (sy_outer s)) \<Longrightarrow>
    serve_inner x now h v (Inr t) ''POST'' [''api'', ''acceptTask''] q (sy_inner s) = (r, i) \<Longrightarrow>
    sys_step K x s (inner_done i s)"
| inner: "path \<noteq> [''api'', ''acceptTask''] \<Longrightarrow> serve_inner x now h v t m path q (sy_inner s) = (r, i) \<Longrightarrow>
    sys_step K x s (inner_done i s)"
| taken: "take_job (in_proc (sy_inner s)) = Some p \<Longrightarrow>
    sys_step K x s (inner_done ((sy_inner s)\<lparr>in_proc := p\<rparr>) s)"
| run: "run_job K ord k (sy_inner s) = Some i \<Longrightarrow> sys_step K x s (inner_done i s)"
| ticked: "tick k (in_cron (sy_inner s)) (in_proc (sy_inner s)) = Some p \<Longrightarrow>
    sys_step K x s (inner_done ((sy_inner s)\<lparr>in_proc := p\<rparr>) s)"
| database: "sys_step K x s (outer_done (with_db ((wd_db (gw (sy_outer s)))\<lparr>db_now := now, db_faults := fs\<rparr>)
    (sy_outer s)) s)"
| cluster: "sys_step K x s (inner_done ((sy_inner s)\<lparr>in_gw := (in_gw (sy_inner s))\<lparr>gw :=
    (gw (in_gw (sy_inner s)))\<lparr>wd_kube := c, wd_dns := a\<rparr>\<rparr>\<rparr>) s)"

section \<open>The invariant\<close>

text \<open>
  One database within its constraints, sound connection pools, a queue that neither loses nor invents
  jobs, no nil job anywhere in it, and a scheduler without tickers.
\<close>

definition sys_ok :: "'k system \<Rightarrow> bool" where
  "sys_ok s \<longleftrightarrow> wd_db (gw (sy_outer s)) = wd_db (gw (in_gw (sy_inner s))) \<and> db_ok (wd_db (gw (sy_outer s))) \<and>
     pool_inv (sy_outer s) \<and> pool_inv (in_gw (sy_inner s)) \<and> tasks_only (sy_outer s) \<and>
     proc_ok (in_proc (sy_inner s)) \<and> None \<notin> set (p_submitted (in_proc (sy_inner s))) \<and>
     tickers (in_cron (sy_inner s)) = []"

lemma with_db_sel [simp]:
  "wd_db (gw (with_db d g)) = d" "gw_sent (with_db d g) = gw_sent g"
  "pool_inv (with_db d g) = pool_inv g" "tasks_only (with_db d g) = tasks_only g"
  by (simp_all add: with_db_def pool_inv_def tasks_only_def)

lemma outer_done_ok:
  assumes "sys_ok s" and "db_ok (wd_db (gw g))" and "pool_inv g" and "tasks_only g"
  shows "sys_ok (outer_done g s)"
  using assms by (simp add: sys_ok_def outer_done_def)

lemma inner_done_ok:
  assumes "sys_ok s" and "db_ok (wd_db (gw (in_gw i)))" and "pool_inv (in_gw i)" and "proc_ok (in_proc i)"
    and "None \<notin> set (p_submitted (in_proc i))" and "in_cron i = in_cron (sy_inner s)"
  shows "sys_ok (inner_done i s)"
  using assms by (simp add: sys_ok_def inner_done_def)

lemma CreateJob_object: "CreateJob ty (Some (JObj ms)) \<noteq> Inr None"
  by (auto simp: CreateJob_def split: option.splits)

lemma marshal_object: "\<exists>ms. marshal_job j = JObj ms"
  by (cases j) simp_all

lemma Submit_ok:
  assumes "Submit j p = Some p'" and "proc_ok p"
  shows "proc_ok p' \<and> p_submitted p' = p_submitted p @ [j]"
  using proc_step_ok [OF proc_step.submit [OF assms(1)] assms(2)] assms(1)
  by (auto simp: Submit_def split: option.splits)

lemma accept_sent:
  assumes "AcceptTask v now' (Inr (task_of now j)) p = (r, p')" and "proc_ok p" and "None \<notin> set (p_submitted p)"
  shows "proc_ok p' \<and> None \<notin> set (p_submitted p')"
proof -
  obtain ms where ms: "marshal_job j = JObj ms" using marshal_object by blast
  have "p' = p \<or> (\<exists>k. Submit (Some k) p = Some p')"
    using assms(1) CreateJob_object [of "job_type j" ms]
    by (auto simp: AcceptTask_def bind_task_def task_of_def ms split: if_splits sum.splits option.splits)
  then show ?thesis using assms(2,3) Submit_ok by fastforce
qed

lemma finish_submitted: "finish_job k p = Some p' \<Longrightarrow> p_submitted p' = p_submitted p"
  by (auto simp: finish_job_def split: if_splits)

lemma take_submitted: "take_job p = Some p' \<Longrightarrow> p_submitted p' = p_submitted p"
  by (auto simp: take_job_def split: if_splits option.splits)

lemma sys_step_ok: "sys_step K x s s' \<Longrightarrow> sys_ok s \<Longrightarrow> sys_ok s'"
proof (induction rule: sys_step.induct)
  case (request debug now rn h m path q s r g)
  then have "moves db_step (sy_outer s) g" using serve_outer_moves by (metis snd_conv)
  with request(2) show ?case
    by (intro outer_done_ok) (auto simp: sys_ok_def moves_def dest: db_steps_ok)
next
  case (deliver t s now h v q r i)
  then obtain now0 j where t: "t = task_of now0 j" by (force simp: sys_ok_def tasks_only_def list_all_iff)
  obtain r' p where a: "AcceptTask v now (Inr t) (in_proc (sy_inner s)) = (r', p)"
    by (cases "AcceptTask v now (Inr t) (in_proc (sy_inner s))")
  with deliver(2) have i: "i = (sy_inner s)\<lparr>in_proc := p\<rparr>" by (simp add: serve_inner_def)
  from accept_sent [OF a [unfolded t]] deliver(3) show ?case
    by (intro inner_done_ok) (auto simp: sys_ok_def i)
next
  case (inner path now h v t m q s r i)
  then have "moves db_step (in_gw (sy_inner s)) (in_gw i)" using serve_inner_moves by (metis snd_conv)
  moreover have "in_proc i = in_proc (sy_inner s) \<and> in_cron i = in_cron (sy_inner s)"
    using inner(1,2) by (auto simp: serve_inner_def split: if_splits prod.splits)
  ultimately show ?case using inner(3)
    by (intro inner_done_ok) (auto simp: sys_ok_def moves_def dest: db_steps_ok)
next
  case (taken s p)
  then show ?case
    by (intro inner_done_ok)
      (auto simp: sys_ok_def take_submitted intro: proc_step_ok [OF proc_step.taken])
next
  case (run ord k s i)
  let ?i = "sy_inner s"
  from run(1) obtain j p where j: "p_running (in_proc ?i) ! k = Some j" "finish_job k (in_proc ?i) = Some p"
    "i = ?i\<lparr>in_gw := (in_gw ?i)\<lparr>gw := snd (job_Do K ord j (gw (in_gw ?i)))\<rparr>, in_proc := p\<rparr>"
    by (auto simp: run_job_def split: if_splits option.splits)
  have "world_ok (gw (in_gw ?i))" using run(2) by (auto simp: sys_ok_def world_ok_def pool_inv_def)
  then have "world_ok (snd (job_Do K ord j (gw (in_gw ?i))))" by (rule job_Do_ok)
  with run(2) j show ?case
    by (intro inner_done_ok)
      (auto simp: sys_ok_def world_ok_def pool_inv_def finish_submitted intro: proc_step_ok [OF proc_step.finish])
next
  case (ticked k s p)
  then show ?case by (simp add: sys_ok_def tick_def)
next
  case (database s now fs)
  then show ?case by (intro outer_done_ok) (auto simp: sys_ok_def intro: db_ok_same)
next
  case (cluster s c a)
  then show ?case by (intro inner_done_ok) (auto simp: sys_ok_def pool_inv_def)
qed

lemma run_enabled:
  assumes ok: "sys_ok s" and k: "k < length (p_running (in_proc (sy_inner s)))"
  shows "\<exists>i'. run_job K ord k (sy_inner s) = Some i' \<and> finish_job k (in_proc (sy_inner s)) = Some (in_proc i')"
proof -
  let ?p = "in_proc (sy_inner s)"
  have "set (p_running ?p) \<subseteq> set (p_taken ?p)" "set (p_taken ?p) \<subseteq> set (p_submitted ?p)"
    using ok by (auto simp: sys_ok_def proc_ok_def) (metis Un_iff set_mset_mset set_mset_union)
  with nth_mem [OF k] have "p_running ?p ! k \<in> set (p_submitted ?p)" by blast
  then have "p_running ?p ! k \<noteq> None" using ok by (metis sys_ok_def)
  then show ?thesis using k by (auto simp: run_job_def finish_job_def)
qed

lemma sys_reach_ok: "(sys_step K x)\<^sup>*\<^sup>* s s' \<Longrightarrow> sys_ok s \<Longrightarrow> sys_ok s'"
  by (induction rule: rtranclp_induct) (auto intro: sys_step_ok)

section \<open>From the start\<close>

lemma start_jobs_res:
  "fst start_jobs = StartProcessor (NewProcessor 256 4)\<lparr>JobQueue := (make_chan 256)\<lparr>ch_buf := [Some UserAuditJob]\<rparr>,
     p_submitted := [Some UserAuditJob]\<rparr> \<and> tickers (snd start_jobs) = []"
  by (simp add: start_jobs_def Let_def Submit_def StartProcessor_def NewProcessor_def chan_send_def make_chan_def
      RegisterJob_def StartCron_def NewCronScheduler_def)

lemma start_proc_ok: "proc_ok (fst start_jobs)"
  by (simp add: start_jobs_res proc_ok_def StartProcessor_def NewProcessor_def make_chan_def chan_ok_def chan_items_def)

lemma InitRDBManager_pool: "InitRDBManager os ps c = (e, m) \<Longrightarrow> pool_ok m"
  using keeps_poolD [OF root_keeps_pool new_pool_ok [of os ps c]]
  by (auto simp: InitRDBManager_def split: prod.splits sum.splits)

lemma main_inner_serving:
  assumes "main_inner env db os ps c k8s cc A crds g = (Serving i, crds')"
  obtains m where "in_gw i = g\<lparr>gw := (gw g)\<lparr>wd_rdb := Some m, wd_globals := wd_globals (gw (in_gw i))\<rparr>\<rparr>"
    "pool_ok m" "m = snd (InitRDBManager os ps c)" "in_proc i = fst start_jobs" "in_cron i = snd start_jobs"
    "g_K8sClient (wd_globals (gw (in_gw i)))"
    "env ''ENV'' \<noteq> ''test'' \<longrightarrow> g_Domain (wd_globals (gw (in_gw i))) = env ''DOMAIN'' \<and> env ''DOMAIN'' \<noteq> ''''"
proof -
  obtain e m where m: "InitRDBManager os ps c = (e, m)" by (cases "InitRDBManager os ps c")
  from assms m obtain d where
    d: "(if env ''ENV'' = ''test'' then Some '''' else checkEnvInner env) = Some d"
    and i: "i = \<lparr>in_gw = g\<lparr>gw := (gw g)\<lparr>wd_rdb := Some m, wd_globals :=
        \<lparr>g_K8sClient = True, g_DynamicClient = True, g_Domain = d\<rparr>\<rparr>\<rparr>, in_proc = fst start_jobs,
      in_cron = snd start_jobs\<rparr>"
    by (auto simp: main_inner_def Let_def case_prod_beta split: option.splits if_splits)
  show thesis
    by (rule that [of m]) (use i d m InitRDBManager_pool check_env.simps in
      \<open>auto simp: checkEnvInner_def split: option.splits if_splits\<close>)
qed

lemma main_outer_serving:
  "main_outer env db g = Serving g' \<Longrightarrow> wd_rdb (gw g') = None \<and> wd_db (gw g') = wd_db (gw g) \<and> gw_sent g' = gw_sent g \<and>
     \<not> g_DynamicClient (wd_globals (gw g'))"
  by (auto simp: main_outer_def Let_def split: option.splits if_splits)

lemma started_ok:
  assumes "main_inner env db os ps c k8s cc A crds gi = (Serving i, crds')" and "main_outer env' db' go = Serving g"
    and "wd_db (gw gi) = wd_db (gw go)" and "db_ok (wd_db (gw go))" and "gw_sent go = []"
  shows "sys_ok \<lparr>sy_outer = g, sy_inner = i\<rparr>"
proof -
  obtain m where i: "in_gw i = gi\<lparr>gw := (gw gi)\<lparr>wd_rdb := Some m, wd_globals := wd_globals (gw (in_gw i))\<rparr>\<rparr>"
    "pool_ok m" "in_proc i = fst start_jobs" "in_cron i = snd start_jobs"
    using assms(1) by (rule main_inner_serving)
  have "wd_db (gw (in_gw i)) = wd_db (gw gi)" "wd_rdb (gw (in_gw i)) = Some m"
    using arg_cong [OF i(1), of "\<lambda>g. wd_db (gw g)"] arg_cong [OF i(1), of "\<lambda>g. wd_rdb (gw g)"] by simp_all
  then show ?thesis
    using main_outer_serving [OF assms(2)] assms(3-5) i(2-4) start_proc_ok start_jobs_res
    by (simp add: sys_ok_def pool_inv_def tasks_only_def)
qed



section \<open>Examples\<close>

definition example_env :: "string \<Rightarrow> string" where
  "example_env n = (if n = ''DOMAIN'' then ''example.com'' else if n = ''RESEND_API_KEY'' then ''key'' else '''')"

definition example_api :: "unit crd_api" where
  "example_api = \<lparr>ca_get = (\<lambda>_ _. (Inr [], ())), ca_create = (\<lambda>_ _. (None, ()))\<rparr>"

definition started_inner :: "mem inner" where
  "started_inner = \<lparr>in_gw = example_gateway\<lparr>gw := outer_world\<lparr>wd_rdb := Some (snd (InitRDBManager [] [] example_server)),
     wd_globals := \<lparr>g_K8sClient = True, g_DynamicClient = True, g_Domain = ''example.com''\<rparr>\<rparr>\<rparr>,
     in_proc = fst start_jobs, in_cron = snd start_jobs\<rparr>"

lemma started_inner_main:
  "main_inner example_env None [] [] example_server None None example_api () example_gateway = (Serving started_inner, ())"
  by (simp add: main_inner_def example_env_def checkEnvInner_def case_prod_beta started_inner_def)

lemma started_outer_main: "main_outer example_env None example_gateway = Serving example_gateway"
  by (simp add: main_outer_def example_env_def checkEnvOuter_def) (simp add: example_gateway_def outer_world_def)

lemma outer_world_db_ok: "db_ok (wd_db outer_world)"
proof -
  have "ids tb (tab (wd_db outer_world)) = (if tb = Domains then [0] else [])" for tb
    by (cases tb) (simp_all add: outer_world_def empty_db_def empty_tables_def example_domain_def new_domain_def)
  then show ?thesis
    by (simp add: db_ok_def seq_ok_def) (simp add: outer_world_def tables_ok_def empty_db_def empty_tables_def)
qed



end
