(* ===== verification/EndToEnd.thy ===== *)
theory EndToEnd
  imports ApiProps System
begin

text \<open>
  A request followed through the whole program: the handler's row and task, the job that the inner
  gateway decodes, what the job writes, and what the controller makes of it.
\<close>

section \<open>A deployment\<close>

lemma deploy_ok:
  assumes "WorkerHandler_DeployWorker x now c q g = (r, g')" and "rs_status r = 200"
    and "bind_body bind_deploy (q_body q) = Some (u, wid, img, port)"
  obtains v w t where "v = db_seq (wd_db (gw g)) Versions" "w \<in> set (t_workers (gw_tab g))" "owned wid u w"
    "gw_tab g' = (gw_tab g)\<lparr>t_workers := update_where (owned wid u) (w_Status_update (\<lambda>_. ''loading'')) (t_workers (gw_tab g)),
       t_versions := t_versions (gw_tab g) @ [loading_version v (w_ID w) img port t]\<rparr>"
    "gw_sent g' = gw_sent g @ [(ControlPlaneInnerEndpoint @ ''/api/acceptTask'',
       task_of now (DeployWorkerJob wid u v))]"
proof -
  obtain y g1 where 1: "gw_db (CreateDeployVersionForOwner wid u img port) g = (y, g1)"
    by (cases "gw_db (CreateDeployVersionForOwner wid u img port) g")
  from assms 1 obtain v where y: "y = Inr v"
    by (cases y) (auto simp: WorkerHandler_DeployWorker_def with_body_def fails_def respond_def split: if_splits)
  obtain e g2 where 2: "SendTask now (DeployWorkerJob wid u v) g1 = (e, g2)"
    by (cases "SendTask now (DeployWorkerJob wid u v) g1")
  have "g' = g2" using assms 1 2 y
    by (cases e) (auto simp: WorkerHandler_DeployWorker_def with_body_def fails_def respond_def)
  moreover note create_version_ok [OF gw_db_run [OF 1 [unfolded y]]] SendTask_frame [OF 2] gw_db_sel [OF 1]
  ultimately show thesis using that by metis
qed

text \<open>The join finds the version, its worker and the owner's key.\<close>

lemma joined:
  assumes "db_faults d = []" and "tab d = t"
    and "filter (\<lambda>x. v_ID x = i) (t_versions t) = [v]" and "filter (\<lambda>x. w_ID x = v_WorkerID v) (t_workers t) = [w]"
    and "filter (\<lambda>x. usr_UID x = w_UserUID w) (t_users t) = [a]"
  shows "fst (GetDeployVersionWithWorker i d) = Inr (v, w, usr_SecretKey a)"
proof -
  have eq: "[(v, w, usr_SecretKey u). v \<leftarrow> vs, w \<leftarrow> t_workers t, u \<leftarrow> t_users t,
      v_ID v = i \<and> w_ID w = v_WorkerID v \<and> usr_UID u = w_UserUID w] =
    concat (map (\<lambda>v. concat (map (\<lambda>w. map (\<lambda>u. (v, w, usr_SecretKey u)) (filter (\<lambda>x. usr_UID x = w_UserUID w) (t_users t)))
      (filter (\<lambda>x. w_ID x = v_WorkerID v) (t_workers t)))) (filter (\<lambda>x. v_ID x = i) vs))" for vs
  proof -
    have u: "concat (map (\<lambda>u. if P \<and> Q \<and> usr_UID u = w_UserUID w then [(v, w, usr_SecretKey u)] else []) us) =
      (if P \<and> Q then map (\<lambda>u. (v, w, usr_SecretKey u)) (filter (\<lambda>x. usr_UID x = w_UserUID w) us) else [])" for P Q v w us
      by (induction us) auto
    have w: "concat (map (\<lambda>w. if P \<and> w_ID w = v_WorkerID v then f w else []) ws) =
      (if P then concat (map f (filter (\<lambda>x. w_ID x = v_WorkerID v) ws)) else [])" for P v ws and f :: "worker \<Rightarrow> 'b list"
      by (induction ws) auto
    show ?thesis by (induction vs) (auto simp: u w)
  qed
  have "fst (GetDeployVersionWithWorker i d) = (case [(v, w, usr_SecretKey u). v \<leftarrow> t_versions t, w \<leftarrow> t_workers t,
      u \<leftarrow> t_users t, v_ID v = i \<and> w_ID w = v_WorkerID v \<and> usr_UID u = w_UserUID w] of [] \<Rightarrow> Inl NoRows | r # _ \<Rightarrow> Inr r)"
    by (simp add: GetDeployVersionWithWorker_def no_faults_query assms(1,2))
  also have "\<dots> = Inr (v, w, usr_SecretKey a)" unfolding eq assms(3) by (simp add: assms(4,5))
  finally show ?thesis .
qed

lemma filter_one: "distinct (map k rs) \<Longrightarrow> r \<in> set rs \<Longrightarrow> filter (\<lambda>x. k x = k r) rs = [r]"
proof (induction rs)
  case (Cons y rs)
  then show ?case by (cases "y = r") (auto simp: filter_empty_conv image_iff)
qed simp

lemma update_status_one:
  assumes "distinct (map w_ID ws)" and "w \<in> set ws" and "owned wid u w"
  shows "filter (\<lambda>x. w_ID x = w_ID w) (update_where (owned wid u) (w_Status_update (\<lambda>_. st)) ws) = [w\<lparr>w_Status := st\<rparr>]"
proof -
  have "filter (\<lambda>x. w_ID x = w_ID w) (update_where p (w_Status_update (\<lambda>_. st)) ws) =
      update_where p (w_Status_update (\<lambda>_. st)) (filter (\<lambda>x. w_ID x = w_ID w) ws)" for p
    by (induction ws) (auto simp: update_where_def)
  with filter_one [OF assms(1,2)] assms(3) show ?thesis by (simp add: update_where_def)
qed

lemma reconciled_deployment:
  assumes "kube_laws K view"
    and "fst (ensure_all gl K w (updateStatus K (worker_app n w) ''Deploying'' '''' t)) = None"
  shows "view (reconcile gl K (worker_app n w) t) (Deployments, WorkerNamespace, spec_Name w) =
    Some (spec_Labels w, Deployment (worker_deployment w))"
proof -
  from reconcile_view [OF assms(1) worker_app_roundtrip, of gl n w t] assms(2)
  have "view (reconcile gl K (worker_app n w) t) = foldl put_want (view t) (take 5 (wanted gl w))" by auto
  then have "view (reconcile gl K (worker_app n w) t) = foldl put_want (view t) (wanted gl w)"
    by (simp add: wanted_def)
  then show ?thesis
    using put_want_at [OF wanted_distinct [of gl w], where v = "view t" and upd = True and
      k = "(Deployments, WorkerNamespace, spec_Name w)" and c = "(spec_Labels w, Deployment (worker_deployment w))"]
    by (simp add: wanted_def)
qed

text \<open>The rows the join meets when the job of a fresh version runs on the state the request left.\<close>

lemma deploy_rows:
  assumes run: "WorkerHandler_DeployWorker x now c q g = (r, g')" "rs_status r = 200"
    and body: "bind_body bind_deploy (q_body q) = Some (u, wid, img, port)"
    and ok: "db_ok (wd_db (gw g))" and a: "a \<in> set (t_users (gw_tab g))" "usr_UID a = u"
    and d: "d = wd_db (gw g')" "db_faults d = []"
  obtains v vr w where "gw_sent g' = gw_sent g @ [(ControlPlaneInnerEndpoint @ ''/api/acceptTask'',
      task_of now (DeployWorkerJob wid u v))]"
    "fst (GetDeployVersionWithWorker v d) = Inr (vr, w, usr_SecretKey a)"
    "v_ID vr = v" "v_Image vr = img" "v_Port vr = port" "w_WID w = wid" "w_UserUID w = u"
    "vr \<in> set (t_versions (tab d))" "\<And>y. y \<in> set (t_workers (tab d)) \<Longrightarrow> owned wid u y \<Longrightarrow> w_ID y = w_ID w"
proof (rule deploy_ok [OF run body])
  let ?t = "gw_tab g"
  fix v w t
  assume v: "v = db_seq (wd_db (gw g)) Versions" and w: "w \<in> set (t_workers ?t)" "owned wid u w"
    and tabs: "gw_tab g' = ?t\<lparr>t_workers := update_where (owned wid u) (w_Status_update (\<lambda>_. ''loading'')) (t_workers ?t),
       t_versions := t_versions ?t @ [loading_version v (w_ID w) img port t]\<rparr>"
    and sent: "gw_sent g' = gw_sent g @ [(ControlPlaneInnerEndpoint @ ''/api/acceptTask'',
       task_of now (DeployWorkerJob wid u v))]"
  let ?v = "loading_version v (w_ID w) img port t" and ?w = "w\<lparr>w_Status := ''loading''\<rparr>"
  from ok have ids: "distinct (map w_ID (t_workers ?t))" "\<forall>i \<in> v_ID ` set (t_versions ?t). i < v"
    "distinct (map usr_UID (t_users ?t))" "distinct (map w_WID (t_workers ?t))"
    unfolding db_ok_def seq_ok_def tables_ok_def v by (auto dest: spec [of _ Workers] spec [of _ Versions])
  have "filter (\<lambda>x. v_ID x = v) (t_versions (tab d)) = [?v]"
    using ids(2) by (auto simp: d(1) tabs loading_version_def filter_empty_conv)
  moreover have "filter (\<lambda>x. w_ID x = v_WorkerID ?v) (t_workers (tab d)) = [?w]"
    using update_status_one [OF ids(1) w] by (simp add: d(1) tabs loading_version_def)
  moreover have "filter (\<lambda>x. usr_UID x = w_UserUID ?w) (t_users (tab d)) = [a]"
    using filter_one [OF ids(3) a(1)] a(2) w(2) by (simp add: d(1) tabs owned_def)
  ultimately have j: "fst (GetDeployVersionWithWorker v d) = Inr (?v, ?w, usr_SecretKey a)"
    using joined [OF d(2) refl] by blast
  have one: "w_ID y = w_ID ?w" if y: "y \<in> set (t_workers (tab d))" "owned wid u y" for y
  proof -
    have "t_workers (tab d) = update_where (owned wid u) (w_Status_update (\<lambda>_. ''loading'')) (t_workers ?t)"
      by (simp add: d(1) tabs)
    with y(1) obtain z where z: "z \<in> set (t_workers ?t)"
      and up: "y = (if owned wid u z then z\<lparr>w_Status := ''loading''\<rparr> else z)"
      unfolding update_where_def set_map by force
    have z': "w_WID y = w_WID z" "w_ID y = w_ID z" by (simp_all add: up)
    moreover from y(2) z' have "w_WID z = wid" by (simp add: owned_def)
    moreover from w(2) have "w_WID w = wid" by (simp add: owned_def)
    ultimately have "z = w" using z w(1) ids(4) by (metis distinct_map inj_onD)
    with z'(2) show ?thesis by simp
  qed
  show thesis
    by (rule that [OF sent j _ _ _ _ _ _ one]) (use w(2) in \<open>simp_all add: loading_version_def owned_def d(1) tabs\<close>)
qed

text \<open>
  C2: A deployment request that answers 200 goes all the way: its task decodes to the job of the new
  version; when that job runs on the stored state and returns no error, the version is successful, the
  worker active with it, and the cluster holds a WorkerApp with the owner's key, the image and the port
  of the request; and any reconcile of that object whose calls succeed leaves a Deployment of exactly
  that specification.
\<close>

theorem deployment_reaches_cluster:
  assumes "WorkerHandler_DeployWorker x now c q g = (r, g')" and "rs_status r = 200"
    and "bind_body bind_deploy (q_body q) = Some (u, wid, img, port)"
    and "db_ok (wd_db (gw g))" and "a \<in> set (t_users (gw_tab g))" and "usr_UID a = u"
    and "kube_laws K view" and "wd_db s = wd_db (gw g')" and "db_faults (wd_db s) = []"
    and "spec = \<lparr>WorkerID = wid, OwnerID = u, OwnerSK = usr_SecretKey a, Image = img, Port = port\<rparr>"
    and "app = worker_app (WorkerName wid u) spec"
  shows "\<exists>v. gw_sent g' = gw_sent g @ [(ControlPlaneInnerEndpoint @ ''/api/acceptTask'',
      task_of now (DeployWorkerJob wid u v))] \<and>
    (int64 v \<longrightarrow> CreateJob (job_type (DeployWorkerJob wid u v)) (Some (marshal_job (DeployWorkerJob wid u v))) =
      Inr (Some (DeployWorkerJob wid u v))) \<and>
    (case job_Do K ord (DeployWorkerJob wid u v) s of (e, s') \<Rightarrow> e = None \<longrightarrow>
       view (wd_kube s') (WorkerApps, WorkerNamespace, WorkerName wid u) = Some (content app) \<and>
       (\<exists>x \<in> set (t_versions (tab (wd_db s'))).
          v_ID x = v \<and> v_Status x = ''success'' \<and> v_Image x = img \<and> v_Port x = port) \<and>
       (\<forall>x \<in> set (t_workers (tab (wd_db s'))). owned wid u x \<longrightarrow>
          w_ActiveVersionID x = Some v \<and> w_Status x = ''active'')) \<and>
    (\<forall>gl t. fst (ensure_all gl K spec (updateStatus K app ''Deploying'' '''' t)) = None \<longrightarrow>
       view (reconcile gl K app t) (Deployments, WorkerNamespace, WorkerName wid u) =
         Some (spec_Labels spec, Deployment (worker_deployment spec)))"
proof (rule deploy_rows [OF assms(1-6,8,9)])
  fix v vr w
  assume rows: "gw_sent g' = gw_sent g @ [(ControlPlaneInnerEndpoint @ ''/api/acceptTask'',
      task_of now (DeployWorkerJob wid u v))]"
    "fst (GetDeployVersionWithWorker v (wd_db s)) = Inr (vr, w, usr_SecretKey a)"
    "v_ID vr = v" "v_Image vr = img" "v_Port vr = port" "w_WID w = wid" "w_UserUID w = u"
    "vr \<in> set (t_versions (tab (wd_db s)))"
    "\<And>y. y \<in> set (t_workers (tab (wd_db s))) \<Longrightarrow> owned wid u y \<Longrightarrow> w_ID y = w_ID w"
  obtain e s' where run: "deployWorker_Do K v s = (e, s')" by (cases "deployWorker_Do K v s")
  have name: "spec_Name spec = WorkerName wid u" by (simp add: assms(10) spec_Name_def)
  have "view (wd_kube s') (WorkerApps, WorkerNamespace, WorkerName wid u) = Some (content app) \<and>
      (\<exists>x \<in> set (t_versions (tab (wd_db s'))). v_ID x = v \<and> v_Status x = ''success'' \<and> v_Image x = img \<and> v_Port x = port) \<and>
      (\<forall>x \<in> set (t_workers (tab (wd_db s'))). owned wid u x \<longrightarrow> w_ActiveVersionID x = Some v \<and> w_Status x = ''active'')"
    if "e = None"
  proof -
    let ?f = "\<lambda>x. x\<lparr>v_Status := ''success'', v_Msg := ''''\<rparr>"
    and ?h = "\<lambda>x. x\<lparr>w_ActiveVersionID := Some v, w_Status := ''active''\<rparr>"
    from deploy_effect [OF assms(7,9) rows(2)] run that
    have t: "t_versions (tab (wd_db s')) = update_where (\<lambda>x. v_ID x = v) ?f (t_versions (tab (wd_db s)))"
      "t_workers (tab (wd_db s')) = update_where (\<lambda>x. w_ID x = w_ID w) ?h (t_workers (tab (wd_db s)))"
      and k: "view (wd_kube s') (WorkerApps, WorkerNamespace, WorkerName wid u) = Some (content app)"
      by (simp_all add: rows(4-7) assms(10,11))
    have "?f vr \<in> set (t_versions (tab (wd_db s')))" using rows(3,8) by (auto simp: t(1) set_update_where)
    moreover have "w_ActiveVersionID x = Some v \<and> w_Status x = ''active''"
      if "x \<in> set (t_workers (tab (wd_db s')))" "owned wid u x" for x
      using that rows(9) [of x] by (auto simp: t(2) set_update_where)
    ultimately show ?thesis using k rows(3-5) by (intro conjI bexI [of _ "?f vr"]) auto
  qed
  moreover have "job_Do K ord (DeployWorkerJob wid u v) s = (e, s')" by (simp add: job_Do_def run)
  moreover have "int64 v \<longrightarrow> CreateJob (job_type (DeployWorkerJob wid u v))
      (Some (marshal_job (DeployWorkerJob wid u v))) = Inr (Some (DeployWorkerJob wid u v))"
    using jobs.roundtrip [of "DeployWorkerJob wid u v"] by simp
  ultimately show ?thesis
    using rows(1) reconciled_deployment [OF assms(7), of _ spec "WorkerName wid u"]
    unfolding name assms(11) by (intro exI [of _ v]) (simp only: split, blast)
qed

definition deploy_request :: request where
  "deploy_request = json_request [(''user_uid'', JStr ''u2''), (''worker_id'', JStr ''w2''), (''image'', JStr ''i''),
     (''port'', JNum 80)]"

lemma deploy_request_body: "bind_body bind_deploy (q_body deploy_request) = Some (''u2'', ''w2'', ''i'', 80)"
  by (simp add: deploy_request_def json_request_def bind_body_def bind_members_def bind_deploy_def field_simps
      required_def int64_def)

lemma deploy_answers:
  assumes "WorkerHandler_DeployWorker example_ext 5 c deploy_request two_users = (r, g')"
  shows "rs_status r = 200 \<and> wd_kube (gw g') = [] \<and> db_faults (wd_db (gw g')) = []"
proof -
  have w: "row_of 1 ''w2'' ''u2'' \<in> set (t_workers (gw_tab two_users))" "int4 80" by (simp_all add: int4_def)
  obtain g1 v where d: "gw_db (CreateDeployVersionForOwner ''w2'' ''u2'' ''i'' 80) two_users = (Inr v, g1)"
    "gw_post g1 = gw_post two_users" "gw_sent g1 = gw_sent two_users"
    "wd_kube (gw g1) = wd_kube (gw two_users)" "db_faults (wd_db (gw g1)) = []"
    using deploy_steps [OF two_users_sel(2) w(1) two_users_ok w(2), of "''i''"] unfolding row_of_sel by metis
  have "wd_kube (gw two_users) = []" by (simp add: two_users_def outer_world_def)
  with d assms show ?thesis
    by (auto simp: WorkerHandler_DeployWorker_def with_body_def deploy_request_body SendTask_def Let_def respond_def)
qed

theorem deployment_reaches_cluster_witness:
  "\<exists>v. mem_view (wd_kube (snd (job_Do mem_kube id (DeployWorkerJob ''w2'' ''u2'' v)
      (gw (snd (WorkerHandler_DeployWorker example_ext 5 ''u2'' deploy_request two_users))))))
     (WorkerApps, WorkerNamespace, WorkerName ''w2'' ''u2'') =
   Some (content (worker_app (WorkerName ''w2'' ''u2'')
     \<lparr>WorkerID = ''w2'', OwnerID = ''u2'', OwnerSK = ''kk'', Image = ''i'', Port = 80\<rparr>))"
proof -
  obtain r g' where run: "WorkerHandler_DeployWorker example_ext 5 ''u2'' deploy_request two_users = (r, g')"
    by (cases "WorkerHandler_DeployWorker example_ext 5 ''u2'' deploy_request two_users")
  note ans = deploy_answers [OF run]
  let ?a = "new_user 1 ''u2'' ''d@e.f'' ''pw'' ''kk'' 0"
  have a: "?a \<in> set (t_users (gw_tab two_users))" "usr_UID ?a = ''u2''" "usr_SecretKey ?a = ''kk''"
    by (simp_all add: new_user_def)
  obtain v vr w where rows: "gw_sent g' = gw_sent two_users @ [(ControlPlaneInnerEndpoint @ ''/api/acceptTask'',
      task_of 5 (DeployWorkerJob ''w2'' ''u2'' v))]"
    "fst (GetDeployVersionWithWorker v (wd_db (gw g'))) = Inr (vr, w, usr_SecretKey ?a)"
    by (rule deploy_rows [OF run _ deploy_request_body two_users_ok a(1,2) refl]) (use ans in auto)
  have "fst (deployWorker_Do mem_kube v (gw g')) = None"
    using rows(2) ans
    by (simp add: deployWorker_Do_def on_db_def GetDeployVersionWithWorker_def no_faults_query no_faults_ops)
      (simp add: on_kube_def CreateWorkerAppCR_def mem_kube_def WorkerName_def WorkerNamespace_def worker_app_def new_obj_def)
  then have "fst (job_Do mem_kube id (DeployWorkerJob ''w2'' ''u2'' v) (gw g')) = None" by (simp add: job_Do_def)
  moreover obtain v' where "gw_sent g' = gw_sent two_users @ [(ControlPlaneInnerEndpoint @ ''/api/acceptTask'',
      task_of 5 (DeployWorkerJob ''w2'' ''u2'' v'))]" and
    "case job_Do mem_kube id (DeployWorkerJob ''w2'' ''u2'' v') (gw g') of (e, s') \<Rightarrow> e = None \<longrightarrow>
      mem_view (wd_kube s') (WorkerApps, WorkerNamespace, WorkerName ''w2'' ''u2'') =
        Some (content (worker_app (WorkerName ''w2'' ''u2'')
         \<lparr>WorkerID = ''w2'', OwnerID = ''u2'', OwnerSK = ''kk'', Image = ''i'', Port = 80\<rparr>))"
    using deployment_reaches_cluster [OF run _ deploy_request_body two_users_ok a(1,2) mem_laws refl _ refl refl, of id]
      ans a(3) by auto
  moreover from this(1) rows(1) have "v' = v" by (simp add: task_of_def)
  ultimately show ?thesis using run by (intro exI [of _ v]) (auto split: prod.splits)
qed

end
