(* ===== verification/Informers.thy ===== *)
theory Informers
  imports Controller
begin

text \<open>
  \<open>Controller.Start\<close> of \<open>k8s/controller/controller.go\<close>: which handler is registered for which events of
  which objects, and what the controller does over a sequence of events.  The informers of \<open>client-go\<close>
  are the environment: any registered function may be called, at any time, with any object and with any
  content of the cache.
\<close>

section \<open>Registrations\<close>

text \<open>\<open>cache.ResourceEventHandlerFuncs\<close>: a nil function is \<open>None\<close>.\<close>

record 'k handler_funcs =
  AddFunc :: "(event_obj \<Rightarrow> 'k \<Rightarrow> 'k) option"
  UpdateFunc :: "(event_obj \<Rightarrow> event_obj \<Rightarrow> 'k \<Rightarrow> 'k) option"
  DeleteFunc :: "(event_obj \<Rightarrow> 'k \<Rightarrow> 'k) option"

definition crHandler :: "globals \<Rightarrow> 'k kube \<Rightarrow> 'k handler_funcs" where
  "crHandler g K = \<lparr>AddFunc = Some (onAdd g K), UpdateFunc = Some (onUpdate g K), DeleteFunc = Some (onDelete g K)\<rparr>"

definition subHandler :: "globals \<Rightarrow> 'k kube \<Rightarrow> (string \<Rightarrow> kobj option) \<Rightarrow> 'k handler_funcs" where
  "subHandler g K crCache = \<lparr>AddFunc = None, UpdateFunc = None, DeleteFunc = Some (onSubResourceDelete g K crCache)\<rparr>"

definition configHandler :: "globals \<Rightarrow> 'k kube \<Rightarrow> int \<Rightarrow> 'k handler_funcs" where
  "configHandler g K now = \<lparr>AddFunc = None, UpdateFunc = Some (onConfigUpdate g K now), DeleteFunc = None\<rparr>"

text \<open>The informers with the namespace each is restricted to, in the order of \<open>Start\<close>.\<close>

definition Controller_Start :: "globals \<Rightarrow> 'k kube \<Rightarrow> (string \<Rightarrow> kobj option) \<Rightarrow> int \<Rightarrow>
    ((kind \<times> string) \<times> 'k handler_funcs) list" where
  "Controller_Start g K crCache now =
     [((WorkerApps, WorkerNamespace), crHandler g K),
      ((Deployments, WorkerNamespace), subHandler g K crCache),
      ((Services, WorkerNamespace), subHandler g K crCache),
      ((ConfigMaps, WorkerNamespace), configHandler g K now),
      ((Secrets, WorkerNamespace), configHandler g K now),
      ((IngressRoutes, IngressNamespace), subHandler g K crCache)]"

section \<open>Events\<close>

datatype change = Added event_obj | Updated event_obj event_obj | Deleted event_obj

fun call_handler :: "'k handler_funcs \<Rightarrow> change \<Rightarrow> 'k \<Rightarrow> 'k" where
  "call_handler h (Added ob) s = (case AddFunc h of None \<Rightarrow> s | Some f \<Rightarrow> f ob s)"
| "call_handler h (Updated a b) s = (case UpdateFunc h of None \<Rightarrow> s | Some f \<Rightarrow> f a b s)"
| "call_handler h (Deleted ob) s = (case DeleteFunc h of None \<Rightarrow> s | Some f \<Rightarrow> f ob s)"

text \<open>A call of one of the functions, with the cache and the clock as they are then.\<close>

record event =
  ev_now :: int
  ev_cache :: "string \<Rightarrow> kobj option"
  ev_kind :: kind
  ev_ns :: string
  ev_change :: change

definition notify :: "globals \<Rightarrow> 'k kube \<Rightarrow> event \<Rightarrow> 'k \<Rightarrow> 'k" where
  "notify g K e s =
     (case map_of (Controller_Start g K (ev_cache e) (ev_now e)) (ev_kind e, ev_ns e) of
        None \<Rightarrow> s | Some h \<Rightarrow> call_handler h (ev_change e) s)"

definition notify_all :: "globals \<Rightarrow> 'k kube \<Rightarrow> event list \<Rightarrow> 'k \<Rightarrow> 'k" where
  "notify_all g K es s = fold (notify g K) es s"

lemmas wiring_defs = notify_def Controller_Start_def crHandler_def subHandler_def configHandler_def

section \<open>What an event can touch\<close>

text \<open>The workers an event names, in the object it is about or in the cache, and the restarted ones.\<close>

definition event_specs :: "event \<Rightarrow> WorkerAppSpec set" where
  "event_specs e = {w. \<exists>u. workerFromUnstructured u = Some w \<and>
     ((\<exists>n. ev_cache e n = Some u) \<or>
      ev_kind e = WorkerApps \<and> (case ev_change e of Added ob \<Rightarrow> ob = Live u | Updated _ ob \<Rightarrow> ob = Live u | Deleted ob \<Rightarrow> ob = Live u))}"

definition event_restarts :: "event \<Rightarrow> key set" where
  "event_restarts e = {(Deployments, WorkerNamespace, label_of ob ''app'') |ob.
     \<exists>old. ev_kind e \<in> {ConfigMaps, Secrets} \<and> ev_change e = Updated old (Live ob)}"

definition event_keys :: "globals \<Rightarrow> event \<Rightarrow> key set" where
  "event_keys g e = (\<Union>w \<in> event_specs e. fst ` set (wanted g w)) \<union> event_restarts e"

lemma reconcile_confined:
  assumes "kube_laws K view" and "\<And>w. workerFromUnstructured u = Some w \<Longrightarrow> k \<notin> fst ` set (wanted g w)"
  shows "view (reconcile g K u s) k = view s k"
proof (cases "workerFromUnstructured u")
  case (Some w)
  from reconcile_view [OF assms(1) Some, of g s] obtain n where
    "view (reconcile g K u s) = foldl put_want (view s) (take n (wanted g w))" by blast
  moreover have "k \<notin> fst ` set (take n (wanted g w))" using assms(2) [OF Some] by (auto dest: in_set_takeD)
  ultimately show ?thesis by (simp add: put_want_other)
qed (simp add: reconcile_def)

lemma restart_confined:
  "kube_laws K view \<Longrightarrow> k \<noteq> (Deployments, WorkerNamespace, n) \<Longrightarrow> view (restartDeployment g K now n s) k = view s k"
  by (metis k_patch_view prod.collapse restartDeployment_def)

lemma notify_confined:
  assumes laws: "kube_laws K view" and k: "k \<notin> event_keys g e"
  shows "view (notify g K e s) k = view s k"
proof -
  have w: "k \<notin> fst ` set (wanted g w)" if "w \<in> event_specs e" for w
    using k that by (auto simp: event_keys_def)
  have rec: "view (reconcile g K u s) k = view s k"
    if "\<And>w. workerFromUnstructured u = Some w \<Longrightarrow> w \<in> event_specs e" for u
    using reconcile_confined [OF laws] w that by blast
  have del: "view (DeleteAll g K w s) k = view s k" if "w \<in> event_specs e" for w
    using DeleteAll_view [OF laws, of g w s k] w [OF that] by blast
  have restart: "view (restartDeployment g K (ev_now e) (label_of ob ''app'') s) k = view s k"
    if "ev_kind e \<in> {ConfigMaps, Secrets}" "ev_change e = Updated old (Live ob)" for old ob
    using k that by (intro restart_confined [OF laws]) (auto simp: event_keys_def event_restarts_def)
  show ?thesis
    using rec del restart
    by (cases "ev_change e"; cases "ev_kind e")
      (auto simp: wiring_defs event_specs_def onAdd_def onUpdate_def onDelete_def onSubResourceDelete_def
        onConfigUpdate_def Let_def split: event_obj.splits option.splits)
qed

lemma notify_all_invariant:
  assumes "\<And>e s. e \<in> set es \<Longrightarrow> P s \<Longrightarrow> P (notify g K e s)" and "P s"
  shows "P (notify_all g K es s)"
  using assms unfolding notify_all_def by (induction es arbitrary: s) auto

lemma ensured_all:
  assumes "kube_laws K view" and "workerFromUnstructured u = Some w"
    and "fst (ensure_all g K w (updateStatus K u ''Deploying'' '''' s)) = None"
  shows "view (reconcile g K u s) = foldl put_want (view s) (wanted g w)"
  using reconcile_view [OF assms(1,2), of g s] assms(3) by (auto simp: wanted_def)

lemma sub_deleted:
  assumes "(ev_kind e, ev_ns e) \<in> {(Deployments, WorkerNamespace), (Services, WorkerNamespace), (IngressRoutes, IngressNamespace)}"
    and "ev_change e = Deleted (Live ob)"
  shows "notify g K e s = onSubResourceDelete g K (ev_cache e) (Live ob) s"
  using assms by (auto simp: wiring_defs)

lemma config_deleted:
  "ev_kind e \<in> {ConfigMaps, Secrets} \<Longrightarrow> ev_change e = Deleted ob \<Longrightarrow> notify g K e s = s"
  by (auto simp: wiring_defs)

lemma no_handler:
  "ev_kind e \<noteq> WorkerApps \<Longrightarrow> ev_change e = Added ob \<Longrightarrow> notify g K e s = s"
  "ev_kind e \<in> {Deployments, Services, IngressRoutes} \<Longrightarrow> ev_change e = Updated old ob \<Longrightarrow> notify g K e s = s"
  "ev_kind e = WorkerApps \<Longrightarrow> ev_change e = Updated (Live a) (Live b) \<Longrightarrow> o_generation a = o_generation b \<Longrightarrow>
     notify g K e s = s"
  "ev_change e = Updated (Live a) (Live a) \<Longrightarrow> notify g K e s = s"
  by (cases "ev_kind e"; simp add: wiring_defs onUpdate_def onConfigUpdate_def)+


section \<open>Properties\<close>


text \<open>
  C6: When the Deployment, the Service or the route of a worker is deleted and the worker is still in
  the cache, the controller puts it back: if its calls succeed, all five sub-resources exist, the
  Deployment and the route as specified.  A deleted ConfigMap or Secret, which no handler watches, is not
  put back.
\<close>

theorem deleted_object_restored:
  assumes "kube_laws K view" and "workerFromUnstructured u = Some w"
    and "ev_cache e (WorkerNamespace @ ''/'' @ spec_Name w) = Some u"
    and "ev_change e = Deleted (Live ob)" and "label_of ob ''app'' = spec_Name w"
  shows "((ev_kind e, ev_ns e) \<in> {(Deployments, WorkerNamespace), (Services, WorkerNamespace), (IngressRoutes, IngressNamespace)} \<and>
      fst (ensure_all g K w (updateStatus K u ''Deploying'' '''' s)) = None \<longrightarrow>
      (\<forall>(k, upd, c) \<in> set (wanted g w). \<exists>c'. view (notify g K e s) k = Some c' \<and>
         (upd \<or> view s k = None \<longrightarrow> c' = c))) \<and>
    (ev_kind e \<in> {ConfigMaps, Secrets} \<longrightarrow> notify g K e s = s)"
proof (intro conjI impI)
  assume a: "(ev_kind e, ev_ns e) \<in> {(Deployments, WorkerNamespace), (Services, WorkerNamespace), (IngressRoutes, IngressNamespace)} \<and>
      fst (ensure_all g K w (updateStatus K u ''Deploying'' '''' s)) = None"
  have "spec_Name w \<noteq> ''''" by (simp add: spec_Name_def WorkerName_def)
  with a assms(3-5) have "notify g K e s = reconcile g K u s"
    using sub_deleted [of e ob g K s] by (simp add: onSubResourceDelete_def)
  with ensured_all [OF assms(1,2)] a have "view (notify g K e s) = foldl put_want (view s) (wanted g w)" by metis
  then show "\<forall>(k, upd, c) \<in> set (wanted g w). \<exists>c'. view (notify g K e s) k = Some c' \<and> (upd \<or> view s k = None \<longrightarrow> c' = c)"
    using put_want_at [OF wanted_distinct [of g w], where v = "view s"] by fastforce
qed (rule config_deleted [OF _ assms(4)])

text \<open>
  The controller does not feed itself: none of the events its own writes cause makes a call.  New
  sub-resources have no handler, updates of Deployments, Services and routes neither, a status write
  keeps the generation; and a reconcile leaves an existing ConfigMap or Secret, whose updates do have a
  handler, as it is.  For the same reason the informers' resync every 30 seconds does nothing, so a
  reconcile that failed is not tried again before its object changes.
\<close>

theorem own_writes_ignored:
  assumes "kube_laws K view"
  shows "(ev_kind e \<noteq> WorkerApps \<and> ev_change e = Added ob \<longrightarrow> notify g K e s = s) \<and>
    (ev_kind e \<in> {Deployments, Services, IngressRoutes} \<and> ev_change e = Updated old ob \<longrightarrow> notify g K e s = s) \<and>
    (ev_kind e = WorkerApps \<and> ev_change e = Updated (Live a) (Live b) \<and> o_generation a = o_generation b \<longrightarrow>
      notify g K e s = s) \<and>
    (ev_change e = Updated (Live c) (Live c) \<longrightarrow> notify g K e s = s) \<and>
    (kd \<in> {ConfigMaps, Secrets} \<and> view s (kd, ns, n) \<noteq> None \<longrightarrow>
      view (reconcile g K u s) (kd, ns, n) = view s (kd, ns, n))"
proof (intro conjI impI)
  assume a: "kd \<in> {ConfigMaps, Secrets} \<and> view s (kd, ns, n) \<noteq> None"
  show "view (reconcile g K u s) (kd, ns, n) = view s (kd, ns, n)"
  proof (cases "workerFromUnstructured u")
    case (Some w)
    from reconcile_view [OF assms Some, of g s] obtain m where
      "view (reconcile g K u s) = foldl put_want (view s) (take m (wanted g w))" by blast
    moreover have "distinct (map fst (take m (wanted g w)))"
      using wanted_distinct [of g w] by (simp add: take_map [symmetric])
    moreover have "\<not> upd" if "((kd, ns, n), upd, c) \<in> set (take m (wanted g w))" for upd c
      using a in_set_takeD [OF that] by (auto simp: wanted_def)
    ultimately show ?thesis
      using a put_want_at [of "take m (wanted g w)" "(kd, ns, n)" _ _ "view s"]
        put_want_other [of "(kd, ns, n)" "take m (wanted g w)" "view s"] by fastforce
  qed (simp add: reconcile_def)
qed ((elim conjE)?; (rule no_handler; assumption))+

lemma DeleteAll_removes:
  assumes laws: "kube_laws K view" and ready: "g_K8sClient g" "g_DynamicClient g"
    and works: "\<And>kd ns n t. view t (kd, ns, n) \<noteq> None \<Longrightarrow> fst (k_delete K kd ns n t) = None"
    and k: "k \<in> fst ` set (wanted g w)"
  shows "view (DeleteAll g K w s) k = None"
proof -
  have del: "view (snd (k_delete K kd ns n t)) = (view t)((kd, ns, n) := None)" for kd ns n t
  proof (cases "fst (k_delete K kd ns n t)")
    case None
    then show ?thesis using k_delete_ok [OF laws] by (metis prod.collapse)
  next
    case (Some e)
    then have "view (snd (k_delete K kd ns n t)) = view t" using k_delete_err [OF laws] by (metis prod.collapse)
    moreover from Some works have "view t (kd, ns, n) = None" by fastforce
    ultimately show ?thesis by auto
  qed
  show ?thesis using k ready unfolding wanted_keys by (auto simp: DeleteAll_def Let_def del)
qed

lemma gone_ignored:
  assumes "(ev_kind e \<noteq> WorkerApps)" and "ev_change e = Deleted (Live ob)"
    and "ev_cache e (WorkerNamespace @ ''/'' @ label_of ob ''app'') = None"
  shows "notify g K e s = s"
  using assms by (cases "ev_kind e") (simp_all add: wiring_defs onSubResourceDelete_def Let_def)

text \<open>
  Removing a worker is final: when its WorkerApp is deleted and the deletes of existing objects
  succeed, all five sub-resources are gone, and the events of their own deletion, which come when the
  cache no longer has the worker, do not bring one of them back.
\<close>

theorem removed_worker_stays_removed:
  assumes "kube_laws K view" and "g_K8sClient g" and "g_DynamicClient g"
    and "\<And>kd ns n t. view t (kd, ns, n) \<noteq> None \<Longrightarrow> fst (k_delete K kd ns n t) = None"
    and "workerFromUnstructured u = Some w"
    and "ev_kind d = WorkerApps" and "ev_ns d = WorkerNamespace" and "ev_change d = Deleted (Live u)"
    and "\<forall>e \<in> set es. ev_kind e \<noteq> WorkerApps \<and> (\<exists>ob. ev_change e = Deleted (Live ob) \<and>
      ev_cache e (WorkerNamespace @ ''/'' @ label_of ob ''app'') = None)"
    and "k \<in> fst ` set (wanted g w)"
  shows "view (notify_all g K (d # es) s) k = None"
proof -
  have "notify g K d s = DeleteAll g K w s" using assms(5-8) by (simp add: wiring_defs onDelete_def)
  then have "view (notify g K d s) k = None" using DeleteAll_removes [OF assms(1-4,10)] by metis
  then have "view (notify_all g K es (notify g K d s)) k = None"
    by (rule notify_all_invariant [where P = "\<lambda>t. view t k = None", rotated]) (use assms(9) gone_ignored in metis)
  then show ?thesis by (simp add: notify_all_def)
qed

section \<open>Examples\<close>

definition example_app :: kobj where
  "example_app = worker_app ''w-w1-u1'' example_worker"

definition example_event :: "kind \<Rightarrow> change \<Rightarrow> event" where
  "example_event kd c = \<lparr>ev_now = 0, ev_cache = (\<lambda>n. if n = ''worker/w-w1-u1'' then Some example_app else None),
     ev_kind = kd, ev_ns = ''worker'', ev_change = c\<rparr>"

definition example_deployment :: kobj where
  "example_deployment = worker_obj example_worker ''worker'' ''w-w1-u1'' (Deployment (worker_deployment example_worker))"

lemma example_event_sel [simp]:
  "ev_kind (example_event kd c) = kd" "ev_ns (example_event kd c) = ''worker''"
  "ev_change (example_event kd c) = c" "ev_cache (example_event kd c) ''worker/w-w1-u1'' = Some example_app"
  "ev_cache (example_event kd c) n = Some u \<longleftrightarrow> n = ''worker/w-w1-u1'' \<and> u = example_app"
  by (auto simp: example_event_def)

lemma example_sel [simp]:
  "spec_Name example_worker = ''w-w1-u1''" "workerFromUnstructured example_app = Some example_worker"
  "label_of example_deployment ''app'' = ''w-w1-u1''"
  by (simp_all add: example_app_def worker_app_roundtrip example_deployment_def worker_obj_def new_obj_def
      label_of_def spec_Labels_def spec_Name_def WorkerName_def example_worker_def)


theorem deleted_object_restored_witness:
  "mem_view (notify ready mem_kube (example_event Deployments (Deleted (Live example_deployment))) [])
     (Deployments, ''worker'', ''w-w1-u1'') =
   Some (spec_Labels example_worker, Deployment (worker_deployment example_worker))"
proof -
  have "fst (ensure_all ready mem_kube example_worker (updateStatus mem_kube example_app ''Deploying'' '''' [])) = None"
    by (simp add: ensure_all_def ensure_defs ready_def ensure_def mem_kube_def updateStatus_def
        worker_obj_def new_obj_def example_app_def worker_app_def EnvConfigMapName_def SecretName_def WorkerNamespace_def
        IngressNamespace_def)
  then show ?thesis
    using deleted_object_restored [OF mem_laws, of example_app example_worker
        "example_event Deployments (Deleted (Live example_deployment))" example_deployment ready "[]"]
    by (auto simp: WorkerNamespace_def wanted_def)
qed

theorem own_writes_ignored_witness:
  "notify ready mem_kube (example_event Deployments (Added (Live example_deployment))) [] = []"
  using own_writes_ignored [OF mem_laws, of "example_event Deployments (Added (Live example_deployment))"] by simp

theorem removed_worker_stays_removed_witness:
  "mem_view (notify_all ready mem_kube [example_event WorkerApps (Deleted (Live example_app)),
      (example_event Deployments (Deleted (Live example_deployment)))\<lparr>ev_cache := (\<lambda>_. None)\<rparr>]
      [((Deployments, ''worker'', ''w-w1-u1''), example_deployment)]) (Deployments, ''worker'', ''w-w1-u1'') = None"
proof -
  have "fst (k_delete mem_kube kd ns n t) = None" if "mem_view t (kd, ns, n) \<noteq> None" for kd ns n t
    using that by (auto simp: mem_kube_def mem_view_def split: option.split)
  from removed_worker_stays_removed [OF mem_laws _ _ this, of ready example_app example_worker
      "example_event WorkerApps (Deleted (Live example_app))"
      "[(example_event Deployments (Deleted (Live example_deployment)))\<lparr>ev_cache := (\<lambda>_. None)\<rparr>]"
      "(Deployments, ''worker'', ''w-w1-u1'')" "[((Deployments, ''worker'', ''w-w1-u1''), example_deployment)]"]
  show ?thesis by (simp add: wanted_keys WorkerNamespace_def ready_def)
qed

end
