(* ===== verification/Programs.thy ===== *)
theory Programs
  imports Prelude
begin

text \<open>
  Programs that run beside others: a program is a result or an atomic action on the shared state with
  what comes after it, which may depend on what the action read.  \<open>run\<close> runs one alone; \<open>par_step\<close>
  interleaves a pool of them with steps of the environment.
\<close>

section \<open>Programs\<close>

datatype ('s, 'a) prog = Ret 'a | Act "'s \<Rightarrow> 's" "'s \<Rightarrow> ('s, 'a) prog"

primrec run :: "('s, 'a) prog \<Rightarrow> 's \<Rightarrow> 'a \<times> 's" where
  "run (Ret x) s = (x, s)"
| "run (Act f k) s = run (k s) (f s)"

primrec pbind :: "('s, 'a) prog \<Rightarrow> ('a \<Rightarrow> ('s, 'b) prog) \<Rightarrow> ('s, 'b) prog" where
  "pbind (Ret x) q = q x"
| "pbind (Act f k) q = Act f (\<lambda>s. pbind (k s) q)"

text \<open>One operation as one action.\<close>

definition act :: "('s \<Rightarrow> 'a \<times> 's) \<Rightarrow> ('s, 'a) prog" where
  "act op = Act (\<lambda>s. snd (op s)) (\<lambda>s. Ret (fst (op s)))"

text \<open>A look at the state.\<close>

definition ask :: "('s \<Rightarrow> 'a) \<Rightarrow> ('s, 'a) prog" where
  "ask f = Act (\<lambda>s. s) (\<lambda>s. Ret (f s))"

text \<open>Go's early return of an error.\<close>

definition ebind :: "('s, 'e + 'a) prog \<Rightarrow> ('a \<Rightarrow> ('s, 'e + 'b) prog) \<Rightarrow> ('s, 'e + 'b) prog" where
  "ebind p q = pbind p (\<lambda>r. case r of Inl e \<Rightarrow> Ret (Inl e) | Inr x \<Rightarrow> q x)"

lemma run_bind [simp]: "run (pbind p q) s = (case run p s of (x, s') \<Rightarrow> run (q x) s')"
  by (induction p arbitrary: s) simp_all

lemma run_act [simp]: "run (act op) s = op s"
  by (simp add: act_def)

lemma run_ask [simp]: "run (ask f) s = (f s, s)"
  by (simp add: ask_def)

lemma run_ebind [simp]:
  "run (ebind p q) s = (case run p s of (Inl e, s') \<Rightarrow> (Inl e, s') | (Inr x, s') \<Rightarrow> run (q x) s')"
  by (simp add: ebind_def split: prod.split sum.split)

lemma bind_Ret [simp]: "pbind p Ret = p"
  by (induction p) simp_all

lemma bind_assoc: "pbind (pbind p q) r = pbind p (\<lambda>x. pbind (q x) r)"
  by (induction p) simp_all

section \<open>What a program guarantees\<close>

text \<open>Every action, from whatever state it meets, is a step of \<open>G\<close>.\<close>

primrec guar :: "('s \<Rightarrow> 's \<Rightarrow> bool) \<Rightarrow> ('s, 'a) prog \<Rightarrow> bool" where
  "guar G (Ret x) \<longleftrightarrow> True"
| "guar G (Act f k) \<longleftrightarrow> (\<forall>s. G s (f s) \<and> guar G (k s))"

named_theorems guar_intros

lemma guar_Ret [guar_intros]: "guar G (Ret x)"
  by simp

lemma guar_bind [guar_intros]: "guar G p \<Longrightarrow> (\<And>x. guar G (q x)) \<Longrightarrow> guar G (pbind p q)"
  by (induction p) simp_all

lemma guar_ebind [guar_intros]: "guar G p \<Longrightarrow> (\<And>x. guar G (q x)) \<Longrightarrow> guar G (ebind p q)"
  by (auto simp: ebind_def intro!: guar_bind split: sum.split)

lemma guar_act: "(\<And>s. G s (snd (op s))) \<Longrightarrow> guar G (act op)"
  by (simp add: act_def)

lemma guar_ask: "(\<And>s. G s s) \<Longrightarrow> guar G (ask f)"
  by (simp add: ask_def)

lemma guar_mono: "guar G p \<Longrightarrow> (\<And>s t. G s t \<Longrightarrow> H s t) \<Longrightarrow> guar H p"
  by (induction p) simp_all

section \<open>Interleaving\<close>

text \<open>
  A step of a pool: the \<open>i\<close>-th program does its next action, a new program of the kind \<open>S\<close> starts, or
  the environment moves by \<open>E\<close>.
\<close>

inductive par_step :: "(('s, 'a) prog \<Rightarrow> bool) \<Rightarrow> ('s \<Rightarrow> 's \<Rightarrow> bool) \<Rightarrow>
    ('s, 'a) prog list \<times> 's \<Rightarrow> ('s, 'a) prog list \<times> 's \<Rightarrow> bool" for S E where
  par_act: "i < length ps \<Longrightarrow> ps ! i = Act f k \<Longrightarrow> par_step S E (ps, s) (ps[i := k s], f s)"
| par_start: "S p \<Longrightarrow> par_step S E (ps, s) (ps @ [p], s)"
| par_env: "E s s' \<Longrightarrow> par_step S E (ps, s) (ps, s')"

inductive_cases par_stepE: "par_step S E (ps, s) (ps', s')"

text \<open>A schedule: whose turn it is; a program that has ended, or is not there, lets its turn pass.\<close>

definition turn :: "nat \<Rightarrow> ('s, 'a) prog list \<times> 's \<Rightarrow> ('s, 'a) prog list \<times> 's" where
  "turn i c = (case c of (ps, s) \<Rightarrow>
     if i < length ps then (case ps ! i of Ret x \<Rightarrow> (ps, s) | Act f k \<Rightarrow> (ps[i := k s], f s)) else (ps, s))"

definition sched :: "nat list \<Rightarrow> ('s, 'a) prog list \<times> 's \<Rightarrow> ('s, 'a) prog list \<times> 's" where
  "sched is c = fold turn is c"

lemma sched_simps [simp]: "sched [] c = c" "sched (i # is) c = sched is (turn i c)"
  by (simp_all add: sched_def)

lemma sched_append: "sched (is @ js) c = sched js (sched is c)"
  by (simp add: sched_def)

lemma turn_par: "turn i c = c \<or> par_step S E c (turn i c)"
  by (cases c) (auto simp: turn_def split: prog.split intro: par_step.par_act)

lemma sched_par: "(par_step S E)\<^sup>*\<^sup>* c (sched is c)"
proof (induction "is" arbitrary: c)
  case (Cons i js)
  from turn_par [of i c S E] have "(par_step S E)\<^sup>*\<^sup>* c (turn i c)" by auto
  with Cons.IH [of "turn i c"] show ?case by simp
qed simp

text \<open>Whatever interleaves, the state only moves by guaranteed steps.\<close>

lemma par_guar:
  assumes "(par_step S E)\<^sup>*\<^sup>* (ps, s) (ps', s')"
    and "\<forall>p \<in> set ps. guar G p" and "\<And>p. S p \<Longrightarrow> guar G p" and "\<And>s t. E s t \<Longrightarrow> G\<^sup>*\<^sup>* s t"
  shows "G\<^sup>*\<^sup>* s s' \<and> (\<forall>p \<in> set ps'. guar G p)"
  using assms(1)
proof (induction rule: rtranclp_induct2)
  case (step ps1 s1 ps2 s2)
  from step(2) show ?case
  proof (cases rule: par_step.cases)
    case (par_act i f k)
    then have "guar G (Act f k)" using step(3) nth_mem by fastforce
    then have "G s1 s2" "guar G (k s1)" using par_act by auto
    moreover have "set ps2 \<subseteq> insert (k s1) (set ps1)" unfolding par_act by (rule set_update_subset_insert)
    ultimately show ?thesis using step(3) by (auto intro: rtranclp.rtrancl_into_rtrancl)
  next
    case (par_start p)
    then show ?thesis using step(3) assms(3) by auto
  next
    case par_env
    then show ?thesis using step(3) assms(4) by (auto intro: rtranclp_trans)
  qed
qed (use assms(2) in simp)

text \<open>A program that gets all the turns runs as if it were alone.\<close>

lemma sched_alone:
  assumes "i < length ps"
  shows "\<exists>n. sched (replicate n i) (ps, s) = (ps[i := Ret (fst (run (ps ! i) s))], snd (run (ps ! i) s))"
proof -
  have "\<exists>n. sched (replicate n i) (qs, s) = (qs[i := Ret (fst (run p s))], snd (run p s))"
    if "qs ! i = p" "i < length qs" for p qs s
    using that
  proof (induction p arbitrary: qs s)
    case (Ret x)
    then have "qs[i := Ret x] = qs" by (metis list_update_id)
    then show ?case by (intro exI [of _ 0]) simp
  next
    case (Act f k)
    have t: "turn i (qs, s) = (qs[i := k s], f s)" using Act.prems by (simp add: turn_def)
    from Act.IH [OF rangeI, of "qs[i := k s]" s "f s"] Act.prems obtain n where
      "sched (replicate n i) (qs[i := k s], f s) = (qs[i := Ret (fst (run (k s) (f s)))], snd (run (k s) (f s)))"
      by auto
    with t show ?case by (intro exI [of _ "Suc n"]) simp
  qed
  from this [OF refl assms] show ?thesis .
qed

lemma par_alone:
  assumes "i < length ps"
  shows "(par_step S E)\<^sup>*\<^sup>* (ps, s) (ps[i := Ret (fst (run (ps ! i) s))], snd (run (ps ! i) s))"
  using sched_alone [OF assms, of s] sched_par [of S E "(ps, s)"] by (metis (no_types))


lemma sched_two:
  assumes "S p" and "S q"
  shows "(par_step S E)\<^sup>*\<^sup>* ([], s) (sched turns ([p, q], s))"
proof -
  have "par_step S E ([], s) ([] @ [p], s)" "par_step S E ([p], s) ([p] @ [q], s)"
    by (rule par_start, rule assms)+
  then have "(par_step S E)\<^sup>*\<^sup>* ([], s) ([p, q], s)" by (simp add: converse_rtranclp_into_rtranclp)
  then show ?thesis by (rule rtranclp_trans [OF _ sched_par])
qed


section \<open>Rely and guarantee\<close>

text \<open>
  Relying on its environment to move by \<open>R\<close> only, every action of the program is a step of \<open>G\<close> and its
  result is as \<open>Q\<close> says from then on.
\<close>

primrec safe :: "('s \<Rightarrow> 's \<Rightarrow> bool) \<Rightarrow> ('s \<Rightarrow> 's \<Rightarrow> bool) \<Rightarrow> ('a \<Rightarrow> 's \<Rightarrow> bool) \<Rightarrow> ('s, 'a) prog \<Rightarrow> 's \<Rightarrow> bool" where
  "safe R G Q (Ret x) s \<longleftrightarrow> (\<forall>t. R s t \<longrightarrow> Q x t)"
| "safe R G Q (Act f k) s \<longleftrightarrow> (\<forall>t. R s t \<longrightarrow> G t (f t) \<and> safe R G Q (k t) (f t))"

lemma safe_stable: "safe R G Q p s \<Longrightarrow> transp R \<Longrightarrow> R s t \<Longrightarrow> safe R G Q p t"
  by (cases p) (auto dest: transpD)

lemma safe_bind:
  assumes "reflp R" and "safe R G Q p s" and "\<And>x t. Q x t \<Longrightarrow> safe R G Q' (q x) t"
  shows "safe R G Q' (pbind p q) s"
  using assms(2)
proof (induction p arbitrary: s)
  case (Ret x)
  with assms(1) have "Q x s" by (simp add: reflp_def)
  with assms(3) show ?case by simp
qed auto

lemma guar_safe: "guar G p \<Longrightarrow> (\<And>x t. Q x t) \<Longrightarrow> safe R G Q p s"
  by (induction p arbitrary: s) auto

lemma par_safe:
  assumes "(par_step S E)\<^sup>*\<^sup>* (ps, s) (ps', s')"
    and R: "transp R" "reflp R" "\<And>s t. G s t \<Longrightarrow> R s t" and E: "\<And>s t. E s t \<Longrightarrow> G s t"
    and I: "\<And>s t. G s t \<Longrightarrow> I s \<Longrightarrow> I t" "I s"
    and S: "\<And>p s. S p \<Longrightarrow> I s \<Longrightarrow> safe R G Q p s" and ps: "\<forall>p \<in> set ps. safe R G Q p s"
  shows "G\<^sup>*\<^sup>* s s' \<and> I s' \<and> (\<forall>p \<in> set ps'. safe R G Q p s')"
  using assms(1)
proof (induction rule: rtranclp_induct2)
  case (step ps1 s1 ps2 s2)
  then have IH: "G\<^sup>*\<^sup>* s s1" "I s1" "\<forall>p \<in> set ps1. safe R G Q p s1" by simp_all
  have move: "G\<^sup>*\<^sup>* s s2" "I s2" "\<forall>p \<in> set ps1. safe R G Q p s2" if "G s1 s2"
    using that IH I(1) safe_stable [OF _ R(1) R(3) [OF that]] by (blast intro: rtranclp.rtrancl_into_rtrancl)+
  from step(2) show ?case
  proof (cases rule: par_step.cases)
    case (par_act i f k)
    then have "safe R G Q (Act f k) s1" using IH(3) nth_mem by fastforce
    then have "G s1 (f s1)" "safe R G Q (k s1) (f s1)" using R(2) by (auto simp: reflp_def)
    then show ?thesis using par_act move set_update_subset_insert [of ps1 i "k s1"] by (metis insertE subsetD)
  next
    case (par_start p)
    then show ?thesis using IH S by auto
  next
    case par_env
    then show ?thesis using move E by simp
  qed
qed (use I ps in simp)


section \<open>Invariants\<close>

text \<open>
  The contract between those who write programs and those who run them together: steps that keep an
  invariant, by the environment or by an action.
\<close>

locale guaranteed =
  fixes G :: "'s \<Rightarrow> 's \<Rightarrow> bool" and I :: "'s \<Rightarrow> bool"
  assumes keeps: "G s s' \<Longrightarrow> I s \<Longrightarrow> I s'"
begin

lemma keeps_all: "G\<^sup>*\<^sup>* s s' \<Longrightarrow> I s \<Longrightarrow> I s'"
  by (induction rule: rtranclp_induct) (auto intro: keeps)

lemma interleaved:
  assumes "(par_step S G)\<^sup>*\<^sup>* (ps, s) (ps', s')" and "\<forall>p \<in> set ps. guar G p" and "\<And>p. S p \<Longrightarrow> guar G p" and "I s"
  shows "I s'"
  using par_guar [OF assms(1-3)] keeps_all assms(4) by blast

lemma alone: "guar G p \<Longrightarrow> I s \<Longrightarrow> I (snd (run p s))"
proof (induction p arbitrary: s)
  case (Act f k)
  from Act.prems(1) have "G s (f s)" "guar G (k s)" by simp_all
  then show ?case using Act.IH [OF rangeI] keeps [OF _ Act.prems(2)] by simp
qed simp

end

end
