(* ===== verification/JobPrograms.thy ===== *)
theory JobPrograms
  imports Programs JobRuns
begin

text \<open>
  The jobs of \<open>handlers/jobs\<close> again, as programs of atomic actions: one statement or transaction, one
  call of the Kubernetes API, one critical section of the connection pool, one statement on a
  CockroachDB handle, one webhook.  Run alone each program is the job's \<open>Do\<close>.
\<close>

section \<open>Actions on the world\<close>

definition db_act :: "'a dbop \<Rightarrow> ('k world, err + 'a) prog" where
  "db_act op = act (on_db op)"

definition kube_act :: "('k \<Rightarrow> 'a \<times> 'k) \<Rightarrow> ('k world, 'a) prog" where
  "kube_act f = act (on_kube f)"

text \<open>
  An action on the manager, which is never unset once it is there; a call on a nil one is an error
  here.
\<close>

definition on_manager :: "(rdb \<Rightarrow> 'a \<times> rdb) \<Rightarrow> 'a \<Rightarrow> 'k world \<Rightarrow> 'a \<times> 'k world" where
  "on_manager f x s = (case wd_rdb s of None \<Rightarrow> (x, s)
     | Some m \<Rightarrow> (case f m of (r, m') \<Rightarrow> (r, s\<lparr>wd_rdb := Some m'\<rparr>)))"

definition rdb_act :: "'a rdbop \<Rightarrow> ('k world, err + 'a) prog" where
  "rdb_act op = act (on_manager op (Inl (Errorf ''nil manager'')))"

section \<open>Operations of the RDB manager\<close>

text \<open>The two critical sections of \<open>getOrCreateUserDB\<close>, with the touch of a healthy entry.\<close>

definition get_prog :: "string \<Rightarrow> ('k world, err + nat) prog" where
  "get_prog u = pbind (act (on_manager (fast_check u) None)) (\<lambda>r. case r of
     Some (h, i) \<Rightarrow> pbind (act (on_manager (\<lambda>m. ((), touch i m)) ())) (\<lambda>_. Ret (Inr h))
   | None \<Rightarrow> rdb_act (slow_path u))"

definition create_schema_prog :: "string \<Rightarrow> string \<Rightarrow> ('k world, err + unit) prog" where
  "create_schema_prog userUID schemaID =
     ebind (get_prog userUID) (\<lambda>db.
     ebind (rdb_act (db_Exec db (CreateSchemaStmt (schema_name schemaID)))) (\<lambda>_.
     rdb_act (db_Exec db (GrantSchema (schema_name schemaID) (username userUID)))))"

definition delete_schema_prog :: "string \<Rightarrow> string \<Rightarrow> ('k world, err + unit) prog" where
  "delete_schema_prog userUID schemaID =
     ebind (get_prog userUID) (\<lambda>db. rdb_act (db_Exec db (DropSchemaStmt (schema_name schemaID))))"

definition init_user_prog :: "string \<Rightarrow> ('k world, err + unit) prog" where
  "init_user_prog userUID =
     ebind (rdb_act tryGetRootDB) (\<lambda>db.
     ebind (rdb_act (db_Exec db (CreateDatabase (database userUID)))) (\<lambda>_.
     ebind (rdb_act (db_Exec db (CreateUserStmt (username userUID)))) (\<lambda>_.
     rdb_act (db_Exec db (GrantDatabase (database userUID) (username userUID))))))"

definition drop_database_prog :: "string \<Rightarrow> ('k world, err + unit) prog" where
  "drop_database_prog dbName = ebind (rdb_act tryGetRootDB) (\<lambda>db. rdb_act (db_Exec db (DropDatabaseStmt dbName)))"

definition list_databases_prog :: "('k world, err + string list) prog" where
  "list_databases_prog = ebind (rdb_act tryGetRootDB) (\<lambda>db.
     rdb_act (db_Query db (\<lambda>cur c. Inr (filter (like ''db_%'') (c_databases c)))))"

text \<open>A program that does, alone, what an operation does in one go.\<close>

definition realises :: "('k world, err + 'a) prog \<Rightarrow> 'a rdbop \<Rightarrow> bool" where
  "realises p op \<longleftrightarrow> (\<forall>s m. wd_rdb s = Some m \<longrightarrow> run p s = on_rdb op m s)"

named_theorems realising

lemma realises_run: "realises p op \<Longrightarrow> wd_rdb s = Some m \<Longrightarrow> run p s = on_rdb op m s"
  by (simp add: realises_def)

lemma realises_act [realising]: "realises (rdb_act op) op"
  by (simp add: realises_def rdb_act_def on_manager_def on_rdb_def)

lemma realises_bind [realising]:
  assumes "realises p op" and "\<And>x. realises (q x) (k x)"
  shows "realises (ebind p q) (rdb_bind op k)"
  unfolding realises_def
proof (intro allI impI)
  fix s :: "'a world" and m assume s: "wd_rdb s = Some m"
  obtain r m1 where op: "op m = (r, m1)" by (cases "op m")
  have p: "run p s = (r, s\<lparr>wd_rdb := Some m1\<rparr>)" using realises_run [OF assms(1) s] op by (simp add: on_rdb_def)
  show "run (ebind p q) s = on_rdb (rdb_bind op k) m s"
  proof (cases r)
    case (Inl e)
    with p op show ?thesis by (simp add: on_rdb_def rdb_bind_def)
  next
    case (Inr x)
    with p op realises_run [OF assms(2) [of x], of "s\<lparr>wd_rdb := Some m1\<rparr>" m1] show ?thesis
      by (simp add: on_rdb_def rdb_bind_def split: prod.split)
  qed
qed

lemma realises_get [realising]: "realises (get_prog u) (getOrCreateUserDB u)"
  by (auto simp: realises_def get_prog_def on_manager_def on_rdb_def getOrCreateUserDB_def rdb_act_def
      split: prod.splits option.splits)

lemma realises_ops [realising]:
  "realises (create_schema_prog u sid) (CreateSchema u sid)"
  "realises (delete_schema_prog u sid) (DeleteSchema u sid)"
  "realises (init_user_prog u) (InitUserRDB u)"
  "realises (drop_database_prog n) (DropDatabase n)"
  "realises list_databases_prog RootListUserDatabases"
  unfolding create_schema_prog_def delete_schema_prog_def init_user_prog_def drop_database_prog_def
    list_databases_prog_def CreateSchema_def DeleteSchema_def InitUserRDB_def DropDatabase_def
    RootListUserDatabases_def
  by (intro realising)+

section \<open>Deployments, syncs, deletions\<close>

definition create_app_prog :: "'k kube \<Rightarrow> string \<Rightarrow> WorkerAppSpec \<Rightarrow> ('k world, err option) prog" where
  "create_app_prog K name w =
     pbind (kube_act (k_get K WorkerApps WorkerNamespace name)) (\<lambda>r. case r of
       Inl _ \<Rightarrow> pbind (kube_act (k_create K WorkerApps WorkerNamespace (worker_app name w))) (\<lambda>r. Ret (map_option kerr_err r))
     | Inr existing \<Rightarrow> pbind (kube_act (k_update K WorkerApps WorkerNamespace
         ((worker_app name w)\<lparr>o_resourceVersion := o_resourceVersion existing\<rparr>))) (\<lambda>r. Ret (map_option kerr_err r)))"

text \<open>The outcome of the create is recorded in the database.\<close>

definition deploy_record :: "int \<Rightarrow> worker \<Rightarrow> err option \<Rightarrow> ('k world, err option) prog" where
  "deploy_record versionID w r = (case r of
     Some e \<Rightarrow>
       pbind (db_act (UpdateDeployVersionStatus versionID ''error'' (err_text e))) (\<lambda>_.
       pbind (db_act (UpdateWorkerStatus (w_WID w) ''error''))
         (\<lambda>_. Ret (Some (Wrap (''create CR for version '' @ dec_int versionID) e))))
   | None \<Rightarrow> pbind (db_act (DeployVersionSuccess versionID (w_ID w))) (\<lambda>_. Ret None))"

definition deploy_prog :: "'k kube \<Rightarrow> int \<Rightarrow> ('k world, err option) prog" where
  "deploy_prog K versionID =
     pbind (db_act (GetDeployVersionWithWorker versionID)) (\<lambda>r. case r of
       Inl e \<Rightarrow> pbind (db_act (UpdateDeployVersionStatus versionID ''error'' (err_text e)))
         (\<lambda>_. Ret (Some (Wrap (''get version '' @ dec_int versionID) e)))
     | Inr (v, w, sk) \<Rightarrow>
         pbind (create_app_prog K (WorkerName (w_WID w) (w_UserUID w))
             \<lparr>WorkerID = w_WID w, OwnerID = w_UserUID w, OwnerSK = sk, Image = v_Image v, Port = v_Port v\<rparr>) (deploy_record versionID w))"

definition sync_prog :: "'k kube \<Rightarrow> kind \<Rightarrow> string \<Rightarrow> string \<Rightarrow> string \<Rightarrow> string gomap option \<Rightarrow> ('k world, err option) prog" where
  "sync_prog K kd name wid msg m =
     pbind (ask (\<lambda>s. g_K8sClient (wd_globals s))) (\<lambda>ready.
       if \<not> ready then Ret None
       else pbind (kube_act (k_get K kd WorkerNamespace name)) (\<lambda>r. case r of
         Inl _ \<Rightarrow> Ret None
       | Inr ob \<Rightarrow> pbind (kube_act (k_update K kd WorkerNamespace (with_data m ob))) (\<lambda>r. case r of
           Some e \<Rightarrow> pbind (db_act (UpdateWorkerStatus wid ''error'')) (\<lambda>_. Ret (Some (Wrap msg (kerr_err e))))
         | None \<Rightarrow> pbind (db_act (UpdateWorkerStatus wid ''active'')) (\<lambda>_. Ret None))))"

definition delete_app_prog :: "'k kube \<Rightarrow> string \<Rightarrow> ('k world, err option) prog" where
  "delete_app_prog K name =
     pbind (kube_act (k_delete K WorkerApps WorkerNamespace name)) (\<lambda>r. Ret (map_option kerr_err r))"

text \<open>The webhooks, one action each.\<close>

fun post_prog :: "json \<Rightarrow> string list \<Rightarrow> ('k world, unit) prog" where
  "post_prog j [] = Ret ()"
| "post_prog j (u # us) = pbind (act (\<lambda>s. ((), s\<lparr>wd_posts := wd_posts s @ [(u, j)]\<rparr>))) (\<lambda>_. post_prog j us)"

definition notify_prog :: "'k kube \<Rightarrow> string \<Rightarrow> string \<Rightarrow> string \<Rightarrow> ('k world, err option) prog" where
  "notify_prog K userUID resourceID resourceType =
     pbind (ask (\<lambda>s. g_K8sClient (wd_globals s))) (\<lambda>ready.
       if \<not> ready then Ret (Some (Errorf ''k8s client not available''))
       else pbind (kube_act (k_list K Pods ''combinator'' ''app=combinator'')) (\<lambda>r. case r of
         Inl e \<Rightarrow> Ret (Some (Wrap ''failed to list combinator pods'' (kerr_err e)))
       | Inr items \<Rightarrow> pbind (post_prog (webhook_payload userUID resourceID resourceType) (pod_urls items)) (\<lambda>_. Ret None)))"

section \<open>Combinator resources\<close>

definition rdb_missing :: "'k world \<Rightarrow> bool" where
  "rdb_missing s \<longleftrightarrow> wd_rdb s = None"

definition register_prog :: "string \<Rightarrow> ('k world, err option) prog" where
  "register_prog uid = pbind (ask rdb_missing) (\<lambda>none.
     if none then Ret None else pbind (init_user_prog uid) (\<lambda>_. Ret None))"

definition create_rdb_prog :: "string \<Rightarrow> string \<Rightarrow> ('k world, err option) prog" where
  "create_rdb_prog uid rid = pbind (ask rdb_missing) (\<lambda>none.
     if none then pbind (db_act (UpdateCombinatorResourceStatus uid ''rdb'' rid ''error'' ''cockroachdb not available''))
       (\<lambda>_. Ret (Some (Errorf ''cockroachdb not available'')))
     else pbind (init_user_prog uid) (\<lambda>r. case r of
       Inl e \<Rightarrow> pbind (db_act (UpdateCombinatorResourceStatus uid ''rdb'' rid ''error'' (err_text e)))
         (\<lambda>_. Ret (Some (Wrap ''init user rdb'' e)))
     | Inr _ \<Rightarrow> pbind (create_schema_prog uid rid) (\<lambda>r. case r of
         Inl e \<Rightarrow> pbind (db_act (UpdateCombinatorResourceStatus uid ''rdb'' rid ''error'' (err_text e)))
           (\<lambda>_. Ret (Some (Wrap ''create schema'' e)))
       | Inr _ \<Rightarrow> pbind (db_act (UpdateCombinatorResourceStatus uid ''rdb'' rid ''active'' '''')) (\<lambda>_. Ret None))))"

definition delete_rdb_prog :: "'k kube \<Rightarrow> string \<Rightarrow> string \<Rightarrow> ('k world, err option) prog" where
  "delete_rdb_prog K uid rid = pbind (ask rdb_missing) (\<lambda>none.
     pbind (if none then Ret (Inr ()) else delete_schema_prog uid rid) (\<lambda>_.
     pbind (notify_prog K uid rid ''rdb'') (\<lambda>_. Ret None)))"

definition create_kv_prog :: "string \<Rightarrow> string \<Rightarrow> ('k world, err option) prog" where
  "create_kv_prog uid rid = pbind (db_act (UpdateCombinatorResourceStatus uid ''kv'' rid ''active'' '''')) (\<lambda>_. Ret None)"

definition delete_kv_prog :: "'k kube \<Rightarrow> string \<Rightarrow> string \<Rightarrow> ('k world, err option) prog" where
  "delete_kv_prog K uid rid = pbind (notify_prog K uid rid ''kv'') (\<lambda>_. Ret None)"

section \<open>The periodic jobs\<close>

text \<open>
  Users may be added while the pages are read, so the loop has no bound of its own: \<open>n\<close> is the number
  of pages it reads at most.
\<close>

fun load_prog :: "nat \<Rightarrow> nat \<Rightarrow> string list \<Rightarrow> ('k world, err + string list) prog" where
  "load_prog 0 off acc = Ret (Inl (Errorf ''more users''))"
| "load_prog (Suc n) off acc = ebind (db_act (ListUserUIDsPaged userPageSize off)) (\<lambda>uids.
     if length uids < userPageSize then Ret (Inr (fold add_new uids acc))
     else load_prog n (off + userPageSize) (fold add_new uids acc))"

fun init_missing_prog :: "string list \<Rightarrow> string list \<Rightarrow> ('k world, unit) prog" where
  "init_missing_prog [] existingDBs = Ret ()"
| "init_missing_prog (uid # uids) existingDBs =
     (if DatabaseName uid \<in> set existingDBs then init_missing_prog uids existingDBs
      else pbind (init_user_prog uid) (\<lambda>_. init_missing_prog uids existingDBs))"

fun clean_workers_prog :: "'k kube \<Rightarrow> string list \<Rightarrow> kobj list \<Rightarrow> ('k world, unit) prog" where
  "clean_workers_prog K userSet [] = Ret ()"
| "clean_workers_prog K userSet (item # items) =
     (if owner_of_item item = '''' \<or> owner_of_item item \<in> set userSet then clean_workers_prog K userSet items
      else pbind (delete_app_prog K (o_name item)) (\<lambda>_. clean_workers_prog K userSet items))"

fun clean_dbs_prog :: "string list \<Rightarrow> string list \<Rightarrow> ('k world, unit) prog" where
  "clean_dbs_prog userSet [] = Ret ()"
| "clean_dbs_prog userSet (dbName # dbs) =
     (if dbName \<in> set (map DatabaseName userSet) then clean_dbs_prog userSet dbs
      else pbind (drop_database_prog dbName) (\<lambda>_. clean_dbs_prog userSet dbs))"

text \<open>What the audit does once it has its set of users.\<close>

definition audit_tail :: "'k kube \<Rightarrow> (string list \<Rightarrow> string list) \<Rightarrow> string list \<Rightarrow> ('k world, err option) prog" where
  "audit_tail K ord userSet =
     pbind (kube_act (k_list K WorkerApps WorkerNamespace '''')) (\<lambda>r. case r of
       Inl e \<Rightarrow> Ret (Some (Wrap ''list worker CRs'' (kerr_err e)))
     | Inr workerCRs \<Rightarrow>
         pbind (ask rdb_missing) (\<lambda>none.
         pbind (if none then Ret (Inr []) else list_databases_prog) (\<lambda>r.
         let existingDBs = (case r of Inl _ \<Rightarrow> [] | Inr dbs \<Rightarrow> dbs) in
         pbind (if existingDBs = [] then Ret () else init_missing_prog (ord userSet) existingDBs) (\<lambda>_.
         pbind (clean_workers_prog K userSet workerCRs) (\<lambda>_.
         pbind (if existingDBs = [] then Ret () else clean_dbs_prog userSet existingDBs) (\<lambda>_. Ret None))))))"

definition audit_prog :: "'k kube \<Rightarrow> (string list \<Rightarrow> string list) \<Rightarrow> nat \<Rightarrow> ('k world, err option) prog" where
  "audit_prog K ord n =
     pbind (ask (\<lambda>s. g_K8sClient (wd_globals s) \<and> g_DynamicClient (wd_globals s))) (\<lambda>ready.
       if \<not> ready then Ret None
       else pbind (load_prog n 0 []) (\<lambda>r. case r of Inl e \<Rightarrow> Ret (Some e) | Inr userSet \<Rightarrow> audit_tail K ord userSet))"

fun check_domains_prog :: "custom_domain list \<Rightarrow> ('k world, unit) prog" where
  "check_domains_prog [] = Ret ()"
| "check_domains_prog (cd # cds) =
     pbind (act (LookupTXT (cd_TXTName cd))) (\<lambda>r. case r of
       None \<Rightarrow> pbind (db_act (UpdateCustomDomainStatus (cd_CDID cd) ''error'')) (\<lambda>_. check_domains_prog cds)
     | Some records \<Rightarrow>
         (if has_record (cd_TXTValue cd) records then check_domains_prog cds
          else pbind (db_act (UpdateCustomDomainStatus (cd_CDID cd) ''error'')) (\<lambda>_. check_domains_prog cds)))"

definition domain_check_prog :: "('k world, err option) prog" where
  "domain_check_prog = pbind (db_act ListAllSuccessDomains) (\<lambda>r. case r of
     Inl e \<Rightarrow> Ret (Some e) | Inr domains \<Rightarrow> pbind (check_domains_prog domains) (\<lambda>_. Ret None))"

section \<open>Every job\<close>

definition job_prog :: "'k kube \<Rightarrow> (string list \<Rightarrow> string list) \<Rightarrow> nat \<Rightarrow> job \<Rightarrow> ('k world, err option) prog" where
  "job_prog K ord n j =
     (case j of
        RegisterUserJob uid \<Rightarrow> register_prog uid
      | UserAuditJob \<Rightarrow> audit_prog K ord n
      | DeployWorkerJob wid uid v \<Rightarrow> deploy_prog K v
      | DeleteWorkerCRJob wid uid \<Rightarrow> delete_app_prog K (WorkerName wid uid)
      | SyncEnvJob wid uid m \<Rightarrow>
          sync_prog K ConfigMaps (WorkerName wid uid @ ''-env'') wid ''sync env configmap'' m
      | SyncSecretJob wid uid m \<Rightarrow>
          sync_prog K Secrets (WorkerName wid uid @ ''-secret'') wid ''sync secret'' (Some (or_empty m))
      | CreateRDBJob uid name rid \<Rightarrow> create_rdb_prog uid rid
      | DeleteRDBJob uid rid \<Rightarrow> delete_rdb_prog K uid rid
      | CreateKVJob uid rid \<Rightarrow> create_kv_prog uid rid
      | DeleteKVJob uid rid \<Rightarrow> delete_kv_prog K uid rid
      | DomainCheckJob \<Rightarrow> domain_check_prog)"

section \<open>Run alone\<close>

lemma run_db [simp]: "run (db_act op) s = on_db op s"
  by (simp add: db_act_def)

lemma run_kube [simp]: "run (kube_act f) s = on_kube f s"
  by (simp add: kube_act_def)

lemma do_db_snd: "on_db op s = (r, s') \<Longrightarrow> do_db op s = s'"
  by (simp add: do_db_def)

lemma do_kube_snd: "on_kube f s = (r, s') \<Longrightarrow> do_kube f s = s'"
  by (simp add: do_kube_def)

lemma on_kube_pair:
  "on_kube (\<lambda>s. case f s of (r, s1) \<Rightarrow> (h r, s1)) s = (case on_kube f s of (r, s') \<Rightarrow> (h r, s'))"
  by (simp add: on_kube_def split: prod.split)

lemma run_create_app: "run (create_app_prog K n w) s = on_kube (CreateWorkerAppCR K n w) s"
  by (simp add: create_app_prog_def CreateWorkerAppCR_def on_kube_def split: prod.split sum.split)

lemma run_delete_app: "run (delete_app_prog K n) s = on_kube (DeleteWorkerAppCR K n) s"
  by (simp add: delete_app_prog_def DeleteWorkerAppCR_def on_kube_def split: prod.split)

lemma run_deploy: "run (deploy_prog K v) s = deployWorker_Do K v s"
  by (auto simp: deploy_prog_def deploy_record_def deployWorker_Do_def run_create_app do_db_def split: prod.split sum.split option.split)

lemma run_sync: "run (sync_prog K kd name wid msg m) s = sync_data K kd name wid msg m s"
  by (auto simp: sync_prog_def sync_data_def do_db_def split: prod.split sum.split option.split)

lemma run_post: "run (post_prog j us) s = ((), s\<lparr>wd_posts := wd_posts s @ map (\<lambda>u. (u, j)) us\<rparr>)"
  by (induction us arbitrary: s) simp_all

lemma run_notify: "run (notify_prog K u rid ty) s = notifyAllCombinatorPods K u rid ty s"
  by (auto simp: notify_prog_def notifyAllCombinatorPods_def run_post split: prod.split sum.split)

lemmas run_ops = realises_run [OF realises_ops(1)] realises_run [OF realises_ops(2)] realises_run [OF realises_ops(3)]
  realises_run [OF realises_ops(4)] realises_run [OF realises_ops(5)]

lemma on_rdb_still: "on_rdb op m s = (r, s') \<Longrightarrow> wd_rdb s' = Some (snd (op m)) \<and> fst (op m) = r \<and>
    s' = s\<lparr>wd_rdb := Some (snd (op m))\<rparr>"
  by (auto simp: on_rdb_def split: prod.splits)

lemma run_register: "run (register_prog u) s = registerUser_Do u s"
  by (auto simp: register_prog_def registerUser_Do_def rdb_missing_def run_ops split: option.split prod.split)

lemma run_create_rdb: "run (create_rdb_prog u rid) s = createRDB_Do u rid s"
proof (cases "wd_rdb s")
  case None
  then show ?thesis by (simp add: create_rdb_prog_def createRDB_Do_def rdb_missing_def do_db_def split: prod.split)
next
  case (Some m)
  obtain r s1 where i: "on_rdb (InitUserRDB u) m s = (r, s1)" by (cases "on_rdb (InitUserRDB u) m s")
  then have "wd_rdb s1 = Some (snd (InitUserRDB u m))" by (simp add: on_rdb_still)
  with Some i show ?thesis
    by (auto simp: create_rdb_prog_def createRDB_Do_def rdb_missing_def run_ops do_db_def split: prod.split sum.split)
qed

lemma run_delete_rdb: "run (delete_rdb_prog K u rid) s = deleteRDB_Do K u rid s"
  by (auto simp: delete_rdb_prog_def deleteRDB_Do_def rdb_missing_def run_ops run_notify Let_def
      split: option.split prod.split)

lemma run_load:
  assumes "length (t_users (tab (wd_db s))) < off + n * userPageSize" and "0 < n"
  shows "run (load_prog n off acc) s = on_db (load_pages off acc) s"
  using assms
proof (induction n arbitrary: off acc s)
  case (Suc n)
  obtain r d where q: "ListUserUIDsPaged userPageSize off (wd_db s) = (r, d)"
    by (cases "ListUserUIDsPaged userPageSize off (wd_db s)")
  show ?case
  proof (cases r)
    case (Inl e)
    with q show ?thesis by (simp add: on_db_def load_pages.simps [of off])
  next
    case (Inr uids)
    show ?thesis
    proof (cases "length uids < userPageSize")
      case True
      with q Inr show ?thesis by (simp add: on_db_def load_pages.simps [of off])
    next
      case False

      have t: "t_users (tab d) = t_users (tab (wd_db s))"
        using q Inr by (auto simp: ListUserUIDsPaged_def dest: sql_query_tab)
      from uids.page_ok [OF q [unfolded Inr]] have "length uids \<le> length (t_users (tab (wd_db s))) - off" by simp
      with False Suc.prems(1) have "0 < n" by (cases n) (simp_all add: userPageSize_def)
      with False q Inr Suc t show ?thesis
        by (simp add: on_db_def load_pages.simps [of off])
    qed
  qed
qed simp

lemma run_clean_workers: "run (clean_workers_prog K us items) s = ((), cleanOrphanWorkers K us items s)"
  by (induction items arbitrary: s) (auto simp: run_delete_app do_kube_def Let_def split: prod.split)

lemma run_init_missing:
  "wd_rdb s = Some m \<Longrightarrow> run (init_missing_prog us dbs) s = ((), s\<lparr>wd_rdb := Some (checkUserRDBInitialization us dbs m)\<rparr>)"
  by (induction us arbitrary: s m) (auto simp: run_ops on_rdb_def split: prod.split)

lemma run_clean_dbs:
  "wd_rdb s = Some m \<Longrightarrow> run (clean_dbs_prog us dbs) s = ((), s\<lparr>wd_rdb := Some (cleanOrphanRDBs us dbs m)\<rparr>)"
  by (induction dbs arbitrary: s m) (auto simp: run_ops on_rdb_def split: prod.split)

lemma do_kube_with_rdb: "do_kube f (s\<lparr>wd_rdb := m\<rparr>) = (do_kube f s)\<lparr>wd_rdb := m\<rparr>"
  by (simp add: do_kube_def on_kube_def split: prod.split)

lemma clean_workers_with_rdb:
  "cleanOrphanWorkers K us items (s\<lparr>wd_rdb := m\<rparr>) = (cleanOrphanWorkers K us items s)\<lparr>wd_rdb := m\<rparr>"
  by (induction items arbitrary: s) (simp_all add: Let_def do_kube_with_rdb)

lemma clean_workers_manager: "wd_rdb (cleanOrphanWorkers K us items s) = wd_rdb s"
  by (induction items arbitrary: s) (simp_all add: Let_def)

lemma run_tail:
  "run (audit_tail K ord us) t = (case on_kube (k_list K WorkerApps WorkerNamespace '''') t of
      (Inl e, s2) \<Rightarrow> (Some (Wrap ''list worker CRs'' (kerr_err e)), s2)
    | (Inr workerCRs, s2) \<Rightarrow>
        (case wd_rdb s2 of
           None \<Rightarrow> (None, cleanOrphanWorkers K us workerCRs s2)
         | Some m \<Rightarrow>
             (case RootListUserDatabases m of
                (r, m1) \<Rightarrow>
                  (let existingDBs = (case r of Inl _ \<Rightarrow> [] | Inr dbs \<Rightarrow> dbs);
                       m2 = (if existingDBs = [] then m1
                             else checkUserRDBInitialization (ord us) existingDBs m1);
                       s3 = cleanOrphanWorkers K us workerCRs (s2\<lparr>wd_rdb := Some m2\<rparr>);
                       m3 = (if existingDBs = [] then m2 else cleanOrphanRDBs us existingDBs m2)
                   in (None, s3\<lparr>wd_rdb := Some m3\<rparr>)))))"
  by (auto simp: audit_tail_def rdb_missing_def run_ops run_clean_workers run_init_missing run_clean_dbs on_rdb_def
        clean_workers_manager clean_workers_with_rdb Let_def split: prod.split sum.split option.split)

lemma run_audit:
  assumes "length (t_users (tab (wd_db s))) < n * userPageSize"
  shows "run (audit_prog K ord n) s = userAudit_Do K ord s"
proof -
  have "0 < n" using assms by (cases n) simp_all
  show ?thesis
    unfolding audit_prog_def userAudit_Do_def loadAllUserUIDs_def
    by (simp add: run_load [OF _ \<open>0 < n\<close>] assms run_tail split: prod.split sum.split)
qed

lemma run_check_domains: "run (check_domains_prog cds) s = ((), check_domains cds s)"
  by (induction cds arbitrary: s) (auto simp: do_db_def split: prod.split option.split)

lemma run_domain_check: "run domain_check_prog s = domainCheck_Do s"
  by (auto simp: domain_check_prog_def domainCheck_Do_def run_check_domains split: prod.split sum.split)

lemma run_job:
  assumes "j = UserAuditJob \<Longrightarrow> length (t_users (tab (wd_db s))) < n * userPageSize"
  shows "run (job_prog K ord n j) s = job_Do K ord j s"
  using assms
  by (cases j) (auto simp: job_prog_def job_Do_def run_register run_audit run_deploy run_delete_app run_sync
      run_create_rdb run_delete_rdb run_domain_check run_notify syncEnv_Do_def syncSecret_Do_def deleteWorkerCR_Do_def
      create_kv_prog_def delete_kv_prog_def createKV_Do_def deleteKV_Do_def do_db_def split: prod.split)

end
