(* ===== verification/Interleaving.thy ===== *)
theory Interleaving
  imports JobPrograms JobProps
begin

text \<open>
  The jobs interleaved, action by action, with each other and with whatever the rest of the system does
  meanwhile: the processor's four workers run jobs at the same time, beside the requests of both
  gateways.  The invariants hold under every interleaving.
\<close>

section \<open>Steps on the shared state\<close>

text \<open>
  One operation on the database, one critical section or statement on the connection pool, one change of
  the cluster (by anybody), one lookup, one webhook.
\<close>

inductive world_step :: "'k world \<Rightarrow> 'k world \<Rightarrow> bool" where
  stays: "world_step s s"
| on_database: "db_step (wd_db s) d \<Longrightarrow> world_step s (s\<lparr>wd_db := d\<rparr>)"
| on_pool: "wd_rdb s = Some m \<Longrightarrow> rdb_step m m' \<Longrightarrow> world_step s (s\<lparr>wd_rdb := Some m'\<rparr>)"
| on_cluster: "world_step s (s\<lparr>wd_kube := c\<rparr>)"
| on_network: "world_step s (s\<lparr>wd_dns := a, wd_lookups := n, wd_posts := ps\<rparr>)"

text \<open>What all these steps keep.\<close>

definition shared_ok :: "bool \<Rightarrow> 'k world \<Rightarrow> bool" where
  "shared_ok b s \<longleftrightarrow> world_ok s \<and> (wd_rdb s = None \<longleftrightarrow> b)"

interpretation shared: guaranteed world_step "shared_ok b"
proof
  fix s s' :: "'a world" assume "world_step s s'" and "shared_ok b s"
  then show "shared_ok b s'"
    by (cases rule: world_step.cases) (auto simp: shared_ok_def world_ok_def intro: db_step_ok rdb_step_ok)
qed

section \<open>Every action of a job is such a step\<close>

text \<open>
  Jobs never touch the table of users, and the only databases they drop are in \<open>D\<close>.
\<close>

inductive job_step :: "string set \<Rightarrow> 'k world \<Rightarrow> 'k world \<Rightarrow> bool" for D where
  job_stays: "job_step D s s"
| job_database: "db_step (wd_db s) d \<Longrightarrow> t_users (tab d) = t_users (tab (wd_db s)) \<Longrightarrow> job_step D s (s\<lparr>wd_db := d\<rparr>)"
| job_pool: "wd_rdb s = Some m \<Longrightarrow> rdb_step m m' \<Longrightarrow> set (rdb_names m) - D \<subseteq> set (rdb_names m') \<Longrightarrow>
    job_step D s (s\<lparr>wd_rdb := Some m'\<rparr>)"
| job_cluster: "job_step D s (s\<lparr>wd_kube := c\<rparr>)"
| job_network: "job_step D s (s\<lparr>wd_dns := a, wd_lookups := n, wd_posts := ps\<rparr>)"

lemma job_step_world: "job_step D s s' \<Longrightarrow> world_step s s'"
  by (induction rule: job_step.induct) (auto intro: world_step.intros)

lemma guar_db:
  assumes "\<And>d. db_step d (snd (op d))" and "\<And>d. t_users (tab (snd (op d))) = t_users (tab d)"
  shows "guar (job_step D) (db_act op)"
proof -
  have "job_step D s (s\<lparr>wd_db := snd (op (wd_db s))\<rparr>)" for s :: "'b world" using assms by (rule job_database)
  then show ?thesis by (simp add: db_act_def on_db_def case_prod_beta guar_act)
qed

lemma guar_kube [guar_intros]: "guar (job_step D) (kube_act f)"
  by (auto simp: kube_act_def on_kube_def split: prod.split intro!: guar_act job_cluster)

lemma guar_ask_world [guar_intros]: "guar (job_step D) (ask f)"
  by (intro guar_ask job_stays)

lemma guar_manager:
  assumes "\<And>m. rdb_step m (snd (f m))" and "\<And>m. set (rdb_names m) - D \<subseteq> set (rdb_names (snd (f m)))"
  shows "guar (job_step D) (act (on_manager f x))"
proof (rule guar_act)
  fix s :: "'b world"
  show "job_step D s (snd (on_manager f x s))"
  proof (cases "wd_rdb s")
    case (Some m)
    with job_pool [OF Some assms [of m]] show ?thesis by (simp add: on_manager_def case_prod_beta)
  qed (simp add: on_manager_def job_stays)
qed

lemma section_servers:
  "server (snd (fast_check u m)) = server m" "server (touch i m) = server m"
  "server (snd (slow_path u m)) = server m" "server (snd (tryGetRootDB m)) = server m"
proof -
  show f: "server (snd (fast_check u m)) = server m" for m
    by (auto simp: fast_check_def ping_def split: option.split list.split prod.split bool.split)
  show "server (touch i m) = server m" by (simp add: touch_def)
  show "server (snd (slow_path u m)) = server m"
    by (cases "slow_path u m") (auto dest: slow_path_server)
  show "server (snd (tryGetRootDB m)) = server m"
    by (cases "tryGetRootDB m") (auto dest: tryGetRootDB_server)
qed

lemma exec_names: "(\<And>n. st = DropDatabaseStmt n \<Longrightarrow> n \<in> D) \<Longrightarrow> set (rdb_names m) - D \<subseteq> set (rdb_names (snd (db_Exec h st m)))"
  by (cases "db_Exec h st m"; cases "fst (db_Exec h st m)"; cases st)
    (auto simp: rdb_names_def contents_def add_new_def dest!: db_Exec_ok db_Exec_err split: if_splits)

lemma server_section: "rdb_step m (snd (on_server h f m))"
  using on_server_frame [of h f m] step_server [of m] by (metis prod.collapse)

lemma guar_rdb_sections [guar_intros]:
  "guar (job_step D) (act (on_manager (fast_check u) x))"
  "guar (job_step D) (act (on_manager (\<lambda>m. ((), touch i m)) y))"
  "guar (job_step D) (rdb_act (slow_path u))" "guar (job_step D) (rdb_act tryGetRootDB)"
  unfolding rdb_act_def
  by (intro guar_manager; auto simp: rdb_names_def section_servers intro: rdb_step.intros prod.collapse [symmetric])+

lemma guar_exec: "(\<And>n. st = DropDatabaseStmt n \<Longrightarrow> n \<in> D) \<Longrightarrow> guar (job_step D) (rdb_act (db_Exec h st))"
  unfolding rdb_act_def by (intro guar_manager exec_names) (simp_all add: db_Exec_def server_section)

lemma guar_query [guar_intros]: "guar (job_step D) (rdb_act (db_Query h q))"
proof -
  have "set (rdb_names m) - D \<subseteq> set (rdb_names (snd (db_Query h q m)))" for m
    using db_Query_contents [of h q m] by (cases "db_Query h q m") (auto simp: rdb_names_def contents_def)
  then show ?thesis unfolding rdb_act_def by (intro guar_manager) (simp_all add: db_Query_def server_section)
qed

lemma guar_get [guar_intros]: "guar (job_step D) (get_prog u)"
  unfolding get_prog_def by (auto intro!: guar_intros split: option.split)

lemma guar_rdb_ops [guar_intros]:
  "guar (job_step D) (create_schema_prog u sid)" "guar (job_step D) (delete_schema_prog u sid)"
  "guar (job_step D) (init_user_prog u)" "guar (job_step D) list_databases_prog"
  unfolding create_schema_prog_def delete_schema_prog_def init_user_prog_def list_databases_prog_def
  by (intro guar_intros guar_exec; simp)+

lemma guar_drop: "n \<in> D \<Longrightarrow> guar (job_step D) (drop_database_prog n)"
  unfolding drop_database_prog_def by (intro guar_intros guar_exec) simp

lemma db_step_ran: "(\<And>d. ran op d (snd (op d)) \<Longrightarrow> db_step d (snd (op d))) \<Longrightarrow> db_step d (snd (op d))"
  by (simp add: ran_def)

lemma job_statements:
  "db_step d (snd (GetDeployVersionWithWorker v d))" "db_step d (snd (UpdateDeployVersionStatus v st msg d))"
  "db_step d (snd (UpdateWorkerStatus wid st d))" "db_step d (snd (DeployVersionSuccess v i d))"
  "db_step d (snd (UpdateCombinatorResourceStatus u ty rid st msg d))" "db_step d (snd (ListUserUIDsPaged l off d))"
  "db_step d (snd (UpdateCustomDomainStatus cdid st d))" "db_step d (snd (ListAllSuccessDomains d))"
  by (rule db_step_ran, erule db_step.intros)+

definition same_users :: "tables \<Rightarrow> tables \<Rightarrow> bool" where
  "same_users t t' \<longleftrightarrow> t_users t' = t_users t"

lemma same_users_refl: "reflp same_users" and same_users_trans: "transp same_users"
  by (auto simp: same_users_def intro!: reflpI transpI)

lemma statement_users:
  "t_users (tab (snd (GetDeployVersionWithWorker v d))) = t_users (tab d)"
  "t_users (tab (snd (UpdateDeployVersionStatus v st msg d))) = t_users (tab d)"
  "t_users (tab (snd (UpdateWorkerStatus wid st d))) = t_users (tab d)"
  "t_users (tab (snd (DeployVersionSuccess v i d))) = t_users (tab d)"
  "t_users (tab (snd (UpdateCombinatorResourceStatus u ty rid st msg d))) = t_users (tab d)"
  "t_users (tab (snd (ListUserUIDsPaged l off d))) = t_users (tab d)"
  "t_users (tab (snd (UpdateCustomDomainStatus cdid st d))) = t_users (tab d)"
  "t_users (tab (snd (ListAllSuccessDomains d))) = t_users (tab d)"
proof -
  have "tab_moves same_users (GetDeployVersionWithWorker v)" "tab_moves same_users (UpdateDeployVersionStatus v st msg)"
    "tab_moves same_users (UpdateWorkerStatus wid st)" "tab_moves same_users (DeployVersionSuccess v i)"
    "tab_moves same_users (UpdateCombinatorResourceStatus u ty rid st msg)" "tab_moves same_users (ListUserUIDsPaged l off)"
    "tab_moves same_users (UpdateCustomDomainStatus cdid st)" "tab_moves same_users ListAllSuccessDomains"
    unfolding every_op_def
    by (auto simp: same_users_def intro!: tab_moves_intros same_users_refl same_users_trans split: if_splits option.splits)
  then show
    "t_users (tab (snd (GetDeployVersionWithWorker v d))) = t_users (tab d)"
    "t_users (tab (snd (UpdateDeployVersionStatus v st msg d))) = t_users (tab d)"
    "t_users (tab (snd (UpdateWorkerStatus wid st d))) = t_users (tab d)"
    "t_users (tab (snd (DeployVersionSuccess v i d))) = t_users (tab d)"
    "t_users (tab (snd (UpdateCombinatorResourceStatus u ty rid st msg d))) = t_users (tab d)"
    "t_users (tab (snd (ListUserUIDsPaged l off d))) = t_users (tab d)"
    "t_users (tab (snd (UpdateCustomDomainStatus cdid st d))) = t_users (tab d)"
    "t_users (tab (snd (ListAllSuccessDomains d))) = t_users (tab d)"
    by (simp_all add: tab_moves_def same_users_def)
qed

lemma guar_statements [guar_intros]:
  "guar (job_step D) (db_act (GetDeployVersionWithWorker v))" "guar (job_step D) (db_act (UpdateDeployVersionStatus v st msg))"
  "guar (job_step D) (db_act (UpdateWorkerStatus wid st))" "guar (job_step D) (db_act (DeployVersionSuccess v i))"
  "guar (job_step D) (db_act (UpdateCombinatorResourceStatus u ty rid st msg))"
  "guar (job_step D) (db_act (ListUserUIDsPaged l off))"
  "guar (job_step D) (db_act (UpdateCustomDomainStatus cdid st))" "guar (job_step D) (db_act ListAllSuccessDomains)"
  by (rule guar_db, rule job_statements, simp add: statement_users)+

lemma guar_create_app [guar_intros]: "guar (job_step D) (create_app_prog K n w)"
  unfolding create_app_prog_def by (auto intro!: guar_intros split: sum.split)

lemma guar_delete_app [guar_intros]: "guar (job_step D) (delete_app_prog K n)"
  unfolding delete_app_prog_def by (intro guar_intros)

lemma guar_deploy [guar_intros]: "guar (job_step D) (deploy_prog K v)"
  unfolding deploy_prog_def deploy_record_def by (auto intro!: guar_intros split: sum.split option.split)

lemma guar_sync [guar_intros]: "guar (job_step D) (sync_prog K kd n wid msg m)"
  unfolding sync_prog_def by (auto intro!: guar_intros split: sum.split option.split)

lemma job_network_parts: "job_step D s (s\<lparr>wd_posts := ps\<rparr>)" "job_step D s (s\<lparr>wd_lookups := n\<rparr>)"
  using job_network [where s = s and a = "wd_dns s" and n = "wd_lookups s" and ps = ps]
    job_network [where s = s and a = "wd_dns s" and n = n and ps = "wd_posts s"] by simp_all

lemma guar_post [guar_intros]: "guar (job_step D) (post_prog j us)"
proof (induction us)
  case (Cons u us)
  then show ?case by (auto intro!: guar_intros guar_act job_network_parts)
qed simp

lemma guar_notify [guar_intros]: "guar (job_step D) (notify_prog K u rid ty)"
  unfolding notify_prog_def by (auto intro!: guar_intros split: sum.split)

lemma guar_lookup [guar_intros]: "guar (job_step D) (act (LookupTXT n))"
  by (auto simp: LookupTXT_def intro!: guar_act job_network_parts)

lemma guar_loops [guar_intros]:
  "guar (job_step D) (load_prog n off acc)" "guar (job_step D) (init_missing_prog us dbs)"
  "guar (job_step D) (clean_workers_prog K us items)"
  "guar (job_step D) (check_domains_prog cds)"
proof -
  show "guar (job_step D) (load_prog n off acc)"
    by (induction n arbitrary: off acc) (auto intro!: guar_intros)
  show "guar (job_step D) (init_missing_prog us dbs)" by (induction us) (auto intro!: guar_intros)
  show "guar (job_step D) (clean_workers_prog K us items)" by (induction items) (auto intro!: guar_intros)
  show "guar (job_step D) (check_domains_prog cds)"
    by (induction cds) (auto intro!: guar_intros split: option.split)
qed

lemma guar_resources [guar_intros]:
  "guar (job_step D) (register_prog u)" "guar (job_step D) (create_rdb_prog u rid)" "guar (job_step D) (delete_rdb_prog K u rid)"
  "guar (job_step D) (create_kv_prog u rid)" "guar (job_step D) (delete_kv_prog K u rid)"
  unfolding register_prog_def create_rdb_prog_def delete_rdb_prog_def create_kv_prog_def delete_kv_prog_def
  by (auto intro!: guar_intros split: sum.split)

text \<open>An audit drops no database that belongs to its set of users.\<close>

lemma guar_clean_dbs: "- DatabaseName ` set us \<subseteq> D \<Longrightarrow> guar (job_step D) (clean_dbs_prog us dbs)"
  by (induction dbs) (auto intro!: guar_intros guar_drop)

lemma guar_tail: "- DatabaseName ` set us \<subseteq> D \<Longrightarrow> guar (job_step D) (audit_tail K ord us)"
  unfolding audit_tail_def Let_def by (auto intro!: guar_intros guar_clean_dbs split: sum.split)

lemma guar_domain_check [guar_intros]: "guar (job_step D) domain_check_prog"
  unfolding domain_check_prog_def by (auto intro!: guar_intros split: sum.split)

lemma guar_other_job: "j \<noteq> UserAuditJob \<Longrightarrow> guar (job_step D) (job_prog K ord n j)"
  by (cases j) (auto simp: job_prog_def intro!: guar_intros)

lemma guar_job: "guar world_step (job_prog K ord n j)"
proof (rule guar_mono [of "job_step UNIV"])
  have "guar (job_step UNIV) (audit_prog K ord n)"
    unfolding audit_prog_def by (auto intro!: guar_intros guar_tail split: sum.split)
  then show "guar (job_step UNIV) (job_prog K ord n j)"
    using guar_other_job [of j UNIV K ord n] by (cases "j = UserAuditJob") (auto simp: job_prog_def)
qed (rule job_step_world)

section \<open>Jobs alone and together\<close>


text \<open>
  C7: The invariants survive every interleaving: while any number of jobs run at the same time, action
  by action, beside any other operations on the database, the pool and the cluster, the database
  keeps its constraints and the connection pool its bound of 64, its agreement of list and map and its
  ownership of connections.
\<close>

theorem interleaved_jobs_safe:
  assumes "(par_step (\<lambda>p. \<exists>K ord n j. p = job_prog K ord n j) world_step)\<^sup>*\<^sup>* ([], s) (ps, s')"
    and "db_ok (wd_db s)" and "wd_rdb s = Some m" and "pool_ok m"
  shows "db_ok (wd_db s') \<and> (\<exists>m'. wd_rdb s' = Some m' \<and> pool_ok m' \<and> length (userDBs m') \<le> 64 \<and>
    distinct (recency m') \<and> set (recency m') = fst ` set (userDBs m'))"
proof -
  have "shared_ok False s" using assms(2-4) by (simp add: shared_ok_def world_ok_def)
  then have "shared_ok False s'"
    by (rule shared.interleaved [OF assms(1), rotated 2]) (auto simp: guar_job)
  then obtain m' where m': "db_ok (wd_db s')" "wd_rdb s' = Some m'" "pool_ok m'"
    by (auto simp: shared_ok_def world_ok_def)
  moreover have "lru_ok m'" using m'(3) by (simp add: pool_ok_def)
  ultimately show ?thesis
    by (auto simp: recency_distinct recency_users) (simp add: lru_ok_def UserDBPoolSize_def)
qed


theorem interleaved_jobs_safe_witness:
  "\<forall>turns. db_ok (wd_db (snd (sched turns ([job_prog mem_kube id 1 (DeployWorkerJob ''w1'' ''u1'' 0),
     job_prog mem_kube id 1 (CreateRDBJob ''u1'' ''n'' ''r1'')], example_world))))"
proof
  fix turns
  let ?c = "sched turns ([job_prog mem_kube id 1 (DeployWorkerJob ''w1'' ''u1'' 0),
     job_prog mem_kube id 1 (CreateRDBJob ''u1'' ''n'' ''r1'')], example_world)"
  have "(par_step (\<lambda>p. \<exists>K ord n j. p = job_prog K ord n j) world_step)\<^sup>*\<^sup>* ([], example_world) (fst ?c, snd ?c)"
    unfolding prod.collapse by (rule sched_two) blast+
  from interleaved_jobs_safe [OF this _ _ example_rdb_up(2)] show "db_ok (wd_db (snd ?c))"
    using example_db_ok by (simp only: example_world_sel)
qed

end
