(* ===== verification/DeployRace.thy ===== *)
theory DeployRace
  imports Interleaving
begin

text \<open>
  Two deployment jobs of the same worker, action by action: a schedule after which the database and the
  cluster disagree on the version that runs.
\<close>

section \<open>Two deployments of one worker\<close>

lemma turn_act: "i < length ps \<Longrightarrow> ps ! i = Act f k \<Longrightarrow> turn i (ps, s) = (ps[i := k s], f s)"
  by (simp add: turn_def)

lemma turn_db:
  "i < length ps \<Longrightarrow> ps ! i = pbind (db_act op) q \<Longrightarrow>
     turn i (ps, s) = (ps[i := q (fst (op (wd_db s)))], s\<lparr>wd_db := snd (op (wd_db s))\<rparr>)"
  by (simp add: db_act_def act_def turn_act on_db_def case_prod_beta)

lemma turn_kube:
  "i < length ps \<Longrightarrow> ps ! i = pbind (kube_act f) q \<Longrightarrow>
     turn i (ps, s) = (ps[i := q (fst (f (wd_kube s)))], s\<lparr>wd_kube := snd (f (wd_kube s))\<rparr>)"
  by (simp add: kube_act_def act_def turn_act on_kube_def case_prod_beta)

lemma bind_db_not_Ret: "pbind (db_act op) q = Ret x \<longleftrightarrow> False"
  by (simp add: db_act_def act_def)

lemma turns_create_app:
  assumes "i < length ps" and "ps ! i = pbind (create_app_prog K n w) q"
  shows "turn i (turn i (ps, s)) = (ps[i := q (fst (CreateWorkerAppCR K n w (wd_kube s)))],
    s\<lparr>wd_kube := snd (CreateWorkerAppCR K n w (wd_kube s))\<rparr>)"
proof -
  obtain r k1 where get: "k_get K WorkerApps WorkerNamespace n (wd_kube s) = (r, k1)"
    by (cases "k_get K WorkerApps WorkerNamespace n (wd_kube s)")
  have p: "ps ! i = pbind (kube_act (k_get K WorkerApps WorkerNamespace n)) (\<lambda>r. pbind (case r of
       Inl _ \<Rightarrow> pbind (kube_act (k_create K WorkerApps WorkerNamespace (worker_app n w))) (\<lambda>r. Ret (map_option kerr_err r))
     | Inr existing \<Rightarrow> pbind (kube_act (k_update K WorkerApps WorkerNamespace
         ((worker_app n w)\<lparr>o_resourceVersion := o_resourceVersion existing\<rparr>))) (\<lambda>r. Ret (map_option kerr_err r))) q)"
    using assms(2) by (simp add: create_app_prog_def bind_assoc)
  define F where "F = (case r of Inl _ \<Rightarrow> k_create K WorkerApps WorkerNamespace (worker_app n w)
     | Inr existing \<Rightarrow> k_update K WorkerApps WorkerNamespace
         ((worker_app n w)\<lparr>o_resourceVersion := o_resourceVersion existing\<rparr>))"
  have t: "turn i (ps, s) = (ps[i := pbind (kube_act F) (\<lambda>r. q (map_option kerr_err r))], s\<lparr>wd_kube := k1\<rparr>)"
    unfolding turn_kube [OF assms(1) p] get by (cases r) (simp_all add: F_def bind_assoc)
  have "CreateWorkerAppCR K n w (wd_kube s) = (map_option kerr_err (fst (F k1)), snd (F k1))"
    using get by (cases r) (simp_all add: CreateWorkerAppCR_def F_def case_prod_beta)
  then show ?thesis
    unfolding t by (subst turn_kube [OF _ nth_list_update_eq]) (simp_all add: assms(1))
qed

lemma turn_deploy:
  assumes "i < length ps" and "ps ! i = deploy_prog K v" and "db_faults (wd_db s) = []"
    and "fst (GetDeployVersionWithWorker v (wd_db s)) = Inr (x, w, sk)"
  shows "turn i (ps, s) = (ps[i := pbind (create_app_prog K (WorkerName (w_WID w) (w_UserUID w))
      \<lparr>WorkerID = w_WID w, OwnerID = w_UserUID w, OwnerSK = sk, Image = v_Image x, Port = v_Port x\<rparr>)
      (deploy_record v w)], s)"
proof -
  have "snd (GetDeployVersionWithWorker v (wd_db s)) = wd_db s"
    using assms(3) by (simp add: GetDeployVersionWithWorker_def no_faults_query)
  then show ?thesis
    using turn_db [OF assms(1) assms(2) [unfolded deploy_prog_def], of s] assms(4) by simp
qed

text \<open>The last action of a deployment; a failed create takes two.\<close>

lemma turn_record:
  assumes "i < length ps" and "ps ! i = deploy_record v w r"
  shows "turn i (ps, s) = (case r of
      None \<Rightarrow> (ps[i := Ret None], do_db (DeployVersionSuccess v (w_ID w)) s)
    | Some e \<Rightarrow> (ps[i := pbind (db_act (UpdateWorkerStatus (w_WID w) ''error''))
         (\<lambda>_. Ret (Some (Wrap (''create CR for version '' @ dec_int v) e)))],
       do_db (UpdateDeployVersionStatus v ''error'' (err_text e)) s))"
proof (cases r)
  case None
  with assms(2) have "ps ! i = pbind (db_act (DeployVersionSuccess v (w_ID w))) (\<lambda>_. Ret None)"
    by (simp add: deploy_record_def)
  from turn_db [OF assms(1) this] None show ?thesis by (simp add: do_db_def on_db_def case_prod_beta)
next
  case (Some e)
  with assms(2) have "ps ! i = pbind (db_act (UpdateDeployVersionStatus v ''error'' (err_text e))) (\<lambda>_.
      pbind (db_act (UpdateWorkerStatus (w_WID w) ''error''))
        (\<lambda>_. Ret (Some (Wrap (''create CR for version '' @ dec_int v) e))))" by (simp add: deploy_record_def)
  from turn_db [OF assms(1) this] Some show ?thesis by (simp add: do_db_def on_db_def case_prod_beta)
qed


lemma deployed:
  assumes "db_faults d = []"
  shows "DeployVersionSuccess v i d = (Inr (), d\<lparr>tab := (tab d)\<lparr>
       t_versions := update_where (\<lambda>x. v_ID x = v) (\<lambda>x. x\<lparr>v_Status := ''success'', v_Msg := ''''\<rparr>) (t_versions (tab d)),
       t_workers := update_where (\<lambda>w. w_ID w = i)
         (\<lambda>w. w\<lparr>w_ActiveVersionID := Some v, w_Status := ''active''\<rparr>) (t_workers (tab d))\<rparr>\<rparr>)"
  using assms by (simp add: no_faults_ops)

text \<open>The WorkerApp of a version.\<close>

definition spec_of :: "worker \<Rightarrow> string \<Rightarrow> worker_deploy_version \<Rightarrow> WorkerAppSpec" where
  "spec_of w sk v = \<lparr>WorkerID = w_WID w, OwnerID = w_UserUID w, OwnerSK = sk, Image = v_Image v, Port = v_Port v\<rparr>"

abbreviation app_name :: "worker \<Rightarrow> string" where
  "app_name w \<equiv> WorkerName (w_WID w) (w_UserUID w)"

lemma two_deployments_sched:
  assumes "db_faults (wd_db s) = []"
    and "fst (GetDeployVersionWithWorker v1 (wd_db s)) = Inr (a, w, sk)"
    and "fst (GetDeployVersionWithWorker v2 (wd_db s)) = Inr (b, w, sk)"
    and c: "CreateWorkerAppCR K (app_name w) (spec_of w sk a) (wd_kube s) = (r1, k1)"
      "CreateWorkerAppCR K (app_name w) (spec_of w sk b) k1 = (r2, k2)"
  shows "sched [0, 1, 0, 0, 1, 1, 1, 0] ([deploy_prog K v1, deploy_prog K v2], s) =
    turn 0 (turn 1 ([deploy_record v1 w r1, deploy_record v2 w r2], s\<lparr>wd_kube := k2\<rparr>))"
proof -
  note [simp] = spec_of_def [symmetric]
  have t1: "turn 0 ([deploy_prog K v1, p], s) = ([pbind (create_app_prog K (app_name w) (spec_of w sk a)) (deploy_record v1 w), p], s)" for p
    by (subst turn_deploy [OF _ _ assms(1,2)]) simp_all
  have t2: "turn 1 ([p, deploy_prog K v2], s) = ([p, pbind (create_app_prog K (app_name w) (spec_of w sk b)) (deploy_record v2 w)], s)" for p
    by (subst turn_deploy [OF _ _ assms(1,3)]) simp_all
  have t3: "turn 0 (turn 0 ([pbind (create_app_prog K (app_name w) (spec_of w sk a)) (deploy_record v1 w), p], s)) =
      ([deploy_record v1 w r1, p], s\<lparr>wd_kube := k1\<rparr>)" for p
    by (subst turns_create_app, simp, simp) (simp only: c fst_conv snd_conv list_update_code)
  have t4: "turn 1 (turn 1 ([p, pbind (create_app_prog K (app_name w) (spec_of w sk b)) (deploy_record v2 w)], s\<lparr>wd_kube := k1\<rparr>)) =
      ([p, deploy_record v2 w r2], s\<lparr>wd_kube := k2\<rparr>)" for p
    by (subst turns_create_app, simp, simp) (simp, simp only: c fst_conv snd_conv simp_thms)
  show ?thesis by (simp only: sched_simps t1 t2 t3 t4)
qed

text \<open>The last two turns: both succeed exactly when both creates did.\<close>

lemma two_records:
  "turn 0 (turn 1 ([deploy_record v1 w r1, deploy_record v2 w r2], s)) = ([Ret None, Ret None], s') \<longleftrightarrow>
     r1 = None \<and> r2 = None \<and> s' = do_db (DeployVersionSuccess v1 (w_ID w)) (do_db (DeployVersionSuccess v2 (w_ID w)) s)"
proof -
  have t5: "turn 1 ([p, deploy_record v2 w r], t) = (case r of
      None \<Rightarrow> ([p, Ret None], do_db (DeployVersionSuccess v2 (w_ID w)) t)
    | Some e \<Rightarrow> ([p, pbind (db_act (UpdateWorkerStatus (w_WID w) ''error''))
         (\<lambda>_. Ret (Some (Wrap (''create CR for version '' @ dec_int v2) e)))],
       do_db (UpdateDeployVersionStatus v2 ''error'' (err_text e)) t))" for p t r
    by (subst turn_record) (auto split: option.split)
  have t6: "turn 0 ([deploy_record v1 w r, p], t) = (case r of
      None \<Rightarrow> ([Ret None, p], do_db (DeployVersionSuccess v1 (w_ID w)) t)
    | Some e \<Rightarrow> ([pbind (db_act (UpdateWorkerStatus (w_WID w) ''error''))
         (\<lambda>_. Ret (Some (Wrap (''create CR for version '' @ dec_int v1) e))), p],
       do_db (UpdateDeployVersionStatus v1 ''error'' (err_text e)) t))" for p t r
    by (subst turn_record) (auto split: option.split)
  show ?thesis
    unfolding t5 by (cases r1; cases r2)
      (auto simp only: option.case t6 prod.inject list.inject bind_db_not_Ret option.distinct option.inject)
qed


text \<open>
  C15: Two deployments of the same worker that run at the same time can leave the cluster and the
  database at odds: when both have read their version, the first writes its WorkerApp, then the second
  its own, and the second records its success before the first, then both jobs succeed and both versions
  are successful, the worker's active version is the first one, but the cluster runs the second.
\<close>

theorem concurrent_deployments_diverge:
  assumes "kube_laws K view" and "db_faults (wd_db s) = []" and "v1 \<noteq> v2"
    and "fst (GetDeployVersionWithWorker v1 (wd_db s)) = Inr (a, w, sk)"
    and "fst (GetDeployVersionWithWorker v2 (wd_db s)) = Inr (b, w, sk)"
    and "sched [0, 1, 0, 0, 1, 1, 1, 0] ([deploy_prog K v1, deploy_prog K v2], s) = ([Ret None, Ret None], s')"
  shows "view (wd_kube s') (WorkerApps, WorkerNamespace, app_name w) =
      Some (content (worker_app (app_name w) (spec_of w sk b))) \<and>
    (\<forall>x \<in> set (t_workers (tab (wd_db s'))). w_ID x = w_ID w \<longrightarrow> w_ActiveVersionID x = Some v1 \<and> w_Status x = ''active'') \<and>
    (\<forall>x \<in> set (t_versions (tab (wd_db s'))). v_ID x \<in> {v1, v2} \<longrightarrow> v_Status x = ''success'')"
proof -
  obtain r1 k1 where c1: "CreateWorkerAppCR K (app_name w) (spec_of w sk a) (wd_kube s) = (r1, k1)" by fastforce
  obtain r2 k2 where c2: "CreateWorkerAppCR K (app_name w) (spec_of w sk b) k1 = (r2, k2)" by fastforce
  from assms(6) have "r2 = None" and
    s': "s' = do_db (DeployVersionSuccess v1 (w_ID w)) (do_db (DeployVersionSuccess v2 (w_ID w)) (s\<lparr>wd_kube := k2\<rparr>))"
    unfolding two_deployments_sched [OF assms(2,4,5) c1 c2] two_records by simp_all
  have "wd_kube s' = k2" by (simp add: s')
  with create_app_outcome [OF assms(1) c2] \<open>r2 = None\<close> show ?thesis
    using assms(2,3) by (auto simp: s' deployed update_where_def)
qed

definition two_versions :: "mem world" where
  "two_versions = example_world\<lparr>wd_db := example_db\<lparr>tab := (tab example_db)\<lparr>
     t_versions := [loading_version 0 0 ''img'' 8080 0, loading_version 1 0 ''img2'' 8080 1]\<rparr>\<rparr>\<rparr>"

lemma mem_create_app: "\<exists>k. CreateWorkerAppCR mem_kube n w m = (None, k)"
  by (cases "map_of m (WorkerApps, WorkerNamespace, n)")
    (simp_all add: CreateWorkerAppCR_def mem_kube_def worker_app_def new_obj_def)

theorem concurrent_deployments_diverge_witness:
  "mem_view (wd_kube (snd (sched [0, 1, 0, 0, 1, 1, 1, 0] ([deploy_prog mem_kube 0, deploy_prog mem_kube 1], two_versions))))
     (WorkerApps, WorkerNamespace, app_name example_row) =
   Some (content (worker_app (app_name example_row) (spec_of example_row ''sk'' (loading_version 1 0 ''img2'' 8080 1))))"
proof -
  have w: "w_WID example_row = ''w1''" "w_UserUID example_row = ''u1''" "w_ID example_row = 0"
    "t_workers (tab example_db) = [example_row]" by (simp_all add: example_row_def example_db_def)
  have v: "db_faults (wd_db two_versions) = []"
    "fst (GetDeployVersionWithWorker 0 (wd_db two_versions)) = Inr (loading_version 0 0 ''img'' 8080 0, example_row, ''sk'')"
    "fst (GetDeployVersionWithWorker 1 (wd_db two_versions)) = Inr (loading_version 1 0 ''img2'' 8080 1, example_row, ''sk'')"
    by (simp add: two_versions_def)
      (simp_all add: two_versions_def GetDeployVersionWithWorker_def no_faults_query w, simp_all add: loading_version_def new_user_def)
  obtain k1 where c1: "CreateWorkerAppCR mem_kube (app_name example_row)
      (spec_of example_row ''sk'' (loading_version 0 0 ''img'' 8080 0)) (wd_kube two_versions) = (None, k1)"
    using mem_create_app by blast
  obtain k2 where c2: "CreateWorkerAppCR mem_kube (app_name example_row)
      (spec_of example_row ''sk'' (loading_version 1 0 ''img2'' 8080 1)) k1 = (None, k2)"
    using mem_create_app by blast
  note run = two_deployments_sched [OF v c1 c2, THEN trans, OF two_records [THEN iffD2, OF conjI [OF refl conjI [OF refl refl]]]]
  from concurrent_deployments_diverge [OF mem_laws v(1) _ v(2,3) run] show ?thesis
    unfolding run by simp
qed

end
