(* ===== verification/AuditRace.thy ===== *)
theory AuditRace
  imports Interleaving "HOL-Library.Multiset"
begin

text \<open>
  Audits beside other jobs and requests: no interleaving makes an audit drop the database of a user who
  was registered before it started, but one who registers while it runs may lose theirs.
\<close>

section \<open>Pages of a growing table\<close>

lemma drop_insort: "set (drop n xs) \<subseteq> set (drop n (insort x xs))" for x :: "'a :: linorder"
proof (induction xs arbitrary: n)
  case (Cons y ys)
  show ?case
  proof (cases n)
    case 0
    then show ?thesis by (auto simp: set_insort_key)
  next
    case (Suc m)
    have "set (drop m ys) \<subseteq> set (drop m (y # ys))" by (rule set_drop_subset_set_drop [of m "Suc m" "y # ys", simplified])
    then show ?thesis using Cons.IH [of m] Suc by auto
  qed
qed simp

lemma drop_sort_append: "set (drop n (sort xs)) \<subseteq> set (drop n (sort (xs @ ys)))"
proof (induction ys rule: rev_induct)
  case (snoc y ys)
  have "sort ((xs @ ys) @ [y]) = insort y (sort (xs @ ys))"
    by (rule properties_for_sort) (simp_all add: sorted_insort)
  then show ?case using snoc drop_insort [of n "sort (xs @ ys)" y] by simp
qed simp


section \<open>What the environment may do\<close>

definition users_grow :: "'k world \<Rightarrow> 'k world \<Rightarrow> bool" where
  "users_grow s t \<longleftrightarrow> grows (tab (wd_db s)) (tab (wd_db t))"

text \<open>Every database of a user in \<open>U\<close> that is there stays there.\<close>

definition keeps_databases :: "string set \<Rightarrow> 'k world \<Rightarrow> 'k world \<Rightarrow> bool" where
  "keeps_databases U s t \<longleftrightarrow> (\<forall>m. wd_rdb s = Some m \<longrightarrow>
     (\<exists>m'. wd_rdb t = Some m' \<and> set (rdb_names m) \<inter> database ` U \<subseteq> set (rdb_names m')))"

definition spares :: "string set \<Rightarrow> 'k world \<Rightarrow> 'k world \<Rightarrow> bool" where
  "spares U s t \<longleftrightarrow> users_grow s t \<and> keeps_databases U s t"

lemma users_grow_refl: "reflp users_grow" and users_grow_trans: "transp users_grow"
  using grows_refl grows_trans by (auto simp: users_grow_def reflp_def intro!: transpI elim: transpD)

lemma keeps_databases_steps: "(spares U)\<^sup>*\<^sup>* s t \<Longrightarrow> keeps_databases U s t"
  by (induction rule: rtranclp_induct) (fastforce simp: keeps_databases_def spares_def)+

lemma users_grow_ids: "users_grow s t \<Longrightarrow> user_ids (wd_db s) \<subseteq> user_ids (wd_db t)"
  by (auto simp: users_grow_def grows_def) (metis UnCI image_eqI list.set_map set_append)

lemma world_step_grows: "world_step s t \<Longrightarrow> users_grow s t"
  by (induction rule: world_step.induct) (auto simp: users_grow_def db_step_grows grows_same)

lemma job_step_spares:
  assumes "job_step D s t" and "D \<inter> database ` U = {}"
  shows "spares U s t"
proof -
  have "keeps_databases U s t" using assms
    by (induction rule: job_step.induct) (fastforce simp: keeps_databases_def)+
  then show ?thesis using world_step_grows [OF job_step_world [OF assms(1)]] by (simp add: spares_def)
qed

section \<open>An audit's set of users\<close>

abbreviation found :: "string set \<Rightarrow> err + string list \<Rightarrow> 'k world \<Rightarrow> bool" where
  "found U r t \<equiv> \<forall>us. r = Inr us \<longrightarrow> U \<subseteq> set us"

lemma load_finds_all:
  assumes "U \<subseteq> set acc \<union> set (drop off (sort (map usr_UID (t_users (tab (wd_db s))))))"
  shows "safe users_grow (spares U) (found U) (load_prog n off acc) s"
  using assms
proof (induction n arbitrary: off acc s)
  case (Suc n)
  let ?uids = "\<lambda>s. sort (map usr_UID (t_users (tab (wd_db s))))"
  let ?op = "ListUserUIDsPaged userPageSize off"
  have "spares U t (t\<lparr>wd_db := d\<rparr>) \<and> safe users_grow (spares U) (found U)
      (case r of Inl e \<Rightarrow> Ret (Inl e) | Inr uids \<Rightarrow> if length uids < userPageSize then Ret (Inr (fold add_new uids acc))
        else load_prog n (off + userPageSize) (fold add_new uids acc)) (t\<lparr>wd_db := d\<rparr>)"
    if up: "users_grow s t" and op: "?op (wd_db t) = (r, d)" for t r d
  proof -
    obtain us where "map usr_UID (t_users (tab (wd_db t))) = map usr_UID (t_users (tab (wd_db s))) @ us"
      using up unfolding users_grow_def grows_def by blast
    with Suc.prems have U: "U \<subseteq> set acc \<union> set (drop off (?uids t))"
      using drop_sort_append [of off "map usr_UID (t_users (tab (wd_db s)))" us] by (simp only:) blast
    have same: "t_users (tab d) = t_users (tab (wd_db t))" using op statement_users(6) [of userPageSize off "wd_db t"] by simp
    then have "spares U t (t\<lparr>wd_db := d\<rparr>)" by (simp add: spares_def users_grow_def grows_same keeps_databases_def)
    moreover have "safe users_grow (spares U) (found U) (case r of Inl e \<Rightarrow> Ret (Inl e) | Inr uids \<Rightarrow>
        if length uids < userPageSize then Ret (Inr (fold add_new uids acc))
        else load_prog n (off + userPageSize) (fold add_new uids acc)) (t\<lparr>wd_db := d\<rparr>)"
    proof (cases r)
      case (Inr uids)
      have page: "uids = take userPageSize (drop off (?uids t))" using uids.page_ok op Inr by blast
      show ?thesis
      proof (cases "length uids < userPageSize")
        case True
        with page have "uids = drop off (?uids t)" by (auto simp: min_def split: if_splits)
        with U True Inr show ?thesis by (auto simp: set_fold_add_new)
      next
        case False
        have "set (drop off (?uids t)) = set uids \<union> set (drop (off + userPageSize) (?uids t))"
          unfolding page by (metis add.commute append_take_drop_id drop_drop set_append)
        with U same False Inr show ?thesis
          by simp (rule Suc.IH, simp add: set_fold_add_new, blast)
      qed
    qed simp
    ultimately show ?thesis ..
  qed
  then show ?case
    by (auto simp: ebind_def db_act_def act_def on_db_def split: prod.split)
qed simp

lemma audit_safe:
  assumes "U \<subseteq> user_ids (wd_db s)"
  shows "safe users_grow (spares U) (\<lambda>_ _. True) (audit_prog K ord n) s"
proof -
  have tail: "safe users_grow (spares U) (\<lambda>_ _. True) (audit_tail K ord us) t" if "U \<subseteq> set us" for us and t :: "'a world"
  proof (rule guar_safe)
    show "guar (spares U) (audit_tail K ord us)"
    proof (rule guar_mono [OF guar_tail [OF order_refl]])
      show "spares U s' t'" if "job_step (- DatabaseName ` set us) s' t'" for s' t' :: "'a world"
        by (rule job_step_spares [OF that]) (use \<open>U \<subseteq> set us\<close> in \<open>auto simp: DatabaseName_def [abs_def]\<close>)
    qed
  qed simp
  have load: "safe users_grow (spares U) (found U) (load_prog n 0 []) t" if "users_grow s t" for t :: "'a world"
    using users_grow_ids [OF that] assms by (intro load_finds_all) auto
  show ?thesis
    unfolding audit_prog_def
  proof (rule safe_bind [OF users_grow_refl, where Q = "\<lambda>_ t. users_grow s t"])
    show "safe users_grow (spares U) (\<lambda>_ t. users_grow s t) (ask (\<lambda>s. g_K8sClient (wd_globals s) \<and> g_DynamicClient (wd_globals s))) s"
      using users_grow_trans users_grow_refl keeps_databases_steps [of U]
      by (auto simp: ask_def spares_def reflp_def keeps_databases_def dest: transpD)
    fix ready and t :: "'a world" assume "users_grow s t"
    from load [OF this] show "safe users_grow (spares U) (\<lambda>_ _. True) (if \<not> ready then Ret None else
        pbind (load_prog n 0 []) (\<lambda>r. case r of Inl e \<Rightarrow> Ret (Some e) | Inr userSet \<Rightarrow> audit_tail K ord userSet)) t"
      by (auto intro!: safe_bind [OF users_grow_refl, where Q = "found U"] split: sum.split) (rule tail, blast)
  qed
qed


section \<open>A user who registers during an audit\<close>

lemma tail_drops:
  assumes "wd_rdb s = Some m" and "root_up m" and "fst (k_list K WorkerApps WorkerNamespace '''' (wd_kube s)) = Inr items"
    and "database u \<in> set (rdb_names m)" and "database u \<notin> database ` set us"
    and "set (ord us) = set us"
  obtains m' where "fst (run (audit_tail K ord us) s) = None" "wd_rdb (snd (run (audit_tail K ord us) s)) = Some m'"
    "database u \<notin> set (rdb_names m')" "wd_db (snd (run (audit_tail K ord us) s)) = wd_db s"
proof -
  obtain m1 where m1: "RootListUserDatabases m = (Inr (filter (like ''db_%'') (rdb_names m)), m1)"
    "root_up m1" "rdb_names m1 = rdb_names m" using assms(2) by (rule root_up_list)
  define dbs where "dbs = filter (like ''db_%'') (rdb_names m)"
  have u: "database u \<in> set dbs" using assms(4) by (simp add: dbs_def database_like)
  then have "dbs \<noteq> []" by auto
  define m2 where "m2 = checkUserRDBInitialization (ord us) dbs m1"
  have "root_up m2" using checkInit_up [OF m1(2)] by (simp add: m2_def)
  from cleanRDBs_up [OF this, of us dbs] have "database u \<notin> set (rdb_names (cleanOrphanRDBs us dbs m2))"
    using u assms(5) by simp
  moreover have "wd_db (cleanOrphanWorkers K us its t) = wd_db t" for its and t :: "'a world"
    by (induction its arbitrary: t) (simp_all add: Let_def)
  moreover obtain k where k: "k_list K WorkerApps WorkerNamespace '''' (wd_kube s) = (Inr items, k)"
    using assms(3) by (cases "k_list K WorkerApps WorkerNamespace '''' (wd_kube s)") auto
  have "run (audit_tail K ord us) s = (None, (cleanOrphanWorkers K us items (s\<lparr>wd_kube := k, wd_rdb := Some m2\<rparr>))
      \<lparr>wd_rdb := Some (cleanOrphanRDBs us dbs m2)\<rparr>)"
    using assms(1) m1(1) \<open>dbs \<noteq> []\<close> by (simp add: run_tail on_kube_def Let_def k m2_def dbs_def [symmetric])
  ultimately show thesis by (intro that) simp_all
qed

lemma turns_load:
  assumes "g_K8sClient (wd_globals s)" and "g_DynamicClient (wd_globals s)" and "db_faults (wd_db s) = []"
    and "length (t_users (tab (wd_db s))) < userPageSize"
  obtains us where "turn 0 (turn 0 ([audit_prog K ord (Suc n)], s)) = ([audit_tail K ord us], s)"
    "set us = user_ids (wd_db s)"
proof
  define l where "l = sort (map usr_UID (t_users (tab (wd_db s))))"
  have op: "ListUserUIDsPaged userPageSize 0 (wd_db s) = (Inr l, wd_db s)"
    using assms(3,4) by (simp add: ListUserUIDsPaged_def no_faults_query l_def)
  show "set (fold add_new l []) = user_ids (wd_db s)" by (simp add: set_fold_add_new l_def)
  have "length l < userPageSize" using assms(4) by (simp add: l_def)
  then show "turn 0 (turn 0 ([audit_prog K ord (Suc n)], s)) = ([audit_tail K ord (fold add_new l [])], s)"
    using assms(1,2) op by (simp add: turn_def audit_prog_def ask_def ebind_def db_act_def act_def on_db_def)
qed

text \<open>
  C14: An audit can drop the database of a user who has just registered: when a user's row is inserted after
  the audit has read its users, and the registration's job creates the database before the audit lists the
  databases, then both jobs end without an error, the user is registered, and the database is gone.
\<close>

theorem audit_drops_new_user:
  assumes "g_K8sClient (wd_globals s)" and "g_DynamicClient (wd_globals s)" and "db_faults (wd_db s) = []"
    and "length (t_users (tab (wd_db s))) < userPageSize"
    and "wd_rdb s = Some m" and "root_up m" and "fst (k_list K WorkerApps WorkerNamespace '''' (wd_kube s)) = Inr items"
    and "\<forall>us. set (ord us) = set us"
    and "CreateUser uid email h sk (wd_db s) = (Inr uid, d)" and "database uid \<notin> database ` user_ids (wd_db s)"
  shows "\<exists>s' m'. (par_step (\<lambda>p. p = register_prog uid) (\<lambda>s t. t = s\<lparr>wd_db := snd (CreateUser uid email h sk (wd_db s))\<rparr>))\<^sup>*\<^sup>*
      ([audit_prog K ord (Suc n)], s) ([Ret None, Ret None], s') \<and>
    uid \<in> user_ids (wd_db s') \<and> wd_rdb s' = Some m' \<and> database uid \<notin> set (c_databases (server m'))"
proof -
  let ?P = "par_step (\<lambda>p. p = register_prog uid) (\<lambda>s t. t = s\<lparr>wd_db := snd (CreateUser uid email h sk (wd_db s))\<rparr>)"
  obtain us where us: "turn 0 (turn 0 ([audit_prog K ord (Suc n)], s)) = ([audit_tail K ord us], s)"
    "set us = user_ids (wd_db s)" using assms(1-4) by (rule turns_load)
  define s1 where "s1 = s\<lparr>wd_db := d\<rparr>"
  obtain m1 where m1: "InitUserRDB uid m = (Inr (), m1)" "root_up m1" "rdb_names m1 = add_new (database uid) (rdb_names m)"
    using assms(6) by (rule root_up_init)
  define s2 where "s2 = s1\<lparr>wd_rdb := Some m1\<rparr>"
  have reg: "run (register_prog uid) s1 = (None, s2)"
    using assms(5) m1(1) by (simp add: run_register registerUser_Do_def on_rdb_def s1_def s2_def)
  have "database uid \<in> set (rdb_names m1)" using m1(3) by (simp add: add_new_def)
  then obtain m' where tl: "fst (run (audit_tail K ord us) s2) = None" "wd_rdb (snd (run (audit_tail K ord us) s2)) = Some m'"
    "database uid \<notin> set (rdb_names m')" "wd_db (snd (run (audit_tail K ord us) s2)) = d"
    by (rule tail_drops [of s2 m1 K items uid us ord, rotated 3])
      (use assms(7,8,10) m1(2) us(2) in \<open>simp_all add: s2_def s1_def\<close>)
  have "?P\<^sup>*\<^sup>* ([audit_prog K ord (Suc n)], s) ([audit_tail K ord us], s)"
    using sched_par [of _ _ "([audit_prog K ord (Suc n)], s)" "[0, 0]"] us(1) by simp
  moreover have "?P ([audit_tail K ord us], s) ([audit_tail K ord us], s1)"
    using assms(9) by (intro par_env) (simp add: s1_def)
  moreover have "?P ([audit_tail K ord us], s1) ([audit_tail K ord us, register_prog uid], s1)"
    using par_start [where p = "register_prog uid" and ps = "[audit_tail K ord us]"] by simp
  moreover have "?P\<^sup>*\<^sup>* ([audit_tail K ord us, register_prog uid], s1) ([audit_tail K ord us, Ret None], s2)"
    using par_alone [where i = 1 and ps = "[audit_tail K ord us, register_prog uid]" and s = s1] reg by simp
  moreover have "?P\<^sup>*\<^sup>* ([audit_tail K ord us, Ret None], s2) ([Ret None, Ret None], snd (run (audit_tail K ord us) s2))"
    using par_alone [where i = 0 and ps = "[audit_tail K ord us, Ret None]" and s = s2] tl(1) by simp
  ultimately have "?P\<^sup>*\<^sup>* ([audit_prog K ord (Suc n)], s) ([Ret None, Ret None], snd (run (audit_tail K ord us) s2))"
    by (meson converse_rtranclp_into_rtranclp rtranclp_trans)
  moreover have "uid \<in> user_ids d" using CreateUser_ok [OF assms(9)] by (auto simp: new_user_def)
  ultimately show ?thesis using tl by (auto simp: rdb_names_def)
qed

section \<open>Examples\<close>

definition example_one_db :: "mem world" where
  "example_one_db = example_world\<lparr>wd_rdb := Some (example_rdb\<lparr>server := empty_server\<lparr>c_databases := [''db_u1'']\<rparr>\<rparr>)\<rparr>"


theorem audit_drops_new_user_witness:
  "\<exists>s' m'. (par_step (\<lambda>p. p = register_prog ''u2'')
       (\<lambda>s t. t = s\<lparr>wd_db := snd (CreateUser ''u2'' ''b@b.c'' ''h'' ''sk'' (wd_db s))\<rparr>))\<^sup>*\<^sup>*
      ([audit_prog mem_kube id (Suc 0)], example_world) ([Ret None, Ret None], s') \<and>
    ''u2'' \<in> user_ids (wd_db s') \<and> wd_rdb s' = Some m' \<and> ''db_u2'' \<notin> set (c_databases (server m'))"
proof -
  have n: "database ''u1'' = ''db_u1''" "database ''u2'' = ''db_u2''" by code_simp+
  obtain d where c: "CreateUser ''u2'' ''b@b.c'' ''h'' ''sk'' example_db = (Inr ''u2'', d)"
    by (simp add: CreateUser_def sql_insert_def run_stmt_def Let_def) (simp add: new_user_def)
  obtain items where l: "fst (k_list mem_kube WorkerApps WorkerNamespace '''' (wd_kube example_world)) = Inr items"
    by (simp add: mem_kube_def)
  note audited = audit_drops_new_user [where s = example_world and ord = id and uid = "''u2''" and email = "''b@b.c''" and h = "''h''"
      and sk = "''sk''" and n = 0, OF _ _ _ _ _ example_rdb_up(1) l]
  have "\<exists>s' m'. (par_step (\<lambda>p. p = register_prog ''u2'')
       (\<lambda>s t. t = s\<lparr>wd_db := snd (CreateUser ''u2'' ''b@b.c'' ''h'' ''sk'' (wd_db s))\<rparr>))\<^sup>*\<^sup>*
      ([audit_prog mem_kube id (Suc 0)], example_world) ([Ret None, Ret None], s') \<and>
      ''u2'' \<in> user_ids (wd_db s') \<and> wd_rdb s' = Some m' \<and> database ''u2'' \<notin> set (c_databases (server m'))"
    by (rule audited) (use n in \<open>simp_all add: userPageSize_def c\<close>)
  then show ?thesis unfolding n .
qed

end
