(* ===== verification/PoolRace.thy ===== *)
theory PoolRace
  imports RdbOps
begin

text \<open>
  The life of a pooled connection (\<open>k8s/rdb.go\<close>): how long the handle that
  \<open>getOrCreateUserDB\<close> returns stays open while other users are served, and the window between the
  fast path's look at the pool and its touch, in which one other caller can close it.
\<close>

section \<open>Serving others\<close>

text \<open>Eviction and reconnection leave the entry of every user who stays in the pool alone.\<close>

lemma without_holder: "w \<noteq> u \<Longrightarrow> holder (without w e s) (Some u) = holder s (Some u)"
  by (simp add: holder_def without_def map_del_get)

lemma drop_entry_holder: "w \<noteq> u \<Longrightarrow> holder (drop_entry w s) (Some u) = holder s (Some u)"
  by (simp add: drop_entry_eq without_holder split: option.splits)

lemma evict_holder:
  assumes ok: "pool_ok s" and kept: "u \<in> set (recency (evict_oldest s))"
  shows "holder (evict_oldest s) (Some u) = holder s (Some u)"
proof (cases "UserDBPoolSize \<le> length (userDBs s)")
  case True
  from evict_full [OF ok this] obtain w e where
    w: "map_of (userDBs s) w = Some e" "evict_oldest s = without w e s" .
  then have "w \<noteq> u" using kept without_ok(2) [OF ok w(1)] by auto
  then show ?thesis using w by (simp add: without_holder)
qed (simp add: evict_oldest_def)

lemma reconnect_adds:
  assumes ok: "pool_ok s" and run: "reconnect v s = (Inr h, s')"
  shows "\<exists>t. s' = add_entry v h t \<and> map_ok (userDBs t)"
proof -
  have t: "pool_ok (evict_oldest (drop_entry v s))" using evict_ok [OF drop_entry_ok(1) [OF ok]] by simp
  obtain c s1 where c: "connect_loop 3 (database v) ''user db unreachable after 3 attempts''
      (evict_oldest (drop_entry v s)) = (c, s1)" by fastforce
  have "same_mgr (evict_oldest (drop_entry v s)) s1"
    using connect_loop_res [OF c] t by (auto simp: pool_ok_def handles_ok_def)
  with t run c show ?thesis
    by (auto simp: reconnect_def same_mgr_def pool_ok_def lru_ok_def split: sum.splits)
qed

lemma reconnect_holder:
  assumes ok: "pool_ok s" and run: "reconnect v s = (r, s')" and ne: "v \<noteq> u"
    and kept: "u \<in> set (recency s')"
  shows "holder s' (Some u) = holder s (Some u)"
proof -
  define t where "t = evict_oldest (drop_entry v s)"
  have d: "pool_ok (drop_entry v s)" by (rule drop_entry_ok [OF ok])
  from evict_ok [OF d] have t: "pool_ok t" by (simp add: t_def)
  obtain c s1 where c: "connect_loop 3 (database v) ''user db unreachable after 3 attempts'' t = (c, s1)"
    by (cases "connect_loop 3 (database v) ''user db unreachable after 3 attempts'' t")
  have "same_mgr t s1"
    using connect_loop_res [OF c] t by (auto simp: pool_ok_def handles_ok_def)
  moreover have "s' = (case c of Inl _ \<Rightarrow> s1 | Inr h \<Rightarrow> add_entry v h s1)"
    using run c by (auto simp: reconnect_def t_def split: sum.splits)
  ultimately have "holder s' (Some u) = holder t (Some u)" "u \<in> set (recency t)"
    using kept ne t
    by (auto simp: same_mgr_def holder_def recency_def add_entry_def map_put_get pool_ok_def
        lru_ok_def split: sum.splits)
  then show ?thesis using evict_holder [OF d] drop_entry_holder [OF ne] by (simp add: t_def)
qed

lemma get_holder:
  assumes ok: "pool_ok s" and ne: "v \<noteq> u" and kept: "u \<in> set (recency (snd (getOrCreateUserDB v s)))"
  shows "holder (snd (getOrCreateUserDB v s)) (Some u) = holder s (Some u)"
proof -
  have slow: "holder t' (Some u) = holder t (Some u)"
    if "slow_path v t = (r, t')" "pool_ok t" "u \<in> set (recency t')" for r t t'
  proof -
    obtain f t1 where f: "fast_check v t = (f, t1)" by (cases "fast_check v t")
    have t1: "same_mgr t t1" "pool_ok t1"
      using fast_check_res [OF f] that(2) by (auto intro: same_pool_ok)
    show ?thesis
    proof (cases f)
      case None
      then have "reconnect v t1 = (r, t')" using that(1) f by (simp add: slow_path_def)
      from reconnect_holder [OF t1(2) this ne that(3)] show ?thesis by (simp add: same_holder [OF t1(1)])
    next
      case (Some hi)
      then have "t' = touch (snd hi) t1" using that(1) f by (auto simp: slow_path_def split: prod.splits)
      then have "holder t' (Some u) = holder t1 (Some u)" by (simp add: touch_def holder_def)
      then show ?thesis by (simp add: same_holder [OF t1(1)])
    qed
  qed
  obtain r s' where run: "getOrCreateUserDB v s = (r, s')" by (cases "getOrCreateUserDB v s")
  then show ?thesis
  proof (cases rule: getOrCreate_cases)
    case (1 s1)
    then have "pool_ok s1" using ok by (auto intro: same_pool_ok)
    from slow [OF 1(4) this] kept run 1(1) show ?thesis by (simp add: same_holder)
  next
    case 2
    from slow [OF 2 ok] kept run show ?thesis by simp
  qed
qed

text \<open>While fewer than 64 other users are served, a user's entry keeps its handle.\<close>

lemma served_holder:
  assumes "pool_ok s" "getOrCreateUserDB u s = (Inr h, s')" "card (set others) < 64" "u \<notin> set others"
  shows "holder (pool.serve others s') (Some u) = holder s' (Some u)"
  using assms(3,4)
proof (induction others rule: rev_induct)
  case Nil
  then show ?case by (simp add: pool.serve_def)
next
  case (snoc v vs)
  have "card (set vs) \<le> card (set (vs @ [v]))" by (intro card_mono) auto
  then have few: "card (set vs) < 64" using snoc.prems by simp
  have ok: "pool_ok (pool.serve vs s')" using getOrCreate_ok(1) [OF assms(1,2)] by (rule pool.serve_ok)
  have step: "pool.serve (vs @ [v]) s' = snd (getOrCreateUserDB v (pool.serve vs s'))"
    by (simp add: pool.serve_def)
  have "u \<in> set (recency (pool.serve (vs @ [v]) s'))"
    by (rule pool.just_served [OF assms(1,2) finite_set _ snoc.prems(2) subset_refl])
      (use snoc.prems in \<open>simp add: UserDBPoolSize_def\<close>)
  moreover have "v \<noteq> u" using snoc.prems by auto
  ultimately show ?case using get_holder [OF ok, of v u] snoc few step by simp
qed

section \<open>The fast path and an eviction\<close>

text \<open>
  What reconnecting another user closes for good: the handle of the least recent user of a full
  pool.  The handle that is opened is a new one.
\<close>

lemma reconnect_closes_last:
  assumes ok: "pool_ok s" and full: "length (userDBs s) = UserDBPoolSize"
    and new: "v \<notin> set (recency s)" and run: "reconnect v s = (r, s')"
    and h: "holder s (Some (last (recency s))) = Some h"
  shows "h \<notin> fst ` set (handles s')"
proof -
  have lru: "lru_ok s" and hs: "handles_ok s" using ok by (simp_all add: pool_ok_def)
  have "map_of (userDBs s) v = None"
    using new recency_users [OF lru] by (simp add: map_of_eq_None_iff)
  then have d: "drop_entry v s = s" by (simp add: drop_entry_def)
  from evict_full [OF ok] full obtain u e where
    u: "map_of (userDBs s) u = Some e" "last (recency s) = u" "evict_oldest s = without u e s" by auto
  define t where "t = without u e s"
  have t: "pool_ok t" using without_ok(1) [OF ok u(1)] by (simp add: t_def)
  have "e_db e = Some h" using h u by (simp add: holder_def)
  then have closed: "h \<notin> fst ` set (handles t)" by (auto simp: t_def without_def)
  have low: "h < next_handle t" using h hs by (auto simp: handles_ok_def t_def without_def)
  obtain c s1 where c: "connect_loop 3 (database v) ''user db unreachable after 3 attempts'' t = (c, s1)"
    by (cases "connect_loop 3 (database v) ''user db unreachable after 3 attempts'' t")
  have "handles s' = handles s1"
    using run c d u by (auto simp: reconnect_def t_def add_entry_def split: sum.splits)
  with closed low connect_loop_res [OF c] t show ?thesis
    by (auto simp: pool_ok_def handles_ok_def split: sum.splits)
qed

lemma fast_check_absent:
  "pool_ok s \<Longrightarrow> v \<notin> set (recency s) \<Longrightarrow> fast_check v s = (None, s)"
  using recency_users [of s] map_of_eq_None_iff [of "userDBs s" v]
  by (simp add: fast_check_def pool_ok_def)

lemma closed_handle:
  assumes "h \<notin> fst ` set (handles s)"
  shows "db_Exec h st s = (Inl (DriverErr ''sql: database is closed''), s)"
    and "db_Query h q s = (Inl (DriverErr ''sql: database is closed''), s)"
  using assms by (simp_all add: db_Exec_def db_Query_def on_server_def map_of_eq_None_iff [symmetric])

section \<open>A calm server\<close>

text \<open>Where every connection attempt succeeds, serving new users lists them, the last one first.\<close>

definition calm :: "rdb \<Rightarrow> bool" where
  "calm s \<longleftrightarrow> open_script s = [] \<and> ping_script s = []"

lemma calm_fast_check: "calm s \<Longrightarrow> fast_check v s = (r, s') \<Longrightarrow> s' = s"
  by (auto simp: fast_check_def calm_def ping_def split: option.splits if_splits)

lemma calm_evict: "calm s \<Longrightarrow> calm (evict_oldest s)"
  by (simp add: calm_def evict_oldest_def entry_close_def close_handle_def
      split: option.splits prod.splits)

lemma calm_drop: "calm s \<Longrightarrow> calm (drop_entry v s)"
  by (simp add: calm_def drop_entry_def entry_close_def close_handle_def split: option.splits)

lemma calm_connect: "calm s \<Longrightarrow> \<exists>h s'. connect_loop (Suc n) d m s = (Inr h, s') \<and> calm s'"
  by (simp add: calm_def sql_Open_def ping_def image_Un)

lemma calm_get:
  assumes c: "calm s"
  shows "\<exists>h s'. getOrCreateUserDB v s = (Inr h, s') \<and> calm s'"
proof -
  obtain f where f: "fast_check v s = (f, s)"
    using calm_fast_check [OF c] by (metis prod.collapse)
  have "calm (touch i s)" for i using c by (simp add: calm_def touch_def)
  moreover have "\<exists>h s'. reconnect v s = (Inr h, s') \<and> calm s'"
    using calm_connect [OF calm_evict [OF calm_drop [OF c, of v]], of 2 "database v"
        "''user db unreachable after 3 attempts''"]
    by (auto simp: reconnect_def numeral_3_eq_3 numeral_2_eq_2 add_entry_def calm_def
        simp del: connect_loop.simps)
  ultimately show ?thesis
    by (cases f) (auto simp: getOrCreateUserDB_def slow_path_def f)
qed

lemma calm_serve:
  assumes "calm s" "pool_ok s" "distinct vs" "set vs \<inter> set (recency s) = {}"
    and "length vs + length (recency s) \<le> UserDBPoolSize"
  shows "calm (pool.serve vs s) \<and> pool_ok (pool.serve vs s) \<and>
    recency (pool.serve vs s) = rev vs @ recency s"
  using assms
proof (induction vs arbitrary: s)
  case Nil
  then show ?case by (simp add: pool.serve_def)
next
  case (Cons v vs)
  obtain h t where t: "getOrCreateUserDB v s = (Inr h, t)" "calm t"
    using calm_get [OF Cons.prems(1)] by blast
  from getOrCreate_ok(1,2) [OF Cons.prems(2) t(1)] Cons.prems
  have "pool_ok t" "recency t = v # recency s" by (auto simp: removeAll_id)
  with Cons t show ?case by (auto simp: pool.serve_def)
qed

section \<open>Properties\<close>

lemma last_not_taken: "distinct xs \<Longrightarrow> length xs = Suc n \<Longrightarrow> last xs \<notin> set (take n xs)"
  by (cases xs rule: rev_cases) auto

lemma own_holder:
  assumes ok: "pool_ok s" and run: "getOrCreateUserDB u s = (Inr h, s')"
  shows "holder s' (Some u) = Some h"
proof -
  have slow: "holder t' (Some u) = Some h" if st: "slow_path u t = (Inr h, t')" "pool_ok t" for t t'
  proof -
    obtain f t1 where f: "fast_check u t = (f, t1)" by (cases "fast_check u t")
    note fr = fast_check_res [OF f]
    show ?thesis
    proof (cases f)
      case None
      have t1: "pool_ok t1" using fr st(2) by (auto intro: same_pool_ok)
      have "reconnect u t1 = (Inr h, t')" using st(1) f None by (simp add: slow_path_def)
      then obtain t2 where "t' = add_entry u h t2" "map_ok (userDBs t2)"
        using reconnect_adds [OF t1] by blast
      then show ?thesis by (simp add: holder_def add_entry_def map_put_get)
    next
      case (Some hi)
      with st(1) f fr show ?thesis
        by (cases hi) (auto simp: slow_path_def holder_def touch_def same_mgr_def)
    qed
  qed
  from run show ?thesis
  proof (cases rule: getOrCreate_cases)
    case (1 s1)
    from slow [OF 1(4) same_pool_ok] 1 ok show ?thesis by simp
  qed (rule slow [OF _ ok])
qed

text \<open>
  The connection a user was given stays theirs and open, to their own database, while fewer
  than 64 other users ask for connections, whether these attempts succeed or fail.
\<close>

theorem handle_outlives_others:
  assumes "pool_ok s" and "getOrCreateUserDB u s = (Inr h, s')"
    and "card (set others) < 64" and "u \<notin> set others"
  shows "(h, database u) \<in> set (handles (fold (\<lambda>v t. snd (getOrCreateUserDB v t)) others s'))"
proof -
  have ok: "pool_ok (pool.serve others s')" and s': "pool_ok s'"
    using getOrCreate_ok(1) [OF assms(1,2)] by (auto intro: pool.serve_ok)
  have "holder s' (Some u) = Some h" using assms(1,2) by (rule own_holder)
  with served_holder [OF assms] ok show ?thesis
    by (simp add: pool_ok_def handles_ok_def pool.serve_def)
qed

text \<open>A full pool: 64 users whose first connections all succeeded; the first one is the oldest.\<close>

definition many_users :: "nat \<Rightarrow> string list" where
  "many_users n = map (\<lambda>k. replicate k CHR ''a'') [2..<n]"

definition one_user :: "nat \<times> rdb" where
  "one_user = (case getOrCreateUserDB ''a'' (newRootRDBManager [] [] empty_server) of
                 (Inr h, s) \<Rightarrow> (h, s) | (Inl _, s) \<Rightarrow> (0, s))"

definition full_pool :: rdb where
  "full_pool = fold (\<lambda>v t. snd (getOrCreateUserDB v t)) (many_users 65) (snd one_user)"

lemma one_user_ok:
  "getOrCreateUserDB ''a'' (newRootRDBManager [] [] empty_server) = (Inr (fst one_user), snd one_user)"
  "calm (snd one_user)" "recency (snd one_user) = [''a'']" "pool_ok (snd one_user)"
proof -
  have c: "calm (newRootRDBManager [] [] empty_server)" by (simp add: calm_def newRootRDBManager_def)
  obtain h s where g: "getOrCreateUserDB ''a'' (newRootRDBManager [] [] empty_server) = (Inr h, s)"
    "calm s" using calm_get [OF c] by blast
  then have u: "one_user = (h, s)" by (simp add: one_user_def)
  show "getOrCreateUserDB ''a'' (newRootRDBManager [] [] empty_server) = (Inr (fst one_user), snd one_user)"
    "calm (snd one_user)" unfolding u fst_conv snd_conv by (rule g)+
  show "recency (snd one_user) = [''a'']" "pool_ok (snd one_user)"
    unfolding u using getOrCreate_ok(1,2) [OF new_pool_ok g(1)]
    by (simp_all add: newRootRDBManager_def recency_def UserDBPoolSize_def)
qed

lemma many_users_ok:
  "distinct (many_users n)" "''a'' \<notin> set (many_users n)" "''b'' \<notin> set (many_users n)"
  "length (many_users n) = n - 2"
proof -
  show "distinct (many_users n)"
    by (auto simp: many_users_def distinct_map inj_on_def dest: arg_cong [of _ _ length])
  show "''a'' \<notin> set (many_users n)" "''b'' \<notin> set (many_users n)"
    by (auto simp: many_users_def dest: arg_cong [of _ _ length])
  show "length (many_users n) = n - 2" by (simp add: many_users_def)
qed

lemma full_pool_ok:
  "calm full_pool" "pool_ok full_pool" "recency full_pool = rev (many_users 65) @ [''a'']"
  "length (userDBs full_pool) = 64" "holder full_pool (Some ''a'') = Some (fst one_user)"
proof -
  have f: "full_pool = pool.serve (many_users 65) (snd one_user)"
    by (simp add: full_pool_def pool.serve_def)
  have all: "calm full_pool \<and> pool_ok full_pool \<and> recency full_pool = rev (many_users 65) @ [''a'']"
    using calm_serve [OF one_user_ok(2,4) many_users_ok(1), of 65]
    unfolding f one_user_ok(3) using many_users_ok(2,4) [of 65] by (simp add: UserDBPoolSize_def)
  then show "calm full_pool" "pool_ok full_pool" "recency full_pool = rev (many_users 65) @ [''a'']"
    by simp_all
  then show "length (userDBs full_pool) = 64"
    using recency_length [of full_pool] by (simp add: pool_ok_def many_users_ok)
  show "holder full_pool (Some ''a'') = Some (fst one_user)"
    unfolding f
    using served_holder [OF new_pool_ok one_user_ok(1) _ many_users_ok(2), of 65]
      own_holder [OF new_pool_ok one_user_ok(1)] distinct_card [OF many_users_ok(1), of 65]
    by (simp add: many_users_ok)
qed

theorem handle_outlives_others_witness:
  "(fst one_user, database ''a'') \<in> set (handles full_pool)"
  using handle_outlives_others [OF new_pool_ok one_user_ok(1), of "many_users 65"]
    distinct_card [OF many_users_ok(1), of 65] many_users_ok
  by (simp add: full_pool_def)

text \<open>
  C37: Between the fast path's look at a healthy connection and its touch, one other caller can
  evict the user and close the connection: the caller is handed a closed connection, without an
  error, and every statement it then runs fails with \<open>sql: database is closed\<close>.
\<close>

theorem evicted_before_touch:
  assumes "pool_ok s" and "length (userDBs s) = 64" and "last (recency s) = u"
    and "v \<notin> set (recency s)"
    and "fast_check u s = (Some (h, i), s1)" and "slow_path v s1 = (r, s2)"
  shows "(h, database u) \<in> set (handles s1) \<and> u \<notin> set (recency (touch i s2)) \<and>
    db_Exec h st (touch i s2) = (Inl (DriverErr ''sql: database is closed''), touch i s2) \<and>
    db_Query h q (touch i s2) = (Inl (DriverErr ''sql: database is closed''), touch i s2)"
proof -
  note f = fast_check_res [OF assms(5)]
  have s1: "pool_ok s1" "recency s1 = recency s" "userDBs s1 = userDBs s"
    using f assms(1) by (auto intro: same_pool_ok simp: same_mgr_def recency_def)
  have hu: "holder s1 (Some u) = Some h" using f by (auto simp: holder_def same_mgr_def)
  have run: "reconnect v s1 = (r, s2)"
    using assms(4,6) fast_check_absent [OF s1(1), of v] s1(2) by (simp add: slow_path_def)
  have "h \<notin> fst ` set (handles s2)"
    by (rule reconnect_closes_last [OF s1(1) _ _ run])
      (use assms s1 hu in \<open>simp_all add: UserDBPoolSize_def\<close>)
  then have closed: "h \<notin> fst ` set (handles (touch i s2))" by (simp add: touch_def)
  have lru: "lru_ok s" using assms(1) by (simp add: pool_ok_def)
  have "length (recency s) = 64" "distinct (recency s)"
    using recency_length [OF lru] recency_distinct [OF lru] assms(2) by simp_all
  then have last: "u \<in> set (recency s)" "u \<notin> set (take 63 (recency s))"
    using assms(3) last_not_taken [of "recency s" 63] by (auto intro: last_in_set)
  have "u \<notin> set (recency s2)"
    using slow_path_ok(2,3) [OF s1(1) assms(6)] s1(2) assms(4) last
    by (cases r) (auto simp: UserDBPoolSize_def removeAll_id take_cons)
  then have "u \<notin> set (recency (touch i s2))" by (auto simp: touch_def move_front_def recency_def)
  moreover have "(h, database u) \<in> set (handles s1)"
    using hu s1(1) by (simp add: pool_ok_def handles_ok_def)
  ultimately show ?thesis using closed_handle [OF closed] by simp
qed

theorem evicted_before_touch_witness:
  "\<exists>i. fast_check ''a'' full_pool = (Some (fst one_user, i), full_pool) \<and>
     fst (db_Exec (fst one_user) (CreateSchemaStmt ''schema_s'')
       (touch i (snd (slow_path ''b'' full_pool)))) = Inl (DriverErr ''sql: database is closed'')"
proof -
  note full = full_pool_ok
  obtain e where e: "map_of (userDBs full_pool) ''a'' = Some e" "e_db e = Some (fst one_user)"
    using full(5) by (auto simp: holder_def bind_eq_Some_conv)
  have "(fst one_user, database ''a'') \<in> set (handles full_pool)"
    using full(2,5) by (simp add: pool_ok_def handles_ok_def)
  then have f: "fast_check ''a'' full_pool = (Some (fst one_user, e_element e), full_pool)"
    using e full(1) by (force simp: fast_check_def ping_def calm_def)
  have "''b'' \<notin> set (recency full_pool)" using full(3) many_users_ok(3) by simp
  from evicted_before_touch [OF full(2,4) _ this f prod.collapse [symmetric],
      of "CreateSchemaStmt ''schema_s''" "\<lambda>_ _. Inr ()"]
  show ?thesis using f full(3) by (intro exI [of _ "e_element e"]) simp
qed

end
